(* ===== verification/Prelude.thy ===== *)
theory Prelude
  imports Main "HOL-Library.Word"
begin

text \<open>
  Shared vocabulary of the development: the C integer types as machine words, the ways in
  which a call can fail to return a value, the sequencing of fallible calls, the host's
  little-endian memory layout of integers (what \<open>memcpy\<close> of a \<open>uint64_t\<close> moves), and the
  lemma collections the component theories share.
\<close>

unbundle bit_operations_syntax

section \<open>C integer types\<close>

text \<open>
  Signed integers (\<open>int64_t\<close>, \<open>int\<close>) are kept as words too: QEMU is compiled with wrapping signed
  arithmetic, and \<open>sint\<close> reads the two's complement value.
\<close>

type_synonym u8 = "8 word"
type_synonym u32 = "32 word"
type_synonym u64 = "64 word"
type_synonym i64 = "64 word"
type_synonym i32 = "32 word"

lemma sint_eq_uint_small:
  fixes w :: "'a::len word"
  assumes "uint w < 2 ^ (LENGTH('a) - 1)"
  shows "sint w = uint w"
proof -
  have "- (2 ^ (LENGTH('a) - 1)) \<le> (0 :: int)" by simp
  also have "0 \<le> uint w" by simp
  finally show ?thesis
    using assms by (simp add: sint_uint signed_take_bit_int_eq_self)
qed

section \<open>Faults: how a call can fail to return\<close>

text \<open>One constructor per \<open>assert\<close> of the sources.\<close>

datatype assertion =
    Singleton_Exists          \<comment> \<open>a second engine is created\<close>
  | First_Message_Not_Sync    \<comment> \<open>\<open>pdes_engine_send\<close> before the first sync\<close>
  | Only_Master_Initiates     \<comment> \<open>\<open>initiate_checkpoint_master\<close> on a follower\<close>
  | End_Before_Permission     \<comment> \<open>END received while not permitted to exit\<close>
  | Finished_Not_Permitted    \<comment> \<open>the same check in \<open>wwt_sync_check\<close>\<close>
  | Flexus_Api_Partial        \<comment> \<open>\<open>stop\<close> without \<open>pause\<close> or \<open>resume\<close>\<close>
  | Pause_Bh_Pending          \<comment> \<open>\<open>pdes_pause\<close> while a pause bottom half exists\<close>
  | Drain_Format              \<comment> \<open>\<open>pdes_drain\<close> with another snapshot format\<close>
  | Initiate_Not_Sent         \<comment> \<open>\<open>send_initiate_checkpoint_message\<close> failed\<close>
  | Wrong_Quantum_Round       \<comment> \<open>a SYNC for a round that is neither this nor the next\<close>
  | Message_In_Past           \<comment> \<open>a packet stamped before the receiver's time\<close>
  | Drain_Not_Needed          \<comment> \<open>\<open>notify_neighbors_for_drain\<close> without a checkpoint\<close>
  | Checkpoint_Round_Passed   \<comment> \<open>the checkpoint round is behind the current round\<close>
  | Sync_Check_Timer_Set      \<comment> \<open>\<open>quanta_sync\<close> while the check timer exists\<close>
  | Invalid_Receive_Context   \<comment> \<open>\<open>process_message_at_virtual_time\<close> on a bad message\<close>
  | Inflight_Not_Found        \<comment> \<open>\<open>pdes_inflight_remove\<close> of an unknown message\<close>
  | Sync_Time_Unset           \<comment> \<open>universal time asked for before setup\<close>

text \<open>
  A call either returns or ends in a fault. \<open>Exit_Process\<close> keeps the state in which the
  process left, \<open>Still_Waiting\<close> the state of a busy loop whose condition still holds:
  the call has not returned. \<open>Send_Blocked\<close> is the wait for a slot of a full ring;
  \<open>Uninitialised\<close> is the use of a local that no statement has set, \<open>Wrong_Struct\<close> the access to
  an object through a pointer to another struct type; both are undefined behaviour.
\<close>

datatype 'n fault =
    Assert_Failed assertion
  | Null_Deref
  | Out_Of_Bounds
  | Send_Blocked
  | Still_Waiting 'n
  | Exit_Process int 'n
  | Uninitialised
  | Wrong_Struct
  | Out_Of_Fuel

type_synonym ('n, 'a) res = "'n fault + 'a"

definition bindE :: "('n, 'a) res \<Rightarrow> ('a \<Rightarrow> ('n, 'b) res) \<Rightarrow> ('n, 'b) res" where
  "bindE m f = (case m of Inl e \<Rightarrow> Inl e | Inr x \<Rightarrow> f x)"

definition assertE :: "assertion \<Rightarrow> bool \<Rightarrow> ('n, unit) res" where
  "assertE a b = (if b then Inr () else Inl (Assert_Failed a))"

fun foldE :: "('m \<Rightarrow> 's \<Rightarrow> ('n, 's) res) \<Rightarrow> 'm list \<Rightarrow> 's \<Rightarrow> ('n, 's) res" where
  "foldE f [] s = Inr s"
| "foldE f (x # xs) s = bindE (f x s) (foldE f xs)"

lemma bindE_Inl [simp]: "bindE (Inl e) f = Inl e"
  by (simp add: bindE_def)

lemma bindE_Inr [simp]: "bindE (Inr x) f = f x"
  by (simp add: bindE_def)

lemma bindE_Inr_iff: "bindE m f = Inr y \<longleftrightarrow> (\<exists>x. m = Inr x \<and> f x = Inr y)"
  by (cases m) auto

lemma bindE_Inl_iff: "bindE m f = Inl e \<longleftrightarrow> m = Inl e \<or> (\<exists>x. m = Inr x \<and> f x = Inl e)"
  by (cases m) auto

lemma bindE_InrE:
  assumes "bindE m f = Inr y"
  obtains x where "m = Inr x" and "f x = Inr y"
  using assms by (auto simp: bindE_Inr_iff)

lemma bindE_assoc: "bindE (bindE m f) g = bindE m (\<lambda>x. bindE (f x) g)"
  by (cases m) auto

lemma bindE_return [simp]: "bindE m Inr = m"
  by (cases m) auto

lemma assertE_True [simp]: "b \<Longrightarrow> assertE a b = Inr ()"
  by (simp add: assertE_def)

lemma assertE_False [simp]: "\<not> b \<Longrightarrow> assertE a b = Inl (Assert_Failed a)"
  by (simp add: assertE_def)

lemma assertE_Inr_iff: "assertE a b = Inr u \<longleftrightarrow> b"
  by (simp add: assertE_def)

lemma assertE_Inl_iff: "assertE a b = Inl e \<longleftrightarrow> \<not> b \<and> e = Assert_Failed a"
  by (auto simp: assertE_def)

lemma foldE_append: "foldE f (xs @ ys) s = bindE (foldE f xs s) (foldE f ys)"
proof (induction xs arbitrary: s)
  case (Cons x xs)
  then show ?case by (cases "f x s") simp_all
qed simp

text \<open>An invariant of the body of a fallible loop is an invariant of the loop.\<close>

lemma foldE_invariant:
  assumes "foldE f xs s = Inr t" and "P s"
    and "\<And>x u v. x \<in> set xs \<Longrightarrow> P u \<Longrightarrow> f x u = Inr v \<Longrightarrow> P v"
  shows "P t"
  using assms by (induction xs arbitrary: s) (auto elim!: bindE_InrE)

lemmas res_iffs = bindE_Inr_iff bindE_Inl_iff assertE_Inr_iff assertE_Inl_iff

section \<open>Lemma collections\<close>

named_theorems ring_rules \<open>facts about the index arithmetic and contents of a ring\<close>
named_theorems quiet_intros \<open>handlers that leave the barrier state alone\<close>

section \<open>Integers in memory\<close>

text \<open>The \<open>k\<close> bytes of an integer at increasing addresses on a little-endian host.\<close>

fun le_bytes :: "nat \<Rightarrow> 'a::len word \<Rightarrow> u8 list" where
  "le_bytes 0 w = []"
| "le_bytes (Suc k) w = ucast w # le_bytes k (drop_bit 8 w)"

fun le_word :: "u8 list \<Rightarrow> 'a::len word" where
  "le_word [] = 0"
| "le_word (b # bs) = ucast b OR push_bit 8 (le_word bs)"

lemma length_le_bytes [simp]: "length (le_bytes k w) = k"
  by (induction k arbitrary: w) simp_all

lemma ucast_or_shift:
  fixes w :: "'a::len word"
  shows "ucast (ucast w :: u8) OR push_bit 8 (take_bit k (drop_bit 8 w)) = take_bit (8 + k) w"
proof (rule bit_word_eqI)
  fix n
  assume "n < LENGTH('a)"
  then show "bit (ucast (ucast w :: u8) OR push_bit 8 (take_bit k (drop_bit 8 w)) :: 'a word) n =
    bit (take_bit (8 + k) w) n"
    by (auto simp: bit_or_iff bit_push_bit_iff bit_take_bit_iff bit_drop_bit_eq bit_ucast_iff
        dest: bit_imp_le_length)
qed

lemma le_word_bytes: "le_word (le_bytes k w) = take_bit (8 * k) w"
  by (induction k arbitrary: w) (simp_all add: ucast_or_shift)

lemma le_word_bytes_u32 [simp]: "le_word (le_bytes 4 w) = (w :: u32)"
  by (simp add: le_word_bytes take_bit_word_eq_self)

lemma le_word_bytes_u64 [simp]: "le_word (le_bytes 8 w) = (w :: u64)"
  by (simp add: le_word_bytes take_bit_word_eq_self)

section \<open>Bytes and characters\<close>

text \<open>C strings are kept as Isabelle strings without their final NUL.\<close>

definition byte_of_char :: "char \<Rightarrow> u8" where
  "byte_of_char c = word_of_nat (of_char c)"

definition char_of_byte :: "u8 \<Rightarrow> char" where
  "char_of_byte b = char_of (unat b)"

lemma char_of_byte_of_char [simp]: "char_of_byte (byte_of_char c) = c"
  by (simp add: char_of_byte_def byte_of_char_def unsigned_of_nat char_of_take_bit_eq)

lemma map_char_of_byte_of_char [simp]: "map (char_of_byte \<circ> byte_of_char) cs = cs"
  by (simp add: map_idI)

definition cstring :: "char list \<Rightarrow> string" where
  "cstring cs = takeWhile (\<lambda>c. c \<noteq> CHR 0x00) cs"

lemma cstring_id [simp]: "CHR 0x00 \<notin> set cs \<Longrightarrow> cstring cs = cs"
  by (auto simp: cstring_def takeWhile_eq_all_conv)

end
