(* ===== verification/Fifo.thy ===== *)
theory Fifo
  imports Prelude
begin

text \<open>
  The contract between the communicator and its clients: a bounded first-in first-out
  channel. A provider gives the abstraction \<open>contents\<close> and the laws of \<open>put\<close> (refused only
  when the capacity is reached) and \<open>get\<close> (the oldest element, none when empty). The
  clients' facts about whole batches are proved here once.
\<close>

locale fifo =
  fixes wf :: "'c \<Rightarrow> bool"
    and contents :: "'c \<Rightarrow> 'm list"
    and capacity :: nat
    and put :: "'m \<Rightarrow> 'c \<Rightarrow> 'c option"
    and get :: "'c \<Rightarrow> ('m \<times> 'c) option"
  assumes put_full: "wf c \<Longrightarrow> put m c = None \<longleftrightarrow> length (contents c) = capacity"
    and put_wf: "wf c \<Longrightarrow> put m c = Some c' \<Longrightarrow> wf c'"
    and put_contents: "wf c \<Longrightarrow> put m c = Some c' \<Longrightarrow> contents c' = contents c @ [m]"
    and get_empty: "wf c \<Longrightarrow> get c = None \<longleftrightarrow> contents c = []"
    and get_wf: "wf c \<Longrightarrow> get c = Some (m, c') \<Longrightarrow> wf c'"
    and get_contents: "wf c \<Longrightarrow> get c = Some (m, c') \<Longrightarrow> contents c = m # contents c'"
begin

fun put_all :: "'m list \<Rightarrow> 'c \<Rightarrow> 'c option" where
  "put_all [] c = Some c"
| "put_all (m # ms) c = (case put m c of None \<Rightarrow> None | Some c' \<Rightarrow> put_all ms c')"

fun get_upto :: "nat \<Rightarrow> 'c \<Rightarrow> 'm list \<times> 'c" where
  "get_upto 0 c = ([], c)"
| "get_upto (Suc n) c =
     (case get c of None \<Rightarrow> ([], c) | Some (m, c') \<Rightarrow> apfst (Cons m) (get_upto n c'))"

lemma put_all_contents:
  "wf c \<Longrightarrow> put_all ms c = Some c' \<Longrightarrow> wf c' \<and> contents c' = contents c @ ms"
proof (induction ms arbitrary: c)
  case (Cons m ms)
  then obtain c1 where "put m c = Some c1" and "put_all ms c1 = Some c'"
    by (auto split: option.splits)
  moreover have "wf c1" and "contents c1 = contents c @ [m]"
    using Cons.prems(1) \<open>put m c = Some c1\<close> by (auto intro: put_wf put_contents)
  ultimately show ?case using Cons.IH[of c1] by simp
qed simp

lemma bounded_step:
  "wf c \<Longrightarrow> length (contents c) \<le> capacity \<Longrightarrow> put m c = Some c' \<Longrightarrow>
    length (contents c') \<le> capacity"
  using put_full[of c m] put_contents[of c m c'] by (auto simp: le_less)

lemma put_all_room:
  "wf c \<Longrightarrow> length (contents c) + length ms \<le> capacity \<Longrightarrow> \<exists>c'. put_all ms c = Some c'"
proof (induction ms arbitrary: c)
  case (Cons m ms)
  from Cons.prems have "put m c \<noteq> None" by (simp add: put_full)
  then obtain c1 where c1: "put m c = Some c1" by blast
  with Cons.prems have "wf c1" and "length (contents c1) + length ms \<le> capacity"
    by (auto dest: put_wf put_contents)
  with Cons.IH c1 show ?case by simp
qed simp

lemma get_upto_all:
  "wf c \<Longrightarrow> length (contents c) \<le> n \<Longrightarrow>
    fst (get_upto n c) = contents c \<and> wf (snd (get_upto n c)) \<and> contents (snd (get_upto n c)) = []"
proof (induction n arbitrary: c)
  case (Suc n)
  show ?case
  proof (cases "get c")
    case None
    with Suc.prems show ?thesis using get_empty[of c] by simp
  next
    case (Some p)
    then obtain m c' where p: "get c = Some (m, c')" by (cases p) simp
    from p Suc.prems have "wf c'" and c: "contents c = m # contents c'"
      by (auto dest: get_wf get_contents)
    with p Suc show ?thesis by simp
  qed
qed simp

text \<open>Nothing is lost, duplicated or reordered between a batch of puts and the gets.\<close>

lemma batch_fifo:
  assumes "wf c" and "contents c = []" and "length ms \<le> capacity"
  shows "\<exists>c'. put_all ms c = Some c' \<and> fst (get_upto (length ms) c') = ms"
proof -
  obtain c' where c': "put_all ms c = Some c'"
    using assms put_all_room[of c ms] by auto
  with assms have "wf c'" and "contents c' = ms"
    by (auto dest: put_all_contents)
  with c' show ?thesis using get_upto_all[of c' "length ms"] by simp
qed

end

end
