(* ===== verification/Message.thy ===== *)
theory Message
  imports Prelude
begin

text \<open>
  The wire format: \<open>Message\<close> of \<open>include/net/pdes-communicator.h\<close>, its type tags, and
  \<open>create_message\<close> of \<open>net/pdes-communicator.c\<close>, whose \<open>memcpy\<close> into the fixed 2048-byte
  payload has no bound of its own: a larger length is a fault of the model.
\<close>

definition MAX_MSG_SIZE :: nat where
  "MAX_MSG_SIZE = 2048"

definition MSG_TYPE_NORMAL :: u8 where "MSG_TYPE_NORMAL = 0"
definition MSG_TYPE_SYNC :: u8 where "MSG_TYPE_SYNC = 1"
definition NO_MESSAGE :: int where "NO_MESSAGE = -1"
definition DRAIN_START :: u8 where "DRAIN_START = 3"
definition DRAIN_END :: u8 where "DRAIN_END = 4"
definition CHECKPOINT_INIT_STEP :: u8 where "CHECKPOINT_INIT_STEP = 5"
definition END_OF_EMULATION :: u8 where "END_OF_EMULATION = 6"
definition INTENT_TO_END_EMULATION :: u8 where "INTENT_TO_END_EMULATION = 7"
definition PERMISSION_TO_END_EMULATION :: u8 where "PERMISSION_TO_END_EMULATION = 8"

lemmas msg_type_defs = MSG_TYPE_NORMAL_def MSG_TYPE_SYNC_def DRAIN_START_def DRAIN_END_def
  CHECKPOINT_INIT_STEP_def END_OF_EMULATION_def INTENT_TO_END_EMULATION_def
  PERMISSION_TO_END_EMULATION_def

record message =
  ts_ns :: u64
  len :: u32
  data :: "u8 list"   \<comment> \<open>the array of \<open>MAX_MSG_SIZE\<close> bytes\<close>
  mtype :: u8

text \<open>The bytes that count: the first \<open>len\<close> of the array.\<close>

definition payload :: "message \<Rightarrow> u8 list" where
  "payload m = take (unat (len m)) (data m)"

text \<open>
  \<open>create_message(data, len, type, ts_ns)\<close>: \<open>src\<close> holds the readable bytes at \<open>data\<close> (none
  for NULL). The message starts zeroed, so the copied bytes are followed by zeros.
\<close>

definition create_message :: "u8 list \<Rightarrow> u64 \<Rightarrow> u8 \<Rightarrow> u64 \<Rightarrow> ('n, message) res" where
  "create_message src n ty ts =
     (if unat n \<le> MAX_MSG_SIZE \<and> unat n \<le> length src
      then Inr \<lparr>ts_ns = ts, len = ucast n,
                data = take (unat n) src @ replicate (MAX_MSG_SIZE - unat n) 0, mtype = ty\<rparr>
      else Inl Out_Of_Bounds)"

text \<open>A well-formed message: what \<open>create_message\<close> builds.\<close>

definition message_wf :: "message \<Rightarrow> bool" where
  "message_wf m \<longleftrightarrow> length (data m) = MAX_MSG_SIZE \<and> unat (len m) \<le> MAX_MSG_SIZE"

lemma create_message_Inr_iff:
  "create_message src n ty ts = Inr m \<longleftrightarrow>
     unat n \<le> MAX_MSG_SIZE \<and> unat n \<le> length src \<and>
     m = \<lparr>ts_ns = ts, len = ucast n,
          data = take (unat n) src @ replicate (MAX_MSG_SIZE - unat n) 0, mtype = ty\<rparr>"
  by (auto simp: create_message_def)

lemma create_message_Inl: "create_message src n ty ts = Inl e \<Longrightarrow> e = Out_Of_Bounds"
  by (auto simp: create_message_def split: if_splits)

lemma create_message_mtype: "create_message src n ty ts = Inr m \<Longrightarrow> mtype m = ty"
  by (simp add: create_message_Inr_iff)

lemma create_message_ts: "create_message src n ty ts = Inr m \<Longrightarrow> ts_ns m = ts"
  by (simp add: create_message_Inr_iff)

lemma unat_ucast_u32:
  assumes "unat (n :: u64) \<le> MAX_MSG_SIZE"
  shows "unat (ucast n :: u32) = unat n"
proof -
  have "unat n < 2 ^ 32" using assms by (simp add: MAX_MSG_SIZE_def)
  then have "take_bit 32 (unat n) = unat n" by (simp add: take_bit_nat_eq_self)
  then show ?thesis by (simp add: unsigned_ucast_eq)
qed

text \<open>A control message carries no payload.\<close>

lemma create_message_empty:
  "create_message [] 0 ty ts =
     Inr \<lparr>ts_ns = ts, len = 0, data = replicate MAX_MSG_SIZE 0, mtype = ty\<rparr>"
  by (simp add: create_message_def)

text \<open>
  \<open>create_message\<close> builds a well-formed message whose payload is exactly the caller's
  bytes, with the type and time stamp given, for every buffer of at most 2048 bytes.
\<close>

theorem create_message_payload:
  assumes "length src \<le> MAX_MSG_SIZE"
  shows "\<exists>m. create_message src (word_of_nat (length src)) ty ts = Inr m \<and> message_wf m \<and>
    payload m = src \<and> unat (len m) = length src \<and> mtype m = ty \<and> ts_ns m = ts"
proof -
  have n: "unat (word_of_nat (length src) :: u64) = length src"
    using assms by (simp add: MAX_MSG_SIZE_def unat_of_nat)
  have u: "unat (ucast (word_of_nat (length src) :: u64) :: u32) = length src"
    using unat_ucast_u32[of "word_of_nat (length src)"] assms n by simp
  show ?thesis
    using assms u n by (simp add: create_message_def message_wf_def payload_def)
qed

theorem create_message_payload_witness:
  "\<exists>m. create_message [1, 2, 3] (word_of_nat (length [1, 2, 3 :: u8])) MSG_TYPE_NORMAL 9 = Inr m \<and>
    message_wf m \<and> payload m = [1, 2, 3] \<and> unat (len m) = length [1, 2, 3 :: u8] \<and>
    mtype m = MSG_TYPE_NORMAL \<and> ts_ns m = 9"
  by (rule create_message_payload) (simp add: MAX_MSG_SIZE_def)

end
