(* ===== verification/Ring.thy ===== *)
theory Ring
  imports Fifo Message
begin

text \<open>
  The shared-memory ring (\<open>ShmRing\<close>) of \<open>net/pdes-communicator.c\<close>: 8192 slots and two
  indices, one slot always left free so that equal indices mean empty. \<open>ring_put\<close> and
  \<open>ring_get\<close> are the index and slot work of \<open>pdes_comm_send\<close> and \<open>pdes_comm_recv\<close>; the
  abstraction \<open>ring_list\<close> reads the queued elements in order, and the ring is shown to be a
  bounded first-in first-out channel.
\<close>

definition RING_SIZE :: u32 where
  "RING_SIZE = 8192"

record 'm shm_ring =
  write_idx :: u32
  read_idx :: u32
  messages :: "nat \<Rightarrow> 'm"   \<comment> \<open>the slots \<open>0 .. 8191\<close>\<close>

definition ring_next :: "u32 \<Rightarrow> u32" where
  "ring_next i = (i + 1) mod RING_SIZE"

definition ring_full :: "'m shm_ring \<Rightarrow> bool" where
  "ring_full r \<longleftrightarrow> ring_next (write_idx r) = read_idx r"

definition ring_empty :: "'m shm_ring \<Rightarrow> bool" where
  "ring_empty r \<longleftrightarrow> read_idx r = write_idx r"

definition ring_put :: "'m \<Rightarrow> 'm shm_ring \<Rightarrow> 'm shm_ring" where
  "ring_put m r =
     r\<lparr>messages := (messages r)(unat (write_idx r) := m), write_idx := ring_next (write_idx r)\<rparr>"

definition ring_get :: "'m shm_ring \<Rightarrow> 'm \<times> 'm shm_ring" where
  "ring_get r = (messages r (unat (read_idx r)), r\<lparr>read_idx := ring_next (read_idx r)\<rparr>)"

definition ring_try_put :: "'m \<Rightarrow> 'm shm_ring \<Rightarrow> 'm shm_ring option" where
  "ring_try_put m r = (if ring_full r then None else Some (ring_put m r))"

definition ring_try_get :: "'m shm_ring \<Rightarrow> ('m \<times> 'm shm_ring) option" where
  "ring_try_get r = (if ring_empty r then None else Some (ring_get r))"

text \<open>Both indices are inside the array.\<close>

definition ring_wf :: "'m shm_ring \<Rightarrow> bool" where
  "ring_wf r \<longleftrightarrow> unat (write_idx r) < 8192 \<and> unat (read_idx r) < 8192"

definition ring_len :: "'m shm_ring \<Rightarrow> nat" where
  "ring_len r = (unat (write_idx r) + 8192 - unat (read_idx r)) mod 8192"

definition ring_list :: "'m shm_ring \<Rightarrow> 'm list" where
  "ring_list r = map (\<lambda>i. messages r ((unat (read_idx r) + i) mod 8192)) [0..<ring_len r]"

text \<open>A freshly created ring: the creator zeroes the whole mapping.\<close>

definition ring_init :: "'m \<Rightarrow> 'm shm_ring" where
  "ring_init z = \<lparr>write_idx = 0, read_idx = 0, messages = (\<lambda>_. z)\<rparr>"

section \<open>Index arithmetic\<close>

lemma mod_8192_if:
  "(x :: nat) < 16384 \<Longrightarrow> x mod 8192 = (if x < 8192 then x else x - 8192)"
  by (auto simp: mod_if)

lemma ring_len_if:
  assumes "ring_wf r"
  shows "ring_len r =
    (if unat (read_idx r) \<le> unat (write_idx r) then unat (write_idx r) - unat (read_idx r)
     else unat (write_idx r) + 8192 - unat (read_idx r))"
  using assms unfolding ring_wf_def ring_len_def by (subst mod_8192_if) auto

lemma unat_ring_next [ring_rules]:
  assumes "unat i < 8192"
  shows "unat (ring_next i) = (unat i + 1) mod 8192"
proof -
  have "unat (i + 1) = unat i + 1"
    using assms by (simp add: unat_word_ariths)
  then show ?thesis
    by (simp add: ring_next_def RING_SIZE_def unat_mod)
qed

lemma unat_ring_next_if:
  "unat i < 8192 \<Longrightarrow> unat (ring_next i) = (if unat i = 8191 then 0 else unat i + 1)"
  by (simp add: unat_ring_next mod_8192_if)

lemma unat_ring_next_less [ring_rules]: "unat i < 8192 \<Longrightarrow> unat (ring_next i) < 8192"
  by (simp add: unat_ring_next)

lemma ring_full_iff [ring_rules]:
  assumes "ring_wf r"
  shows "ring_full r \<longleftrightarrow> ring_len r = 8191"
proof -
  have "ring_full r \<longleftrightarrow> unat (ring_next (write_idx r)) = unat (read_idx r)"
    by (simp add: ring_full_def word_unat_eq_iff)
  then show ?thesis
    using assms by (auto simp: ring_len_if ring_wf_def unat_ring_next_if)
qed

lemma ring_empty_iff [ring_rules]:
  assumes "ring_wf r"
  shows "ring_empty r \<longleftrightarrow> ring_len r = 0"
proof -
  have "ring_empty r \<longleftrightarrow> unat (read_idx r) = unat (write_idx r)"
    by (simp add: ring_empty_def word_unat_eq_iff)
  then show ?thesis
    using assms by (auto simp: ring_len_if ring_wf_def)
qed

lemma ring_len_bound: "ring_wf r \<Longrightarrow> ring_len r \<le> 8191"
  using ring_len_if[of r] by (auto simp: ring_wf_def split: if_splits)

lemma length_ring_list [simp]: "length (ring_list r) = ring_len r"
  by (simp add: ring_list_def)

lemma ring_wf_put [ring_rules]: "ring_wf r \<Longrightarrow> ring_wf (ring_put m r)"
  by (simp add: ring_wf_def ring_put_def unat_ring_next_less)

lemma ring_wf_get [ring_rules]: "ring_wf r \<Longrightarrow> ring_wf (snd (ring_get r))"
  by (simp add: ring_wf_def ring_get_def unat_ring_next_less)

lemma ring_len_put:
  assumes "ring_wf r" and "\<not> ring_full r"
  shows "ring_len (ring_put m r) = Suc (ring_len r)"
proof -
  have "ring_len r \<noteq> 8191" using assms by (simp add: ring_full_iff)
  then show ?thesis
    using assms(1) ring_wf_put[OF assms(1), of m]
    by (auto simp: ring_len_if ring_wf_def ring_put_def unat_ring_next_if split: if_splits)
qed

lemma write_slot_free:
  assumes "ring_wf r" and "i < ring_len r"
  shows "(unat (read_idx r) + i) mod 8192 \<noteq> unat (write_idx r)"
proof -
  have "unat (read_idx r) + i < 16384"
    using assms ring_len_bound[OF assms(1)] by (simp add: ring_wf_def)
  then show ?thesis
    using assms by (auto simp: mod_8192_if ring_len_if ring_wf_def split: if_splits)
qed

lemma write_slot_end:
  assumes "ring_wf r"
  shows "(unat (read_idx r) + ring_len r) mod 8192 = unat (write_idx r)"
  using assms by (auto simp: ring_len_if ring_wf_def mod_8192_if)

lemma ring_list_put [ring_rules]:
  assumes "ring_wf r" and "\<not> ring_full r"
  shows "ring_list (ring_put m r) = ring_list r @ [m]"
proof -
  have s: "read_idx (ring_put m r) = read_idx r"
    by (simp add: ring_put_def)
  have old: "messages (ring_put m r) ((unat (read_idx r) + i) mod 8192) =
      messages r ((unat (read_idx r) + i) mod 8192)" if "i < ring_len r" for i
    using write_slot_free[OF assms(1) that] by (simp add: ring_put_def)
  have new: "messages (ring_put m r) ((unat (read_idx r) + ring_len r) mod 8192) = m"
    using write_slot_end[OF assms(1)] by (simp add: ring_put_def)
  show ?thesis
    using assms old new by (simp add: ring_list_def ring_len_put s)
qed

lemma ring_len_get:
  assumes "ring_wf r" and "\<not> ring_empty r"
  shows "ring_len r = Suc (ring_len (snd (ring_get r)))"
proof -
  have "ring_len r \<noteq> 0" using assms by (simp add: ring_empty_iff)
  then show ?thesis
    using assms(1) ring_wf_get[OF assms(1)]
    by (auto simp: ring_len_if ring_wf_def ring_get_def unat_ring_next_if split: if_splits)
qed

lemma ring_list_get [ring_rules]:
  assumes "ring_wf r" and "\<not> ring_empty r"
  shows "ring_list r = fst (ring_get r) # ring_list (snd (ring_get r))"
proof -
  have r: "unat (read_idx (snd (ring_get r))) = (unat (read_idx r) + 1) mod 8192"
    and m: "messages (snd (ring_get r)) = messages r"
    using assms by (simp_all add: ring_get_def ring_wf_def unat_ring_next)
  have hd: "fst (ring_get r) = messages r (unat (read_idx r) mod 8192)"
    using assms by (simp add: ring_get_def ring_wf_def)
  have "ring_list r = map (\<lambda>i. messages r ((unat (read_idx r) + i) mod 8192))
      (0 # map Suc [0..<ring_len (snd (ring_get r))])"
    unfolding ring_list_def ring_len_get[OF assms] by (simp add: upt_conv_Cons map_Suc_upt del: upt_Suc)
  then show ?thesis
    by (simp add: hd ring_list_def r m mod_simps comp_def)
qed

lemma ring_wf_init [simp]: "ring_wf (ring_init z)"
  by (simp add: ring_wf_def ring_init_def)

lemma ring_list_init [simp]: "ring_list (ring_init z) = []"
  by (simp add: ring_list_def ring_init_def ring_len_def)

section \<open>The ring is a bounded FIFO channel\<close>

interpretation shm: fifo ring_wf ring_list 8191 ring_try_put ring_try_get
proof unfold_locales
  fix c c' :: "'a shm_ring" and m
  assume wf: "ring_wf c"
  show "ring_try_put m c = None \<longleftrightarrow> length (ring_list c) = 8191"
    using wf by (simp add: ring_try_put_def ring_full_iff)
  show "ring_wf c'" if "ring_try_put m c = Some c'"
    using wf that by (auto simp: ring_try_put_def ring_wf_put split: if_splits)
  show "ring_list c' = ring_list c @ [m]" if "ring_try_put m c = Some c'"
    using wf that by (auto simp: ring_try_put_def ring_list_put split: if_splits)
  show "ring_try_get c = None \<longleftrightarrow> ring_list c = []"
    using wf by (simp add: ring_try_get_def ring_empty_iff ring_list_def)
  show "ring_wf c'" if "ring_try_get c = Some (m, c')"
    using wf that ring_wf_get[of c] by (auto simp: ring_try_get_def split: if_splits)
  show "ring_list c = m # ring_list c'" if "ring_try_get c = Some (m, c')"
    using wf that ring_list_get[of c] by (auto simp: ring_try_get_def split: if_splits)
qed

end
