(* ===== verification/Ring_Interleave.thy ===== *)
theory Ring_Interleave
  imports Ring
begin

text \<open>
  \<open>pdes_comm_send\<close> and \<open>pdes_comm_recv\<close> run in two processes at the same time. Here their
  bodies are split at every access to the shared memory and interleaved freely: the busy loop
  on \<open>read_idx\<close>, the copy of the message into its slot (which is not atomic: while it runs
  the slot may hold anything), the publication of \<open>write_idx\<close>, the reader's test, copy and
  publication of \<open>read_idx\<close>. Memory is sequentially consistent, as \<open>qatomic_set_mb\<close> (a store
  with a full barrier) and the \<open>volatile\<close> indices ask for.
\<close>

section \<open>The sender, one shared access per step\<close>

datatype 'm prod_pc =
    P_Idle
  | P_Check 'm u32     \<comment> \<open>\<open>next_write\<close> computed, at the head of the waiting loop\<close>
  | P_Write 'm u32     \<comment> \<open>space seen, the copy into the slot is running\<close>
  | P_Publish 'm u32   \<comment> \<open>copied, before \<open>qatomic_set_mb(&write_idx, next_write)\<close>\<close>

inductive prod_step ::
  "'m shm_ring \<Rightarrow> 'm prod_pc \<Rightarrow> 'm list \<Rightarrow> 'm shm_ring \<Rightarrow> 'm prod_pc \<Rightarrow> bool" where
  p_call: "prod_step r P_Idle [] r (P_Check m (ring_next (write_idx r)))"
| p_spin: "nw = read_idx r \<Longrightarrow> prod_step r (P_Check m nw) [] r (P_Check m nw)"
| p_space: "nw \<noteq> read_idx r \<Longrightarrow> prod_step r (P_Check m nw) [] r (P_Write m nw)"
| p_tear: "prod_step r (P_Write m nw) []
     (r\<lparr>messages := (messages r)(unat (write_idx r) := g)\<rparr>) (P_Write m nw)"
| p_copy: "prod_step r (P_Write m nw) []
     (r\<lparr>messages := (messages r)(unat (write_idx r) := m)\<rparr>) (P_Publish m nw)"
| p_publish: "prod_step r (P_Publish m nw) [m] (r\<lparr>write_idx := nw\<rparr>) P_Idle"

inductive_cases prod_stepE: "prod_step r pc out r' pc'"

section \<open>The receiver\<close>

datatype 'm cons_pc =
    C_Idle
  | C_Copy             \<comment> \<open>a message was seen, the copy out of the slot is running\<close>
  | C_Advance 'm       \<comment> \<open>copied, before \<open>qatomic_set_mb(&read_idx, ...)\<close>\<close>

inductive cons_step ::
  "'m shm_ring \<Rightarrow> 'm cons_pc \<Rightarrow> 'm list \<Rightarrow> 'm shm_ring \<Rightarrow> 'm cons_pc \<Rightarrow> bool" where
  c_none: "ring_empty r \<Longrightarrow> cons_step r C_Idle [] r C_Idle"
| c_some: "\<not> ring_empty r \<Longrightarrow> cons_step r C_Idle [] r C_Copy"
| c_copy: "cons_step r C_Copy [] r (C_Advance (messages r (unat (read_idx r))))"
| c_advance: "cons_step r (C_Advance m) [m] (r\<lparr>read_idx := ring_next (read_idx r)\<rparr>) C_Idle"

inductive_cases cons_stepE: "cons_step r pc out r' pc'"

section \<open>One sender and one receiver\<close>

text \<open>\<open>sent\<close> and \<open>received\<close> are history: the messages whose call has returned.\<close>

record 'm spsc =
  shm :: "'m shm_ring"
  prod :: "'m prod_pc"
  cons :: "'m cons_pc"
  sent :: "'m list"
  received :: "'m list"

definition spsc_init :: "'m \<Rightarrow> 'm spsc" where
  "spsc_init z = \<lparr>shm = ring_init z, prod = P_Idle, cons = C_Idle, sent = [], received = []\<rparr>"

inductive spsc_step :: "'m spsc \<Rightarrow> 'm spsc \<Rightarrow> bool" where
  producer: "prod_step (shm s) (prod s) out r pc \<Longrightarrow>
     spsc_step s (s\<lparr>shm := r, prod := pc, sent := sent s @ out\<rparr>)"
| consumer: "cons_step (shm s) (cons s) out r pc \<Longrightarrow>
     spsc_step s (s\<lparr>shm := r, cons := pc, received := received s @ out\<rparr>)"

inductive spsc_reach :: "'m \<Rightarrow> 'm spsc \<Rightarrow> bool" for z where
  start: "spsc_reach z (spsc_init z)"
| step: "spsc_reach z s \<Longrightarrow> spsc_step s t \<Longrightarrow> spsc_reach z t"

fun prod_ok :: "'m shm_ring \<Rightarrow> 'm prod_pc \<Rightarrow> bool" where
  "prod_ok r P_Idle = True"
| "prod_ok r (P_Check m nw) = (nw = ring_next (write_idx r))"
| "prod_ok r (P_Write m nw) = (nw = ring_next (write_idx r) \<and> \<not> ring_full r)"
| "prod_ok r (P_Publish m nw) =
     (nw = ring_next (write_idx r) \<and> \<not> ring_full r \<and> messages r (unat (write_idx r)) = m)"

fun cons_ok :: "'m shm_ring \<Rightarrow> 'm cons_pc \<Rightarrow> bool" where
  "cons_ok r C_Idle = True"
| "cons_ok r C_Copy = (\<not> ring_empty r)"
| "cons_ok r (C_Advance m) = (\<not> ring_empty r \<and> messages r (unat (read_idx r)) = m)"

definition spsc_inv :: "'m spsc \<Rightarrow> bool" where
  "spsc_inv s \<longleftrightarrow> ring_wf (shm s) \<and> prod_ok (shm s) (prod s) \<and> cons_ok (shm s) (cons s) \<and>
     sent s = received s @ ring_list (shm s)"

lemma spsc_inv_init: "spsc_inv (spsc_init z)"
  by (simp add: spsc_inv_def spsc_init_def)

text \<open>Writing the free slot changes neither the queued elements nor the indices.\<close>

lemma ring_list_write_slot:
  assumes "ring_wf r"
  shows "ring_list (r\<lparr>messages := (messages r)(unat (write_idx r) := g)\<rparr>) = ring_list r"
  using write_slot_free[OF assms] by (simp add: ring_list_def ring_len_def)

lemma ring_put_split:
  "messages r (unat (write_idx r)) = m \<Longrightarrow> ring_put m r = r\<lparr>write_idx := ring_next (write_idx r)\<rparr>"
  by (auto simp: ring_put_def)

lemma read_slot_ne_write_slot:
  assumes "ring_wf r" and "\<not> ring_empty r"
  shows "unat (read_idx r) \<noteq> unat (write_idx r)"
  using assms by (simp add: ring_empty_def word_unat_eq_iff)

lemma not_full_after_get:
  assumes "ring_wf r" and "\<not> ring_empty r"
  shows "\<not> ring_full (r\<lparr>read_idx := ring_next (read_idx r)\<rparr>)"
proof -
  have "r\<lparr>read_idx := ring_next (read_idx r)\<rparr> = snd (ring_get r)"
    by (simp add: ring_get_def)
  moreover have "ring_len (snd (ring_get r)) < 8191"
    using ring_len_get[OF assms] ring_len_bound[OF assms(1)] by simp
  ultimately show ?thesis
    using ring_full_iff[OF ring_wf_get[OF assms(1)]] by simp
qed

lemma not_empty_after_put:
  assumes "ring_wf r" and "\<not> ring_full r"
  shows "\<not> ring_empty (r\<lparr>write_idx := ring_next (write_idx r)\<rparr>)"
  using assms unfolding ring_empty_def ring_full_def by auto

lemma prod_step_inv:
  assumes "prod_step r pc out r' pc'" and "ring_wf r" and "prod_ok r pc" and "cons_ok r c"
  shows "ring_wf r' \<and> prod_ok r' pc' \<and> cons_ok r' c \<and> ring_list r' = ring_list r @ out"
  using assms
proof (cases rule: prod_step.cases)
  case (p_space nw m)
  with assms show ?thesis by (auto simp: ring_full_def)
next
  case (p_tear m nw g)
  have "cons_ok r' c" using assms(2,4) p_tear read_slot_ne_write_slot[OF assms(2)]
    by (cases c) (auto simp: ring_empty_def)
  with assms p_tear show ?thesis
    by (simp add: ring_list_write_slot ring_wf_def ring_full_def)
next
  case (p_copy m nw)
  have "cons_ok r' c" using assms(2,4) p_copy read_slot_ne_write_slot[OF assms(2)]
    by (cases c) (auto simp: ring_empty_def)
  with assms p_copy show ?thesis
    by (simp add: ring_list_write_slot ring_wf_def ring_full_def)
next
  case (p_publish m nw)
  with assms have f: "\<not> ring_full r" and r': "r' = ring_put m r"
    by (simp_all add: ring_put_split)
  have "cons_ok r' c" using assms(2,4) p_publish f not_empty_after_put[OF assms(2) f]
      assms(3) by (cases c) auto
  with assms f r' p_publish show ?thesis
    by (simp add: ring_list_put ring_wf_put)
qed auto

lemma cons_step_inv:
  assumes "cons_step r pc out r' pc'" and "ring_wf r" and "cons_ok r pc" and "prod_ok r p"
  shows "ring_wf r' \<and> cons_ok r' pc' \<and> prod_ok r' p \<and> ring_list r = out @ ring_list r'"
  using assms
proof (cases rule: cons_step.cases)
  case (c_advance m)
  with assms have e: "\<not> ring_empty r" and g: "ring_get r = (m, r')"
    by (simp_all add: ring_get_def)
  have "\<not> ring_full r'" using c_advance not_full_after_get[OF assms(2) e] by simp
  then have "prod_ok r' p" using assms(4) c_advance by (cases p) auto
  with g e assms c_advance show ?thesis
    using ring_list_get[OF assms(2) e] ring_wf_get[OF assms(2)] by simp
qed auto

lemma spsc_step_inv: "spsc_step s t \<Longrightarrow> spsc_inv s \<Longrightarrow> spsc_inv t"
  by (induction rule: spsc_step.induct)
    (auto simp: spsc_inv_def dest!: prod_step_inv cons_step_inv)

lemma spsc_reach_inv: "spsc_reach z s \<Longrightarrow> spsc_inv s"
  by (induction rule: spsc_reach.induct) (auto intro: spsc_inv_init spsc_step_inv)

section \<open>A concrete interleaving\<close>

text \<open>A message is sent and received, the receiver's copy overlapping the next call.\<close>

definition spsc_demo :: "nat spsc" where
  "spsc_demo = \<lparr>shm = \<lparr>write_idx = 1, read_idx = 0, messages = (\<lambda>_. 0)(0 := 7)\<rparr>,
     prod = P_Write 8 2, cons = C_Copy, sent = [7], received = []\<rparr>"

lemma spsc_demo_reach: "spsc_reach 0 spsc_demo"
proof -
  let ?r = "ring_init (0 :: nat)"
  let ?r1 = "?r\<lparr>messages := (messages ?r)(unat (write_idx ?r) := 7)\<rparr>"
  let ?r2 = "?r1\<lparr>write_idx := 1\<rparr>"
  let ?s = "spsc_init (0 :: nat)"
  have n: "ring_next 0 = 1" "ring_next 1 = 2"
    by (simp_all add: ring_next_def RING_SIZE_def)
  have s1: "spsc_reach 0 (?s\<lparr>shm := ?r, prod := P_Check 7 1, sent := [] @ []\<rparr>)" (is "spsc_reach 0 ?s1")
    using spsc_step.producer[of ?s "[]" ?r "P_Check 7 1"] spsc_reach.start[of 0]
      prod_step.p_call[of ?r 7]
    by (auto intro: spsc_reach.step simp: spsc_init_def ring_init_def n)
  have s2: "spsc_reach 0 (?s1\<lparr>shm := ?r, prod := P_Write 7 1, sent := [] @ []\<rparr>)" (is "spsc_reach 0 ?s2")
    using spsc_step.producer[of ?s1 "[]" ?r "P_Write 7 1"] s1 prod_step.p_space[of 1 ?r 7]
    by (auto intro: spsc_reach.step simp: ring_init_def)
  have s3: "spsc_reach 0 (?s2\<lparr>shm := ?r1, prod := P_Publish 7 1, sent := [] @ []\<rparr>)" (is "spsc_reach 0 ?s3")
    using spsc_step.producer[of ?s2 "[]" ?r1 "P_Publish 7 1"] s2 prod_step.p_copy[of ?r 7 1]
    by (auto intro: spsc_reach.step)
  have s4: "spsc_reach 0 (?s3\<lparr>shm := ?r2, prod := P_Idle, sent := [] @ [7]\<rparr>)" (is "spsc_reach 0 ?s4")
    using spsc_step.producer[of ?s3 "[7]" ?r2 P_Idle] s3 prod_step.p_publish[of ?r1 7 1]
    by (auto intro: spsc_reach.step)
  have s5: "spsc_reach 0 (?s4\<lparr>shm := ?r2, cons := C_Copy, received := [] @ []\<rparr>)" (is "spsc_reach 0 ?s5")
    using spsc_step.consumer[of ?s4 "[]" ?r2 C_Copy] s4 cons_step.c_some[of ?r2]
    by (auto intro: spsc_reach.step simp: ring_empty_def spsc_init_def ring_init_def)
  have s6: "spsc_reach 0 (?s5\<lparr>shm := ?r2, prod := P_Check 8 2, sent := [7] @ []\<rparr>)" (is "spsc_reach 0 ?s6")
    using spsc_step.producer[of ?s5 "[]" ?r2 "P_Check 8 2"] s5 prod_step.p_call[of ?r2 8]
    by (auto intro: spsc_reach.step simp: n)
  have "spsc_reach 0 (?s6\<lparr>shm := ?r2, prod := P_Write 8 2, sent := [7] @ []\<rparr>)"
    using spsc_step.producer[of ?s6 "[]" ?r2 "P_Write 8 2"] s6 prod_step.p_space[of 2 ?r2 8]
    by (auto intro: spsc_reach.step simp: ring_init_def)
  then show ?thesis by (simp add: spsc_demo_def spsc_init_def ring_init_def)
qed

text \<open>
  C13. In every interleaving of one sender with one receiver, the messages received are the
  oldest messages sent, in order, and what is in between is exactly the ring's contents: the
  ring neither loses, duplicates, reorders nor tears a message.
\<close>

theorem spsc_linear:
  assumes "spsc_reach z s"
  shows "sent s = received s @ ring_list (shm s) \<and> length (ring_list (shm s)) \<le> 8191"
  using spsc_reach_inv[OF assms] by (simp add: spsc_inv_def ring_len_bound)

theorem spsc_linear_witness:
  "sent spsc_demo = received spsc_demo @ ring_list (shm spsc_demo) \<and>
    length (ring_list (shm spsc_demo)) \<le> 8191"
  by (rule spsc_linear[OF spsc_demo_reach])

text \<open>
  C24. While the sender is copying a message into its slot and the receiver is copying one out,
  the two slots differ, and the slot being read holds the message that was published.
\<close>

theorem spsc_slots_disjoint:
  assumes "spsc_reach z s" and "prod s = P_Write m nw" and "cons s = C_Copy"
  shows "unat (write_idx (shm s)) \<noteq> unat (read_idx (shm s)) \<and>
    messages (shm s) (unat (read_idx (shm s))) = hd (ring_list (shm s))"
proof -
  from assms spsc_reach_inv[OF assms(1)] have w: "ring_wf (shm s)" and e: "\<not> ring_empty (shm s)"
    by (auto simp: spsc_inv_def)
  then show ?thesis
    using read_slot_ne_write_slot[OF w e] ring_list_get[OF w e] by (simp add: ring_get_def)
qed

theorem spsc_slots_disjoint_witness:
  "unat (write_idx (shm spsc_demo)) \<noteq> unat (read_idx (shm spsc_demo)) \<and>
    messages (shm spsc_demo) (unat (read_idx (shm spsc_demo))) = hd (ring_list (shm spsc_demo))"
  by (rule spsc_slots_disjoint[OF spsc_demo_reach, of 8 2]) (simp_all add: spsc_demo_def)

section \<open>Two sending threads\<close>

text \<open>
  In one QEMU process the main thread (sync and packets) and the Flexus thread (\<open>can_stop\<close>)
  both call \<open>pdes_comm_send\<close> on the same ring, with no lock.
\<close>

record 'm two_prod =
  tshm :: "'m shm_ring"
  prod1 :: "'m prod_pc"
  prod2 :: "'m prod_pc"
  tsent :: "'m list"

inductive two_prod_reach :: "'m \<Rightarrow> 'm two_prod \<Rightarrow> bool" for z where
  tstart: "two_prod_reach z \<lparr>tshm = ring_init z, prod1 = P_Idle, prod2 = P_Idle, tsent = []\<rparr>"
| tstep1: "two_prod_reach z s \<Longrightarrow> prod_step (tshm s) (prod1 s) out r pc \<Longrightarrow>
     two_prod_reach z (s\<lparr>tshm := r, prod1 := pc, tsent := tsent s @ out\<rparr>)"
| tstep2: "two_prod_reach z s \<Longrightarrow> prod_step (tshm s) (prod2 s) out r pc \<Longrightarrow>
     two_prod_reach z (s\<lparr>tshm := r, prod2 := pc, tsent := tsent s @ out\<rparr>)"

lemma two_prod_first:
  "two_prod_reach z \<lparr>tshm = r, prod1 = p, prod2 = q, tsent = l\<rparr> \<Longrightarrow> prod_step r p out r' p' \<Longrightarrow>
    l' = l @ out \<Longrightarrow> two_prod_reach z \<lparr>tshm = r', prod1 = p', prod2 = q, tsent = l'\<rparr>"
  by (drule two_prod_reach.tstep1[of _ _ out r' p']) simp_all

lemma two_prod_second:
  "two_prod_reach z \<lparr>tshm = r, prod1 = p, prod2 = q, tsent = l\<rparr> \<Longrightarrow> prod_step r q out r' q' \<Longrightarrow>
    l' = l @ out \<Longrightarrow> two_prod_reach z \<lparr>tshm = r', prod1 = p, prod2 = q', tsent = l'\<rparr>"
  by (drule two_prod_reach.tstep2[of _ _ out r' q']) simp_all

text \<open>Both threads compute the same \<open>next_write\<close>, see space, fill the same slot and publish.\<close>

lemma two_senders_race:
  fixes z m1 m2 :: 'm
  defines "r1 \<equiv> (ring_init z)\<lparr>messages := (\<lambda>_. z)(0 := m1)\<rparr>"
  defines "r2 \<equiv> r1\<lparr>messages := (\<lambda>_. z)(0 := m2)\<rparr>"
  shows "two_prod_reach z
    \<lparr>tshm = r2\<lparr>write_idx := 1\<rparr>, prod1 = P_Idle, prod2 = P_Idle, tsent = [m1, m2]\<rparr>"
proof -
  let ?r = "ring_init z"
  have n: "ring_next 0 = 1" by (simp add: ring_next_def RING_SIZE_def)
  have s1: "prod_step ?r P_Idle [] ?r (P_Check m 1)" for m
    using prod_step.p_call[of ?r m] by (simp add: ring_init_def n)
  have s2: "prod_step ?r (P_Check m 1) [] ?r (P_Write m 1)" for m
    by (rule prod_step.p_space) (simp add: ring_init_def)
  have s3: "prod_step ?r (P_Write m1 1) [] r1 (P_Publish m1 1)"
    using prod_step.p_copy[of ?r m1 1] by (simp add: r1_def ring_init_def)
  have s4: "prod_step r1 (P_Write m2 1) [] r2 (P_Publish m2 1)"
    using prod_step.p_copy[of r1 m2 1] by (simp add: r1_def r2_def ring_init_def)
  have s5: "prod_step r2 (P_Publish m1 1) [m1] (r2\<lparr>write_idx := 1\<rparr>) P_Idle"
    by (rule prod_step.p_publish)
  have s6: "prod_step (r2\<lparr>write_idx := 1\<rparr>) (P_Publish m2 1) [m2] (r2\<lparr>write_idx := 1\<rparr>) P_Idle"
    using prod_step.p_publish[of "r2\<lparr>write_idx := 1\<rparr>" m2 1] by simp
  note a = two_prod_second[OF two_prod_first[OF two_prod_reach.tstart s1 refl] s1 refl]
  note b = two_prod_second[OF two_prod_first[OF a s2 refl] s2 refl]
  note c = two_prod_second[OF two_prod_first[OF b s3 refl] s4 refl]
  show ?thesis
    using two_prod_second[OF two_prod_first[OF c s5 refl] s6 refl] by simp
qed

text \<open>
  C20. Two threads sending on one ring can lose a message: there is an interleaving after which
  both calls have returned (both messages counted as sent) and the ring holds only one of them.
\<close>

theorem two_senders_lose_message:
  "\<exists>s. two_prod_reach (0 :: nat) s \<and> prod1 s = P_Idle \<and> prod2 s = P_Idle \<and>
     tsent s = [1, 2] \<and> ring_list (tshm s) = [2]"
proof -
  let ?s = "\<lparr>tshm = \<lparr>write_idx = 1, read_idx = 0, messages = (\<lambda>_. 0 :: nat)(0 := 2)\<rparr>,
    prod1 = P_Idle, prod2 = P_Idle, tsent = [1, 2]\<rparr>"
  have "two_prod_reach 0 ?s"
    using two_senders_race[where z = "0 :: nat" and ?m1.0 = 1 and ?m2.0 = 2] by (simp add: ring_init_def)
  moreover have "ring_list (tshm ?s) = [2]"
    by (simp add: ring_list_def ring_len_def)
  ultimately show ?thesis by (intro exI[of _ ?s]) simp
qed

end
