(* ===== verification/Ring_Creation.thy ===== *)
theory Ring_Creation
  imports Ring_Interleave
begin

text \<open>
  Two processes run \<open>pdes_comm_init_ring\<close> on the same shared-memory name at the same time, and
  use the ring as soon as their own call has returned (the wait for the creator's initialisation
  is commented out). Each system call is a step; the creator's \<open>memset\<close> clears the indices and the
  slots in any order and any number of steps, each of them whole (clearing byte by byte differs
  only for a ring that is in use already); sending and receiving are split as in
  \<open>Ring_Interleave\<close>. All calls succeed here; the failures are in \<open>Communicator\<close>.
\<close>

section \<open>The steps of the two calls\<close>

text \<open>The segment: absent, or present with a size set or not; a fresh one reads as zeros.\<close>

record 'm segment =
  seg_exists :: bool
  seg_sized :: bool
  seg_ring :: "'m shm_ring"

text \<open>
  Where a call stands; a boolean argument is \<open>is_creator\<close>. While \<open>memset\<close> runs it is known which
  of \<open>write_idx\<close> and \<open>read_idx\<close> and which slots it has cleared.
\<close>

datatype init_pc =
    Open_Exclusive
  | Open_Existing
  | Set_Size
  | Map_Ring bool
  | Mapped bool
  | Clearing bool bool "nat set"
  | Ring_Ready bool

inductive init_step :: "'m \<Rightarrow> 'm segment \<Rightarrow> init_pc \<Rightarrow> 'm segment \<Rightarrow> init_pc \<Rightarrow> bool" for z where
  create: "\<not> seg_exists g \<Longrightarrow> init_step z g Open_Exclusive
     \<lparr>seg_exists = True, seg_sized = False, seg_ring = ring_init z\<rparr> Set_Size"
| exists: "seg_exists g \<Longrightarrow> init_step z g Open_Exclusive g Open_Existing"
| reopen: "init_step z g Open_Existing g (Map_Ring False)"
| truncate: "init_step z g Set_Size (g\<lparr>seg_sized := True\<rparr>) (Map_Ring True)"
| mmap: "init_step z g (Map_Ring c) g (Mapped c)"
| memset: "init_step z g (Mapped True) g (Clearing False False {})"
| clear_write: "init_step z g (Clearing w r ks)
     (g\<lparr>seg_ring := (seg_ring g)\<lparr>write_idx := 0\<rparr>\<rparr>) (Clearing True r ks)"
| clear_read: "init_step z g (Clearing w r ks)
     (g\<lparr>seg_ring := (seg_ring g)\<lparr>read_idx := 0\<rparr>\<rparr>) (Clearing w True ks)"
| clear_slots: "init_step z g (Clearing w r ks)
     (g\<lparr>seg_ring := (seg_ring g)\<lparr>messages := (\<lambda>i. if i \<in> ls then z else messages (seg_ring g) i)\<rparr>\<rparr>)
     (Clearing w r (ks \<union> ls))"
| cleared: "{..<8192} \<subseteq> ks \<Longrightarrow> init_step z g (Clearing True True ks) g (Ring_Ready True)"
| opened: "init_step z g (Mapped False) g (Ring_Ready False)"

fun creates :: "init_pc \<Rightarrow> bool" where
  "creates Set_Size = True"
| "creates (Map_Ring c) = c"
| "creates (Mapped c) = c"
| "creates (Clearing _ _ _) = True"
| "creates (Ring_Ready c) = c"
| "creates _ = False"

fun ready :: "init_pc \<Rightarrow> bool" where
  "ready (Ring_Ready _) = True"
| "ready _ = False"

text \<open>
  The sender and the receiver of the ring: their calls of \<open>pdes_comm_init_ring\<close>, then of
  \<open>pdes_comm_send\<close> and \<open>pdes_comm_recv\<close>, and as history the messages of the calls that have
  returned. \<open>early\<close> notes that a send began before the receiver had cleared the ring it created.
  An access to a segment without size raises SIGBUS, so it is no step.
\<close>

record 'm meeting =
  seg :: "'m segment"
  sender :: init_pc
  receiver :: init_pc
  sending :: "'m prod_pc"
  receiving :: "'m cons_pc"
  was_sent :: "'m list"
  was_received :: "'m list"
  early :: bool

inductive meeting_step :: "'m \<Rightarrow> 'm meeting \<Rightarrow> 'm meeting \<Rightarrow> bool" for z where
  sender: "init_step z (seg s) (sender s) g p \<Longrightarrow> meeting_step z s (s\<lparr>seg := g, sender := p\<rparr>)"
| receiver: "init_step z (seg s) (receiver s) g p \<Longrightarrow> meeting_step z s (s\<lparr>seg := g, receiver := p\<rparr>)"
| send: "ready (sender s) \<Longrightarrow> seg_sized (seg s) \<Longrightarrow> prod_step (seg_ring (seg s)) (sending s) out r pc \<Longrightarrow>
    meeting_step z s (s\<lparr>seg := (seg s)\<lparr>seg_ring := r\<rparr>, sending := pc, was_sent := was_sent s @ out,
      early := early s \<or> sending s = P_Idle \<and> creates (receiver s) \<and> \<not> ready (receiver s)\<rparr>)"
| recv: "ready (receiver s) \<Longrightarrow> seg_sized (seg s) \<Longrightarrow> cons_step (seg_ring (seg s)) (receiving s) out r pc \<Longrightarrow>
    meeting_step z s (s\<lparr>seg := (seg s)\<lparr>seg_ring := r\<rparr>, receiving := pc,
      was_received := was_received s @ out\<rparr>)"

definition meeting_init :: "'m \<Rightarrow> 'm meeting" where
  "meeting_init z = \<lparr>seg = \<lparr>seg_exists = False, seg_sized = False, seg_ring = ring_init z\<rparr>,
     sender = Open_Exclusive, receiver = Open_Exclusive, sending = P_Idle, receiving = C_Idle,
     was_sent = [], was_received = [], early = False\<rparr>"

abbreviation meeting_reach :: "'m \<Rightarrow> 'm meeting \<Rightarrow> bool" where
  "meeting_reach z s \<equiv> (meeting_step z)\<^sup>*\<^sup>* (meeting_init z) s"

section \<open>Who creates the ring\<close>

text \<open>Exactly one of the two creates it, and who is not ready has not used it.\<close>

definition roles_ok :: "'m meeting \<Rightarrow> bool" where
  "roles_ok s \<longleftrightarrow>
     (seg_exists (seg s) \<longleftrightarrow> creates (sender s) \<or> creates (receiver s)) \<and>
     \<not> (creates (sender s) \<and> creates (receiver s)) \<and>
     (\<not> seg_exists (seg s) \<longrightarrow> sender s = Open_Exclusive \<and> receiver s = Open_Exclusive) \<and>
     (\<not> ready (sender s) \<longrightarrow> sending s = P_Idle) \<and>
     (\<not> ready (receiver s) \<longrightarrow> receiving s = C_Idle) \<and>
     (early s \<longrightarrow> creates (receiver s))"

lemma init_step_roles:
  assumes "init_step z g p g' p'"
  shows "\<not> ready p" and "seg_exists g' \<longleftrightarrow> seg_exists g \<or> p = Open_Exclusive"
    and "creates p' \<longleftrightarrow> creates p \<or> p = Open_Exclusive \<and> \<not> seg_exists g"
  using assms by (induction rule: init_step.induct) simp_all

lemma roles_step:
  assumes "meeting_step z s t" and "roles_ok s"
  shows "roles_ok t"
  using assms(1)
proof cases
  case (sender g p)
  note i = init_step_roles[OF sender(2)]
  have n: "creates (sender s) \<longrightarrow> sender s \<noteq> Open_Exclusive" by auto
  have t: "seg t = g" "sender t = p" "receiver t = receiver s" "sending t = sending s"
    "receiving t = receiving s" "early t = early s"
    by (simp_all add: sender(1))
  show ?thesis using assms(2) i n unfolding roles_ok_def t by argo
next
  case (receiver g p)
  note i = init_step_roles[OF receiver(2)]
  have n: "creates (receiver s) \<longrightarrow> receiver s \<noteq> Open_Exclusive" by auto
  have t: "seg t = g" "receiver t = p" "sender t = sender s" "sending t = sending s"
    "receiving t = receiving s" "early t = early s"
    by (simp_all add: receiver(1))
  show ?thesis using assms(2) i n unfolding roles_ok_def t by argo
next
  case (send out r pc)
  have t: "seg_exists (seg t) = seg_exists (seg s)" "sender t = sender s" "receiver t = receiver s"
    "receiving t = receiving s" "early t \<longrightarrow> early s \<or> creates (receiver s)"
    by (simp_all add: send(1))
  show ?thesis using assms(2) send(2) t(5) unfolding roles_ok_def t(1-4) by argo
next
  case (recv out r pc)
  have t: "seg_exists (seg t) = seg_exists (seg s)" "sender t = sender s" "receiver t = receiver s"
    "sending t = sending s" "early t = early s"
    by (simp_all add: recv(1))
  show ?thesis using assms(2) recv(2) unfolding roles_ok_def t by argo
qed

section \<open>The ring as a channel\<close>

text \<open>Before the creator is ready the ring is untouched, and afterwards it is a FIFO channel.\<close>

definition untouched :: "'m \<Rightarrow> 'm meeting \<Rightarrow> bool" where
  "untouched z s \<longleftrightarrow> seg_ring (seg s) = ring_init z \<and> sending s = P_Idle \<and> receiving s = C_Idle \<and>
     was_sent s = [] \<and> was_received s = []"

definition creator_ready :: "'m meeting \<Rightarrow> bool" where
  "creator_ready s \<longleftrightarrow> creates (sender s) \<and> ready (sender s) \<or> creates (receiver s) \<and> ready (receiver s)"

definition as_spsc :: "'m meeting \<Rightarrow> 'm spsc" where
  "as_spsc s = \<lparr>shm = seg_ring (seg s), prod = sending s, cons = receiving s, sent = was_sent s,
     received = was_received s\<rparr>"

definition channel_ok :: "'m \<Rightarrow> 'm meeting \<Rightarrow> bool" where
  "channel_ok z s \<longleftrightarrow> early s \<or> (untouched z s \<or> creator_ready s) \<and> spsc_inv (as_spsc s)"

lemma untouched_spsc: "untouched z s \<Longrightarrow> spsc_inv (as_spsc s)"
  using spsc_inv_init[of z] by (simp add: untouched_def as_spsc_def spsc_init_def)

text \<open>The creator's steps leave a zero ring as it is, those of the other process any ring.\<close>

lemma init_step_ring:
  assumes "init_step z g p g' p'"
  shows "seg_ring g = ring_init z \<Longrightarrow> seg_ring g' = ring_init z"
    and "\<not> creates p' \<Longrightarrow> seg_ring g' = seg_ring g"
  using assms by (induction rule: init_step.induct) (auto simp: ring_init_def)

lemma empty_ring_init: "ring_empty (ring_init z)"
  by (simp add: ring_empty_def ring_init_def)

lemma channel_step:
  assumes "meeting_step z s t" and "roles_ok s" and ok: "channel_ok z s"
  shows "channel_ok z t"
  using assms(1)
proof cases
  case (sender g p)
  note i = init_step_roles[OF sender(2)] and r = init_step_ring[OF sender(2)]
  have "untouched z t \<or> creator_ready t \<and> as_spsc t = as_spsc s" if "\<not> early s"
  proof (cases "untouched z s")
    case True
    then show ?thesis using r(1) by (simp add: sender(1) untouched_def)
  next
    case False
    then have c: "creates (receiver s)" "ready (receiver s)"
      using ok that i(1) by (auto simp: channel_ok_def creator_ready_def)
    then have "\<not> creates p" using assms(2) i(3) by (auto simp: roles_ok_def)
    then show ?thesis using c r(2) by (simp add: sender(1) creator_ready_def as_spsc_def)
  qed
  then show ?thesis using ok untouched_spsc[of z t] by (auto simp: channel_ok_def sender(1))
next
  case (receiver g p)
  note i = init_step_roles[OF receiver(2)] and r = init_step_ring[OF receiver(2)]
  have "untouched z t \<or> creator_ready t \<and> as_spsc t = as_spsc s" if "\<not> early s"
  proof (cases "untouched z s")
    case True
    then show ?thesis using r(1) by (simp add: receiver(1) untouched_def)
  next
    case False
    then have c: "creates (sender s)" "ready (sender s)"
      using ok that i(1) by (auto simp: channel_ok_def creator_ready_def)
    then have "\<not> creates p" using assms(2) i(3) by (auto simp: roles_ok_def)
    then show ?thesis using c r(2) by (simp add: receiver(1) creator_ready_def as_spsc_def)
  qed
  then show ?thesis using ok untouched_spsc[of z t] by (auto simp: channel_ok_def receiver(1))
next
  case (send out r pc)
  show ?thesis
  proof (cases "early t")
    case False
    then have e: "\<not> early s" "\<not> (sending s = P_Idle \<and> creates (receiver s) \<and> \<not> ready (receiver s))"
      by (simp_all add: send(1))
    have "creates (sender s) \<or> creates (receiver s)"
      using assms(2) send(2) by (cases "sender s") (auto simp: roles_ok_def)
    then have "creator_ready s"
      using ok e send(2) by (auto simp: channel_ok_def creator_ready_def untouched_def)
    moreover have "spsc_step (as_spsc s) (as_spsc t)"
      using spsc_step.producer[of "as_spsc s" out r pc] send(4) by (simp add: as_spsc_def send(1))
    ultimately show ?thesis
      using ok e(1) spsc_step_inv by (auto simp: channel_ok_def creator_ready_def send(1))
  qed (simp add: channel_ok_def)
next
  case (recv out r pc)
  show ?thesis
  proof (cases "early s")
    case False
    have s: "spsc_step (as_spsc s) (as_spsc t)"
      using spsc_step.consumer[of "as_spsc s" out r pc] recv(4) by (simp add: as_spsc_def recv(1))
    have u: "untouched z t" if "untouched z s"
      using recv(4) that empty_ring_init[of z]
      by (auto simp: untouched_def recv(1) elim!: cons_stepE)
    show ?thesis
      using ok False s spsc_step_inv u by (auto simp: channel_ok_def creator_ready_def recv(1))
  qed (simp add: channel_ok_def recv(1))
qed

lemma meeting_reach_ok: "meeting_reach z s \<Longrightarrow> roles_ok s \<and> channel_ok z s"
proof (induction rule: rtranclp_induct)
  case base
  have "untouched z (meeting_init z)" by (simp add: untouched_def meeting_init_def)
  then show ?case using untouched_spsc by (auto simp: roles_ok_def channel_ok_def meeting_init_def)
next
  case (step s t)
  from step.IH roles_step[OF step.hyps(2)] channel_step[OF step.hyps(2)] show ?case by blast
qed

section \<open>When messages get lost\<close>

text \<open>
  C28. However the two calls interleave with each other and with the first messages, the ring is a FIFO
  channel from its first message on when the sender created it, and also when the receiver did, if
  no send began before the creator had cleared it.
\<close>

theorem ring_creation_keeps_messages:
  assumes "meeting_reach z s" and "creates (sender s) \<or> \<not> early s"
  shows "was_sent s = was_received s @ ring_list (seg_ring (seg s)) \<and>
    length (ring_list (seg_ring (seg s))) \<le> 8191"
proof -
  have "\<not> early s" using meeting_reach_ok[OF assms(1)] assms(2) unfolding roles_ok_def by blast
  then have "spsc_inv (as_spsc s)" using meeting_reach_ok[OF assms(1)] by (simp add: channel_ok_def)
  then show ?thesis by (simp add: spsc_inv_def as_spsc_def ring_len_bound)
qed

text \<open>The sender opens the segment that the receiver creates.\<close>

definition demo_meeting ::
  "bool \<Rightarrow> 'm shm_ring \<Rightarrow> init_pc \<Rightarrow> init_pc \<Rightarrow> 'm prod_pc \<Rightarrow> 'm list \<Rightarrow> bool \<Rightarrow> 'm meeting" where
  "demo_meeting sized r p q pc ms e = \<lparr>seg = \<lparr>seg_exists = True, seg_sized = sized, seg_ring = r\<rparr>,
     sender = p, receiver = q, sending = pc, receiving = C_Idle, was_sent = ms, was_received = [],
     early = e\<rparr>"

lemma demo_meeting_fields [simp]:
  "seg (demo_meeting z r p q pc ms e) = \<lparr>seg_exists = True, seg_sized = z, seg_ring = r\<rparr>"
  "sender (demo_meeting z r p q pc ms e) = p" "receiver (demo_meeting z r p q pc ms e) = q"
  "was_sent (demo_meeting z r p q pc ms e) = ms" "was_received (demo_meeting z r p q pc ms e) = []"
  "early (demo_meeting z r p q pc ms e) = e"
  by (simp_all add: demo_meeting_def)

lemma demo_meeting_sender:
  assumes "meeting_reach z (demo_meeting b r p q pc ms e)"
    and "init_step z \<lparr>seg_exists = True, seg_sized = b, seg_ring = r\<rparr> p
      \<lparr>seg_exists = True, seg_sized = b', seg_ring = r'\<rparr> p'"
  shows "meeting_reach z (demo_meeting b' r' p' q pc ms e)"
  by (rule rtranclp.rtrancl_into_rtrancl[OF assms(1)])
    (use meeting_step.sender[of z "demo_meeting b r p q pc ms e"] assms(2) in \<open>simp add: demo_meeting_def\<close>)

lemma demo_meeting_receiver:
  assumes "meeting_reach z (demo_meeting b r p q pc ms e)"
    and "init_step z \<lparr>seg_exists = True, seg_sized = b, seg_ring = r\<rparr> q
      \<lparr>seg_exists = True, seg_sized = b', seg_ring = r'\<rparr> q'"
  shows "meeting_reach z (demo_meeting b' r' p q' pc ms e)"
  by (rule rtranclp.rtrancl_into_rtrancl[OF assms(1)])
    (use meeting_step.receiver[of z "demo_meeting b r p q pc ms e"] assms(2) in \<open>simp add: demo_meeting_def\<close>)

lemma demo_meeting_send:
  assumes "meeting_reach z (demo_meeting True r (Ring_Ready c) q pc ms e)"
    and "prod_step r pc out r' pc'"
  shows "meeting_reach z (demo_meeting True r' (Ring_Ready c) q pc' (ms @ out)
    (e \<or> pc = P_Idle \<and> creates q \<and> \<not> ready q))"
  by (rule rtranclp.rtrancl_into_rtrancl[OF assms(1)])
    (use meeting_step.send[of "demo_meeting True r (Ring_Ready c) q pc ms e" out r' pc' z] assms(2)
      in \<open>simp add: demo_meeting_def\<close>)

text \<open>The creator clears the whole ring while the sender stands where it is.\<close>

lemma demo_meeting_memset:
  assumes "meeting_reach z (demo_meeting b r p (Mapped True) pc ms e)"
    and "\<And>i. 8192 \<le> i \<Longrightarrow> messages r i = z"
  shows "meeting_reach z (demo_meeting b (ring_init z) p (Ring_Ready True) pc ms e)"
proof -
  let ?g = "\<lambda>r. \<lparr>seg_exists = True, seg_sized = b, seg_ring = r\<rparr>"
  let ?w = "r\<lparr>write_idx := 0\<rparr>" and ?z = "\<lambda>i. if i \<in> {..<8192} then z else messages r i"
  let ?i = "?w\<lparr>read_idx := 0\<rparr>"
  have s1: "meeting_reach z (demo_meeting b r p (Clearing False False {}) pc ms e)"
    by (rule demo_meeting_receiver[OF assms(1) init_step.memset])
  have "init_step z (?g r) (Clearing False False {}) (?g ?w) (Clearing True False {})"
    using init_step.clear_write[of z "?g r" False False "{}"] by simp
  note s2 = demo_meeting_receiver[OF s1 this]
  have "init_step z (?g ?w) (Clearing True False {}) (?g ?i) (Clearing True True {})"
    using init_step.clear_read[of z "?g ?w" True False "{}"] by simp
  note s3 = demo_meeting_receiver[OF s2 this]
  have "init_step z (?g ?i) (Clearing True True {}) (?g (?i\<lparr>messages := ?z\<rparr>)) (Clearing True True {..<8192})"
    using init_step.clear_slots[of z "?g ?i" True True "{}" "{..<8192}"] by (simp cong: if_cong)
  note s4 = demo_meeting_receiver[OF s3 this]
  have "meeting_reach z (demo_meeting b (?i\<lparr>messages := ?z\<rparr>) p (Ring_Ready True) pc ms e)"
    by (rule demo_meeting_receiver[OF s4 init_step.cleared]) simp
  moreover have "?z = (\<lambda>_. z)" using assms(2) by (auto simp: fun_eq_iff)
  then have "?i\<lparr>messages := ?z\<rparr> = ring_init z" by (simp add: ring_init_def)
  ultimately show ?thesis by simp
qed

lemma early_opener:
  "meeting_reach z (demo_meeting False (ring_init z) (Ring_Ready False) Set_Size P_Idle [] False)"
proof -
  have "meeting_step z (meeting_init z) (demo_meeting False (ring_init z) Open_Exclusive Set_Size P_Idle [] False)"
    using meeting_step.receiver[of z "meeting_init z"] init_step.create[of "seg (meeting_init z)" z]
    by (simp add: meeting_init_def demo_meeting_def)
  then have s0: "meeting_reach z (demo_meeting False (ring_init z) Open_Exclusive Set_Size P_Idle [] False)"
    by blast
  have s1: "meeting_reach z (demo_meeting False (ring_init z) Open_Existing Set_Size P_Idle [] False)"
    by (rule demo_meeting_sender[OF s0 init_step.exists]) simp
  note s2 = demo_meeting_sender[OF s1 init_step.reopen]
  note s3 = demo_meeting_sender[OF s2 init_step.mmap]
  show ?thesis by (rule demo_meeting_sender[OF s3 init_step.opened])
qed

lemma creator_mapped:
  "meeting_reach z (demo_meeting True (ring_init z) (Ring_Ready False) (Mapped True) P_Idle [] False)"
proof -
  have "meeting_reach z (demo_meeting True (ring_init z) (Ring_Ready False) (Map_Ring True) P_Idle [] False)"
    by (rule demo_meeting_receiver[OF early_opener])
      (use init_step.truncate[of z "\<lparr>seg_exists = True, seg_sized = False, seg_ring = ring_init z\<rparr>"] in simp)
  from demo_meeting_receiver[OF this init_step.mmap] show ?thesis .
qed

text \<open>The sender sends up to the publication of the index, the creator still before its \<open>memset\<close>.\<close>

lemma copied_early:
  "meeting_reach z (demo_meeting True ((ring_init z)\<lparr>messages := (\<lambda>_. z)(0 := m)\<rparr>) (Ring_Ready False)
    (Mapped True) (P_Publish m 1) [] True)"
proof -
  have n: "ring_next 0 = 1" by (simp add: ring_next_def RING_SIZE_def)
  have "prod_step (ring_init z) P_Idle [] (ring_init z) (P_Check m 1)"
    using prod_step.p_call[of "ring_init z" m] by (simp add: ring_init_def n)
  from demo_meeting_send[OF creator_mapped this]
  have s1: "meeting_reach z (demo_meeting True (ring_init z) (Ring_Ready False) (Mapped True) (P_Check m 1) [] True)"
    by simp
  have "prod_step (ring_init z) (P_Check m 1) [] (ring_init z) (P_Write m 1)"
    by (rule prod_step.p_space) (simp add: ring_init_def)
  from demo_meeting_send[OF s1 this]
  have s2: "meeting_reach z (demo_meeting True (ring_init z) (Ring_Ready False) (Mapped True) (P_Write m 1) [] True)"
    by simp
  have "prod_step (ring_init z) (P_Write m 1) [] ((ring_init z)\<lparr>messages := (\<lambda>_. z)(0 := m)\<rparr>) (P_Publish m 1)"
    using prod_step.p_copy[of "ring_init z" m 1] by (simp add: ring_init_def)
  from demo_meeting_send[OF s2 this] show ?thesis by simp
qed

lemma erased_message:
  "meeting_reach z (demo_meeting True (ring_init z) (Ring_Ready False) (Ring_Ready True) P_Idle [m] True)"
proof -
  have "meeting_reach z (demo_meeting True ((ring_init z)\<lparr>messages := (\<lambda>_. z)(0 := m), write_idx := 1\<rparr>)
      (Ring_Ready False) (Mapped True) P_Idle [m] True)"
    using demo_meeting_send[OF copied_early prod_step.p_publish] by simp
  then show ?thesis by (rule demo_meeting_memset) (simp add: ring_init_def)
qed

lemma phantom_message:
  "meeting_reach z (demo_meeting True ((ring_init z)\<lparr>write_idx := 1\<rparr>) (Ring_Ready False) (Ring_Ready True)
    P_Idle [m] True)"
proof -
  have "meeting_reach z (demo_meeting True (ring_init z) (Ring_Ready False) (Ring_Ready True) (P_Publish m 1) [] True)"
    by (rule demo_meeting_memset[OF copied_early]) (simp add: ring_init_def)
  from demo_meeting_send[OF this prod_step.p_publish] show ?thesis by simp
qed

text \<open>
  C29. When the receiver creates the ring, the sender's first messages can be lost: there is an
  interleaving in which a message was sent, both calls have returned and the ring is empty, since
  the creator cleared it after the sender had used it. In another the sender's call has returned
  while the segment has no size yet, so that its first access raises SIGBUS. In a third the
  creator clears the slot between the copy and the publication of the index, and the ring holds a
  zero message that nobody sent.
\<close>

theorem ring_creation_race:
  "(\<exists>s. meeting_reach (0 :: nat) s \<and> ready (sender s) \<and> ready (receiver s) \<and> was_sent s = [7] \<and>
      was_received s = [] \<and> ring_list (seg_ring (seg s)) = []) \<and>
   (\<exists>s. meeting_reach (0 :: nat) s \<and> ready (sender s) \<and> \<not> seg_sized (seg s)) \<and>
   (\<exists>s. meeting_reach (0 :: nat) s \<and> ready (sender s) \<and> ready (receiver s) \<and> was_sent s = [7] \<and>
      was_received s = [] \<and> ring_list (seg_ring (seg s)) = [0])"
proof (intro conjI)
  let ?s = "demo_meeting True (ring_init (0 :: nat)) (Ring_Ready False) (Ring_Ready True) P_Idle [7] True"
  have "meeting_reach 0 ?s" by (rule erased_message)
  then show "\<exists>s. meeting_reach (0 :: nat) s \<and> ready (sender s) \<and> ready (receiver s) \<and> was_sent s = [7] \<and>
      was_received s = [] \<and> ring_list (seg_ring (seg s)) = []"
    by (intro exI[of _ ?s]) simp
  let ?u = "demo_meeting False (ring_init (0 :: nat)) (Ring_Ready False) Set_Size P_Idle [] False"
  show "\<exists>s. meeting_reach (0 :: nat) s \<and> ready (sender s) \<and> \<not> seg_sized (seg s)"
    using early_opener by (intro exI[of _ ?u]) simp
  let ?p = "demo_meeting True ((ring_init (0 :: nat))\<lparr>write_idx := 1\<rparr>) (Ring_Ready False) (Ring_Ready True)
    P_Idle [7] True"
  have "meeting_reach 0 ?p" by (rule phantom_message)
  moreover have "ring_list (seg_ring (seg ?p)) = [0]"
    by (simp add: ring_list_def ring_len_def ring_init_def)
  ultimately show "\<exists>s. meeting_reach (0 :: nat) s \<and> ready (sender s) \<and> ready (receiver s) \<and> was_sent s = [7] \<and>
      was_received s = [] \<and> ring_list (seg_ring (seg s)) = [0]"
    by (intro exI[of _ ?p]) simp
qed

text \<open>The receiver creates and clears the ring, then the sender sends.\<close>

theorem ring_creation_keeps_messages_witness:
  "\<exists>s. meeting_reach (0 :: nat) s \<and> creates (receiver s) \<and> was_sent s = [7] \<and>
    [7] = was_received s @ ring_list (seg_ring (seg s))"
proof -
  let ?r = "ring_init (0 :: nat)"
  let ?m = "?r\<lparr>messages := (\<lambda>_. 0)(0 := 7)\<rparr>"
  have n: "ring_next 0 = 1" by (simp add: ring_next_def RING_SIZE_def)
  have s0: "meeting_reach 0 (demo_meeting True ?r (Ring_Ready False) (Ring_Ready True) P_Idle [] False)"
    by (rule demo_meeting_memset[OF creator_mapped]) (simp add: ring_init_def)
  have "prod_step ?r P_Idle [] ?r (P_Check 7 1)"
    using prod_step.p_call[of ?r 7] by (simp add: ring_init_def n)
  from demo_meeting_send[OF s0 this]
  have s1: "meeting_reach 0 (demo_meeting True ?r (Ring_Ready False) (Ring_Ready True) (P_Check 7 1) [] False)" by simp
  have "prod_step ?r (P_Check 7 1) [] ?r (P_Write 7 1)"
    by (rule prod_step.p_space) (simp add: ring_init_def)
  from demo_meeting_send[OF s1 this]
  have s2: "meeting_reach 0 (demo_meeting True ?r (Ring_Ready False) (Ring_Ready True) (P_Write 7 1) [] False)" by simp
  have "prod_step ?r (P_Write 7 1) [] ?m (P_Publish 7 1)"
    using prod_step.p_copy[of ?r 7 1] by (simp add: ring_init_def)
  from demo_meeting_send[OF s2 this]
  have s3: "meeting_reach 0 (demo_meeting True ?m (Ring_Ready False) (Ring_Ready True) (P_Publish 7 1) [] False)" by simp
  let ?s = "demo_meeting True (?m\<lparr>write_idx := 1\<rparr>) (Ring_Ready False) (Ring_Ready True) P_Idle [7 :: nat] False"
  have s4: "meeting_reach 0 ?s"
    using demo_meeting_send[OF s3 prod_step.p_publish] by simp
  have "[7] = was_received ?s @ ring_list (seg_ring (seg ?s))"
    using ring_creation_keeps_messages[OF s4] by simp
  with s4 show ?thesis by (intro exI[of _ ?s]) simp
qed

end
