(* ===== verification/Communicator.thy ===== *)
theory Communicator
  imports Ring
begin

text \<open>
  \<open>PDESCommunicator\<close> of \<open>net/pdes-communicator.c\<close>: creation and destruction with the system
  calls' outcomes as inputs and the process's descriptors, mappings and shared-memory names as
  state, and \<open>pdes_comm_send\<close> and \<open>pdes_comm_recv\<close> as one process sees them while the other
  end does not move (\<open>Ring_Interleave\<close> treats the two ends together).
\<close>

record comm =
  fd_send :: int
  fd_recv :: int
  ring_send :: "message shm_ring option"
  ring_recv :: "message shm_ring option"

definition EINVAL :: int where "EINVAL = 22"
definition EXIT_FAILURE :: int where "EXIT_FAILURE = 1"

definition zero_message :: message where
  "zero_message = \<lparr>ts_ns = 0, len = 0, data = replicate MAX_MSG_SIZE 0, mtype = 0\<rparr>"

section \<open>Creating a ring\<close>

text \<open>What the system calls return for one ring; a negative descriptor is a failure.\<close>

record ring_env =
  excl_fd :: int                         \<comment> \<open>\<open>shm_open\<close> with \<open>O_CREAT | O_EXCL\<close>\<close>
  open_fd :: int                         \<comment> \<open>\<open>shm_open\<close> of the existing object\<close>
  ftruncate_res :: int
  mmap_failed :: bool
  existing_ring :: "message shm_ring"    \<comment> \<open>what the object holds when it already exists\<close>

record resources =
  open_fds :: "int list"
  mappings :: nat
  shm_names :: "string set"

definition os_close :: "int \<Rightarrow> resources \<Rightarrow> resources" where
  "os_close fd s = s\<lparr>open_fds := remove1 fd (open_fds s)\<rparr>"

definition os_unlink :: "string \<Rightarrow> resources \<Rightarrow> resources" where
  "os_unlink name s = s\<lparr>shm_names := shm_names s - {name}\<rparr>"

definition os_munmap :: "resources \<Rightarrow> resources" where
  "os_munmap s = s\<lparr>mappings := mappings s - 1\<rparr>"

definition pdes_comm_init_ring ::
  "string \<Rightarrow> ring_env \<Rightarrow> resources \<Rightarrow> (int \<times> message shm_ring) option \<times> resources" where
  "pdes_comm_init_ring name e s =
     (let is_creator = (0 \<le> excl_fd e);
          fd = (if is_creator then excl_fd e else open_fd e);
          s1 = (if is_creator then s\<lparr>open_fds := fd # open_fds s, shm_names := insert name (shm_names s)\<rparr>
                else if fd < 0 then s
                else s\<lparr>open_fds := fd # open_fds s\<rparr>)
      in if \<not> is_creator \<and> fd < 0 then (None, s1)
         else if is_creator \<and> ftruncate_res e < 0 then (None, os_close fd (os_unlink name s1))
         else if mmap_failed e
           then (None, os_close fd (if is_creator then os_unlink name s1 else s1))
         else (Some (fd, if is_creator then ring_init zero_message else existing_ring e),
               s1\<lparr>mappings := mappings s1 + 1\<rparr>))"

definition pdes_comm_create ::
  "bool \<Rightarrow> string \<Rightarrow> string \<Rightarrow> ring_env \<Rightarrow> ring_env \<Rightarrow> resources \<Rightarrow>
    (resources, comm option \<times> resources) res" where
  "pdes_comm_create singleton_set send_name recv_name es er s =
     (if singleton_set then Inl (Exit_Process EXIT_FAILURE s)
      else (case pdes_comm_init_ring send_name es s of
        (None, s1) \<Rightarrow> Inr (None, s1)
      | (Some (fs, rs), s1) \<Rightarrow>
          (case pdes_comm_init_ring recv_name er s1 of
            (None, s2) \<Rightarrow> Inr (None, os_close fs (os_munmap s2))
          | (Some (fr, rr), s2) \<Rightarrow>
              Inr (Some \<lparr>fd_send = fs, fd_recv = fr, ring_send = Some rs, ring_recv = Some rr\<rparr>,
                   s2))))"

definition pdes_comm_destroy :: "comm option \<Rightarrow> resources \<Rightarrow> resources" where
  "pdes_comm_destroy c s =
     (case c of None \<Rightarrow> s
      | Some c \<Rightarrow>
          let s1 = (if ring_send c \<noteq> None then os_munmap s else s);
              s2 = (if ring_recv c \<noteq> None then os_munmap s1 else s1);
              s3 = (if 0 \<le> fd_send c then os_close (fd_send c) s2 else s2)
          in if 0 \<le> fd_recv c then os_close (fd_recv c) s3 else s3)"

section \<open>Sending and receiving\<close>

text \<open>
  \<open>while (next_write == ring->read_idx)\<close> cannot end while the peer does not read: a full ring
  is \<open>Send_Blocked\<close>. An index outside the array is an out-of-bounds access.
\<close>

definition pdes_comm_send ::
  "comm option \<Rightarrow> message option \<Rightarrow> ('n, int \<times> comm option) res" where
  "pdes_comm_send c m =
     (case (c, m) of
        (Some c', Some m') \<Rightarrow>
          (case ring_send c' of
             None \<Rightarrow> Inr (- EINVAL, c)
           | Some r \<Rightarrow>
               if ring_full r then Inl Send_Blocked
               else if 8192 \<le> unat (write_idx r) then Inl Out_Of_Bounds
               else Inr (0, Some (c'\<lparr>ring_send := Some (ring_put m' r)\<rparr>)))
      | _ \<Rightarrow> Inr (- EINVAL, c))"

text \<open>
  The result is \<open>msg->len\<close> converted to \<open>int\<close>; \<open>buffer\<close> says that the caller passed a
  destination, the received message is the second component.
\<close>

definition pdes_comm_recv ::
  "comm option \<Rightarrow> bool \<Rightarrow> ('n, int \<times> message option \<times> comm option) res" where
  "pdes_comm_recv c buffer =
     (case c of
        None \<Rightarrow> Inr (- EINVAL, None, c)
      | Some c' \<Rightarrow>
          (case ring_recv c' of
             None \<Rightarrow> Inr (- EINVAL, None, c)
           | Some r \<Rightarrow>
               if \<not> buffer then Inr (- EINVAL, None, c)
               else if ring_empty r then Inr (NO_MESSAGE, None, c)
               else if 8192 \<le> unat (read_idx r) then Inl Out_Of_Bounds
               else (case ring_get r of
                  (m, r') \<Rightarrow> Inr (sint (len m), Some m, Some (c'\<lparr>ring_recv := Some r'\<rparr>)))))"

section \<open>What the two ends hold\<close>

definition comm_wf :: "comm option \<Rightarrow> bool" where
  "comm_wf c \<longleftrightarrow> (\<exists>c' rs rr. c = Some c' \<and> ring_send c' = Some rs \<and> ring_recv c' = Some rr \<and>
     ring_wf rs \<and> ring_wf rr)"

definition tx_list :: "comm option \<Rightarrow> message list" where
  "tx_list c = (case c of None \<Rightarrow> [] | Some c' \<Rightarrow>
     (case ring_send c' of None \<Rightarrow> [] | Some r \<Rightarrow> ring_list r))"

definition rx_list :: "comm option \<Rightarrow> message list" where
  "rx_list c = (case c of None \<Rightarrow> [] | Some c' \<Rightarrow>
     (case ring_recv c' of None \<Rightarrow> [] | Some r \<Rightarrow> ring_list r))"

lemma comm_wfE:
  assumes "comm_wf c"
  obtains c' rs rr where "c = Some c'" and "ring_send c' = Some rs" and "ring_recv c' = Some rr"
    and "ring_wf rs" and "ring_wf rr"
  using assms by (auto simp: comm_wf_def)

text \<open>A send that returns has appended the message and left the receiving end alone.\<close>

lemma send_returns:
  assumes "comm_wf c" and "pdes_comm_send c (Some m) = Inr (i, c')"
  shows "i = 0 \<and> comm_wf c' \<and> tx_list c' = tx_list c @ [m] \<and> rx_list c' = rx_list c"
  using assms
  by (auto elim!: comm_wfE simp: pdes_comm_send_def comm_wf_def tx_list_def rx_list_def
      ring_rules split: if_splits)

lemma send_faults:
  "comm_wf c \<Longrightarrow> pdes_comm_send c (Some m) = Inl e \<Longrightarrow> e = Send_Blocked"
  by (auto elim!: comm_wfE simp: pdes_comm_send_def ring_wf_def split: if_splits)

lemma send_blocked_iff:
  assumes "comm_wf c"
  shows "pdes_comm_send c (Some m) = Inl Send_Blocked \<longleftrightarrow> length (tx_list c) = 8191"
  using assms
  by (auto elim!: comm_wfE simp: pdes_comm_send_def tx_list_def ring_full_iff ring_wf_def
      split: if_splits)

lemma tx_list_bound: "comm_wf c \<Longrightarrow> length (tx_list c) \<le> 8191"
  by (auto elim!: comm_wfE simp: tx_list_def ring_len_bound)

lemma recv_none:
  assumes "comm_wf c" and "rx_list c = []"
  shows "pdes_comm_recv c True = Inr (NO_MESSAGE, None, c)"
  using assms
  by (auto elim!: comm_wfE simp: pdes_comm_recv_def rx_list_def ring_empty_iff
      simp flip: length_ring_list)

lemma recv_some:
  assumes "comm_wf c" and "rx_list c = m # ms"
  shows "\<exists>c'. pdes_comm_recv c True = Inr (sint (len m), Some m, c') \<and> comm_wf c' \<and>
    rx_list c' = ms \<and> tx_list c' = tx_list c"
proof -
  from assms(1) obtain k rs rr where c: "c = Some k" "ring_send k = Some rs" "ring_recv k = Some rr"
    and w: "ring_wf rs" "ring_wf rr" by (rule comm_wfE)
  with assms(2) have l: "ring_list rr = m # ms" by (simp add: rx_list_def)
  then have e: "\<not> ring_empty rr"
    using w(2) by (simp add: ring_empty_iff flip: length_ring_list)
  obtain r' where g: "ring_get rr = (m, r')" and r': "ring_list r' = ms" "ring_wf r'"
    using ring_list_get[OF w(2) e] ring_wf_get[OF w(2)] l by (cases "ring_get rr") auto
  show ?thesis
    using c w e g r'
    by (auto simp: pdes_comm_recv_def comm_wf_def rx_list_def tx_list_def ring_wf_def)
qed

lemma sint_len:
  assumes "unat (l :: u32) \<le> MAX_MSG_SIZE"
  shows "sint l = int (unat l)"
proof -
  have "int (unat l) \<le> 2048"
    using assms unfolding MAX_MSG_SIZE_def by linarith
  then have "uint l \<le> 2048" by simp
  then show ?thesis by (simp add: sint_eq_uint_small)
qed

lemma sint_len_nonneg: "unat (l :: u32) \<le> MAX_MSG_SIZE \<Longrightarrow> 0 \<le> sint l"
  using sint_len[of l] by linarith

lemma wf_message_result: "message_wf m \<Longrightarrow> sint (len m) = int (unat (len m))"
  by (rule sint_len) (simp add: message_wf_def)

text \<open>
  C30. Sending never fails silently on a communicator that \<open>pdes_comm_create\<close> returned: the
  call returns 0 with the message appended behind everything queued and the receiving ring
  untouched, unless the ring holds 8191 messages, where it waits.
\<close>

theorem pdes_comm_send_appends:
  assumes "comm_wf c"
  shows "(case (pdes_comm_send c (Some m) :: ('n, int \<times> comm option) res) of
      Inl e \<Rightarrow> e = Send_Blocked \<and> length (tx_list c) = 8191
    | Inr (i, c') \<Rightarrow> length (tx_list c) < 8191 \<and> i = 0 \<and> comm_wf c' \<and>
        tx_list c' = tx_list c @ [m] \<and> rx_list c' = rx_list c)"
proof (cases "pdes_comm_send c (Some m) :: ('n, int \<times> comm option) res")
  case (Inl e)
  then show ?thesis
    using send_faults[OF assms Inl] send_blocked_iff[OF assms, of m] by auto
next
  case (Inr p)
  then obtain i c' where
    p: "(pdes_comm_send c (Some m) :: ('n, int \<times> comm option) res) = Inr (i, c')"
    by (cases p) simp
  have "length (tx_list c) \<noteq> 8191"
  proof
    assume "length (tx_list c) = 8191"
    then have "(pdes_comm_send c (Some m) :: ('n, int \<times> comm option) res) = Inl Send_Blocked"
      by (simp add: send_blocked_iff[OF assms])
    with p show False by simp
  qed
  then show ?thesis
    using send_returns[OF assms p] p tx_list_bound[OF assms] by auto
qed

definition demo_comm :: "comm option" where
  "demo_comm = Some \<lparr>fd_send = 3, fd_recv = 4, ring_send = Some (ring_init zero_message),
     ring_recv = Some (ring_init zero_message)\<rparr>"

lemma demo_comm_wf [simp]: "comm_wf demo_comm" "tx_list demo_comm = []" "rx_list demo_comm = []"
  by (simp_all add: demo_comm_def comm_wf_def tx_list_def rx_list_def)

theorem pdes_comm_send_appends_witness:
  "comm_wf demo_comm \<and> (case pdes_comm_send demo_comm (Some zero_message) of
      Inl e \<Rightarrow> e = Send_Blocked \<and> length (tx_list demo_comm) = 8191
    | Inr (i, c') \<Rightarrow> length (tx_list demo_comm) < 8191 \<and> i = 0 \<and> comm_wf c' \<and>
        tx_list c' = tx_list demo_comm @ [zero_message] \<and> rx_list c' = rx_list demo_comm)"
  using pdes_comm_send_appends[OF demo_comm_wf(1), of zero_message] by simp

text \<open>
  C31. Receiving takes the oldest queued message; its result is the message's length, which is
  never negative for a well-formed message, so the caller cannot mistake a message for
  \<open>NO_MESSAGE\<close> or an error.
\<close>

theorem pdes_comm_recv_oldest:
  assumes "comm_wf c" and "rx_list c = m # ms" and "message_wf m"
  shows "\<exists>c'. pdes_comm_recv c True = Inr (int (unat (len m)), Some m, c') \<and> comm_wf c' \<and>
    rx_list c' = ms \<and> tx_list c' = tx_list c \<and> NO_MESSAGE < int (unat (len m))"
proof -
  have "NO_MESSAGE < int (unat (len m))" by (simp add: NO_MESSAGE_def del: of_nat_unat)
  then show ?thesis
    using recv_some[OF assms(1,2)] unfolding wf_message_result[OF assms(3)] by blast
qed

theorem pdes_comm_recv_oldest_witness:
  "\<exists>c'. pdes_comm_recv (Some \<lparr>fd_send = 3, fd_recv = 4, ring_send = Some (ring_init zero_message),
       ring_recv = Some (ring_put zero_message (ring_init zero_message))\<rparr>) True =
     Inr (int (unat (len zero_message)), Some zero_message, c') \<and> comm_wf c' \<and>
     rx_list c' = [] \<and> tx_list c' = [] \<and> NO_MESSAGE < int (unat (len zero_message))"
proof -
  let ?r = "ring_put zero_message (ring_init zero_message)"
  let ?c = "Some \<lparr>fd_send = 3, fd_recv = 4, ring_send = Some (ring_init zero_message),
    ring_recv = Some ?r\<rparr>"
  have f: "\<not> ring_full (ring_init zero_message)" by (simp add: ring_full_iff flip: length_ring_list)
  then have "rx_list ?c = [zero_message]" and "comm_wf ?c" and "tx_list ?c = []"
    by (simp_all add: rx_list_def tx_list_def comm_wf_def ring_list_put ring_wf_put)
  moreover have "message_wf zero_message"
    by (simp add: message_wf_def zero_message_def)
  ultimately show ?thesis using pdes_comm_recv_oldest[of ?c zero_message "[]"] by simp
qed

section \<open>Creation and destruction keep the books\<close>

text \<open>The descriptors the system hands out are new.\<close>

definition fresh_fds :: "ring_env \<Rightarrow> resources \<Rightarrow> bool" where
  "fresh_fds e s \<longleftrightarrow> excl_fd e \<notin> set (open_fds s) \<and> open_fd e \<notin> set (open_fds s)"

lemma init_ring_failed:
  assumes "pdes_comm_init_ring name e s = (None, s')" and "name \<notin> shm_names s \<or> excl_fd e < 0"
  shows "s' = s"
  using assms
  by (cases s) (auto simp: pdes_comm_init_ring_def Let_def os_close_def os_unlink_def split: if_splits)

lemma init_ring_created:
  assumes "pdes_comm_init_ring name e s = (Some (fd, r), s')"
  shows "0 \<le> fd \<and> open_fds s' = fd # open_fds s \<and> mappings s' = mappings s + 1 \<and>
    shm_names s' = (if 0 \<le> excl_fd e then insert name (shm_names s) else shm_names s) \<and>
    (0 \<le> excl_fd e \<longrightarrow> r = ring_init zero_message)"
  using assms by (auto simp: pdes_comm_init_ring_def Let_def split: if_splits)

text \<open>
  C32. A failed \<open>pdes_comm_create\<close> leaves no descriptor and no mapping behind, whichever of its
  steps failed: after it the process holds exactly the descriptors and mappings it had before.
\<close>

theorem pdes_comm_create_failure_releases:
  assumes "pdes_comm_create False n1 n2 es er s = Inr (None, s')"
    and "n1 \<notin> shm_names s \<or> excl_fd es < 0" and "n2 \<notin> insert n1 (shm_names s) \<or> excl_fd er < 0"
  shows "open_fds s' = open_fds s \<and> mappings s' = mappings s"
proof (cases "pdes_comm_init_ring n1 es s")
  case (Pair o1 s1)
  show ?thesis
  proof (cases o1)
    case None
    with Pair assms(1) have "s' = s1" by (simp add: pdes_comm_create_def)
    then show ?thesis using init_ring_failed[of n1 es s s1] Pair None assms(2) by simp
  next
    case (Some p)
    then obtain fs rs where c1: "pdes_comm_init_ring n1 es s = (Some (fs, rs), s1)"
      using Pair by (cases p) simp
    obtain o2 s2 where c2: "pdes_comm_init_ring n2 er s1 = (o2, s2)" by fastforce
    with c1 assms(1) have "o2 = None" and s': "s' = os_close fs (os_munmap s2)"
      by (auto simp: pdes_comm_create_def split: option.splits)
    moreover have "n2 \<notin> shm_names s1 \<or> excl_fd er < 0"
      using init_ring_created[OF c1] assms(3) by (auto split: if_splits)
    ultimately have "s2 = s1" using c2 init_ring_failed by blast
    then show ?thesis using init_ring_created[OF c1] s' by (simp add: os_close_def os_munmap_def)
  qed
qed

definition demo_resources :: resources where
  "demo_resources = \<lparr>open_fds = [0, 1, 2], mappings = 5, shm_names = {}\<rparr>"

definition demo_env :: "int \<Rightarrow> bool \<Rightarrow> ring_env" where
  "demo_env fd fails = \<lparr>excl_fd = fd, open_fd = -1, ftruncate_res = 0, mmap_failed = fails,
     existing_ring = ring_init zero_message\<rparr>"

text \<open>The first ring is created, mapping the second fails.\<close>

theorem pdes_comm_create_failure_releases_witness:
  "\<exists>s'. pdes_comm_create False ''a'' ''b'' (demo_env 3 False) (demo_env 4 True) demo_resources =
     Inr (None, s') \<and> open_fds s' = [0, 1, 2] \<and> mappings s' = 5 \<and> ''a'' \<in> shm_names s'"
proof -
  let ?s = "demo_resources\<lparr>shm_names := {''a''}\<rparr>"
  have c: "pdes_comm_create False ''a'' ''b'' (demo_env 3 False) (demo_env 4 True) demo_resources =
      Inr (None, ?s)"
    by (simp add: pdes_comm_create_def pdes_comm_init_ring_def demo_env_def demo_resources_def
        os_close_def os_unlink_def os_munmap_def)
  show ?thesis
    using c pdes_comm_create_failure_releases[OF c] by (simp add: demo_resources_def demo_env_def)
qed

text \<open>
  C33. \<open>pdes_comm_destroy\<close> undoes a successful \<open>pdes_comm_create\<close>: the two descriptors are
  closed and the two mappings removed (the shared-memory names stay, for the peer).
\<close>

theorem pdes_comm_destroy_create:
  assumes "pdes_comm_create False n1 n2 es er s = Inr (Some c, s')"
  shows "open_fds (pdes_comm_destroy (Some c) s') = open_fds s \<and>
    mappings (pdes_comm_destroy (Some c) s') = mappings s \<and>
    shm_names (pdes_comm_destroy (Some c) s') = shm_names s'"
proof (cases "pdes_comm_init_ring n1 es s")
  case (Pair o1 s1)
  with assms obtain fs rs where c1: "pdes_comm_init_ring n1 es s = (Some (fs, rs), s1)"
    by (cases o1) (auto simp: pdes_comm_create_def)
  obtain o2 s2 where c2: "pdes_comm_init_ring n2 er s1 = (o2, s2)" by fastforce
  with c1 assms obtain fr rr where o2: "o2 = Some (fr, rr)" and s': "s' = s2"
    and c: "c = \<lparr>fd_send = fs, fd_recv = fr, ring_send = Some rs, ring_recv = Some rr\<rparr>"
    by (auto simp: pdes_comm_create_def split: option.splits)
  have "open_fds s2 = fr # fs # open_fds s" and "mappings s2 = mappings s + 2" and "0 \<le> fs" "0 \<le> fr"
    using init_ring_created[OF c1] init_ring_created[of n2 er s1 fr rr s2] c2 o2 by simp_all
  then show ?thesis
    using c s' by (simp add: pdes_comm_destroy_def Let_def os_close_def os_munmap_def)
qed

theorem pdes_comm_destroy_create_witness:
  "\<exists>c s'. pdes_comm_create False ''a'' ''b'' (demo_env 3 False) (demo_env 4 False) demo_resources =
     Inr (Some c, s') \<and> open_fds s' = [4, 3, 0, 1, 2] \<and>
     open_fds (pdes_comm_destroy (Some c) s') = [0, 1, 2] \<and>
     mappings (pdes_comm_destroy (Some c) s') = 5"
proof -
  let ?s = "\<lparr>open_fds = [4, 3, 0, 1, 2], mappings = 7, shm_names = {''b'', ''a''}\<rparr>"
  have c: "pdes_comm_create False ''a'' ''b'' (demo_env 3 False) (demo_env 4 False) demo_resources =
      Inr (Some \<lparr>fd_send = 3, fd_recv = 4, ring_send = Some (ring_init zero_message),
        ring_recv = Some (ring_init zero_message)\<rparr>, ?s)"
    by (simp add: pdes_comm_create_def pdes_comm_init_ring_def demo_env_def demo_resources_def)
  show ?thesis
    using c pdes_comm_destroy_create[OF c] by (auto simp: demo_resources_def)
qed

end
