(* ===== verification/Inflight.thy ===== *)
theory Inflight
  imports Communicator "HOL-Library.Multiset"
begin

text \<open>
  The in-flight messages of \<open>net/pdes-checkpoint.c\<close>: the list of scheduled packets with its
  counter, and the JSON file a checkpoint keeps them in, printed with \<open>fprintf\<close> and read back
  with \<open>strstr\<close>, \<open>strchr\<close> and \<open>sscanf\<close>. A search that fails returns NULL, and the code uses
  the result without a test: the model faults where NULL is dereferenced.
\<close>

section \<open>The list\<close>

record inflight =
  pending_messages :: "(message \<times> i64) list"   \<comment> \<open>\<open>msg\<close>, \<open>scheduled_time_ns\<close>; head first\<close>
  pending_count :: int

definition no_inflight :: inflight where
  "no_inflight = \<lparr>pending_messages = [], pending_count = 0\<rparr>"

definition inflight_wf :: "inflight \<Rightarrow> bool" where
  "inflight_wf s \<longleftrightarrow> pending_count s = int (length (pending_messages s))"

definition get_number_of_inflight_messages :: "inflight \<Rightarrow> int" where
  "get_number_of_inflight_messages s = pending_count s"

definition pdes_inflight_count :: "inflight \<Rightarrow> int" where
  "pdes_inflight_count s = pending_count s"

definition pdes_inflight_add :: "message \<Rightarrow> i64 \<Rightarrow> inflight \<Rightarrow> inflight" where
  "pdes_inflight_add m t s =
     s\<lparr>pending_messages := (m, t) # pending_messages s, pending_count := pending_count s + 1\<rparr>"

definition same_entry :: "message \<Rightarrow> i64 \<Rightarrow> message \<times> i64 \<Rightarrow> bool" where
  "same_entry m t e \<longleftrightarrow> snd e = t \<and> len (fst e) = len m \<and>
     take (unat (len m)) (data (fst e)) = take (unat (len m)) (data m)"

text \<open>
  The comparison of one entry: \<open>memcmp\<close> runs when time and length agree, over as many bytes as
  the length says, beyond the arrays when that is more than they hold.
\<close>

definition compare_entry :: "message \<Rightarrow> i64 \<Rightarrow> message \<times> i64 \<Rightarrow> ('n, bool) res" where
  "compare_entry m t e =
     (if snd e = t \<and> len (fst e) = len m \<and> MAX_MSG_SIZE < unat (len m) then Inl Out_Of_Bounds
      else Inr (same_entry m t e))"

text \<open>The first match is unlinked; \<open>None\<close> when there is none.\<close>

fun remove_first :: "('a \<Rightarrow> ('n, bool) res) \<Rightarrow> 'a list \<Rightarrow> ('n, 'a list option) res" where
  "remove_first p [] = Inr None"
| "remove_first p (x # xs) =
     bindE (p x) (\<lambda>found.
     if found then Inr (Some xs)
     else bindE (remove_first p xs) (\<lambda>r. Inr (map_option (Cons x) r)))"

definition pdes_inflight_remove :: "message \<Rightarrow> i64 \<Rightarrow> inflight \<Rightarrow> ('n, inflight) res" where
  "pdes_inflight_remove m t s =
     bindE (remove_first (compare_entry m t) (pending_messages s)) (\<lambda>r.
     case r of
        Some es \<Rightarrow> Inr (s\<lparr>pending_messages := es, pending_count := pending_count s - 1\<rparr>)
      | None \<Rightarrow> Inl (Assert_Failed Inflight_Not_Found))"

text \<open>\<open>InflightMessageArray\<close>: two parallel arrays, which may be NULL, and their length.\<close>

record inflight_array =
  arr_messages :: "message list option"
  arr_scheduled_times :: "i64 list option"
  arr_count :: int

definition pdes_inflight_get_all :: "inflight \<Rightarrow> inflight_array" where
  "pdes_inflight_get_all s =
     (if pending_count s = 0 then \<lparr>arr_messages = None, arr_scheduled_times = None, arr_count = 0\<rparr>
      else \<lparr>arr_messages = Some (map fst (pending_messages s)),
            arr_scheduled_times = Some (map snd (pending_messages s)), arr_count = pending_count s\<rparr>)"

section \<open>The file name\<close>

definition get_json_file_name :: "string \<Rightarrow> string" where
  "get_json_file_name base_name = base_name @ ''_in_flight.json''"

section \<open>Printing\<close>

definition digit_char :: "nat \<Rightarrow> char" where
  "digit_char d = char_of (48 + d)"

fun dec_nat :: "nat \<Rightarrow> string" where
  "dec_nat n = (if n < 10 then [digit_char n] else dec_nat (n div 10) @ [digit_char (n mod 10)])"

declare dec_nat.simps [simp del]

text \<open>\<open>%u\<close> and \<open>PRIu64\<close> print the unsigned value, \<open>PRId64\<close> the signed one.\<close>

definition print_unsigned :: "'a::len word \<Rightarrow> string" where
  "print_unsigned w = dec_nat (unat w)"

definition print_signed :: "'a::len word \<Rightarrow> string" where
  "print_signed w =
     (if sint w < 0 then CHR ''-'' # dec_nat (nat (- sint w)) else dec_nat (nat (sint w)))"

definition nl :: string where "nl = [CHR 0x0A]"

definition key_sched :: string where \<open>key_sched = ''"scheduled_time_ns":''\<close>
definition key_ts :: string where \<open>key_ts = ''"timestamp_ns":''\<close>
definition key_type :: string where \<open>key_type = ''"type":''\<close>
definition key_len :: string where \<open>key_len = ''"len":''\<close>
definition key_data :: string where \<open>key_data = ''"data": [''\<close>

text \<open>The bytes of the array, separated by a comma and a blank.\<close>

fun print_bytes :: "u8 list \<Rightarrow> string" where
  "print_bytes [] = []"
| "print_bytes [b] = print_unsigned b"
| "print_bytes (b # bs) = print_unsigned b @ '', '' @ print_bytes bs"

definition print_entry :: "message \<times> i64 \<Rightarrow> bool \<Rightarrow> string" where
  "print_entry e comma =
     ''    {'' @ nl @
     ''      '' @ key_sched @ '' '' @ print_signed (snd e) @ '','' @ nl @
     ''      '' @ key_ts @ '' '' @ print_unsigned (ts_ns (fst e)) @ '','' @ nl @
     ''      '' @ key_type @ '' '' @ print_unsigned (mtype (fst e)) @ '','' @ nl @
     ''      '' @ key_len @ '' '' @ print_unsigned (len (fst e)) @ '','' @ nl @
     ''      '' @ key_data @ print_bytes (payload (fst e)) @ '']'' @ nl @
     ''    }'' @ (if comma then '','' else []) @ nl"

text \<open>\<open>i\<close> is the index of the entry; the last of \<open>pending_count\<close> entries has no comma.\<close>

fun print_entries :: "(message \<times> i64) list \<Rightarrow> int \<Rightarrow> int \<Rightarrow> string" where
  "print_entries [] i cnt = []"
| "print_entries (e # es) i cnt = print_entry e (i < cnt - 1) @ print_entries es (i + 1) cnt"

definition json_header :: string where
  \<open>json_header = ''{'' @ nl @ ''  "inflight_messages": ['' @ nl\<close>

definition json_footer :: string where
  "json_footer = ''  ]'' @ nl @ ''}'' @ nl"

definition print_json :: "inflight \<Rightarrow> string" where
  "print_json s = json_header @ print_entries (pending_messages s) 0 (pending_count s) @ json_footer"

text \<open>\<open>pdes_inflight_save_json\<close>: the result is 0, or -1 when the file cannot be opened.\<close>

definition pdes_inflight_save_json ::
  "bool \<Rightarrow> string \<Rightarrow> inflight \<Rightarrow> (string \<Rightarrow> string option) \<Rightarrow> int \<times> (string \<Rightarrow> string option)" where
  "pdes_inflight_save_json fopen_ok checkpoint_name s fs =
     (if fopen_ok then (0, fs(get_json_file_name checkpoint_name \<mapsto> print_json s)) else (-1, fs))"

section \<open>Reading\<close>

fun starts_with :: "string \<Rightarrow> string \<Rightarrow> bool" where
  "starts_with [] s = True"
| "starts_with (c # cs) [] = False"
| "starts_with (c # cs) (d # ds) = (c = d \<and> starts_with cs ds)"

text \<open>\<open>strstr\<close> and \<open>strchr\<close>: the rest of the text from the first occurrence on.\<close>

fun strstr :: "string \<Rightarrow> string \<Rightarrow> string option" where
  "strstr key [] = (if key = [] then Some [] else None)"
| "strstr key (c # cs) = (if starts_with key (c # cs) then Some (c # cs) else strstr key cs)"

fun strchr :: "char \<Rightarrow> string \<Rightarrow> string option" where
  "strchr c [] = None"
| "strchr c (d # ds) = (if d = c then Some (d # ds) else strchr c ds)"

definition is_space :: "char \<Rightarrow> bool" where
  "is_space c \<longleftrightarrow> c = CHR '' '' \<or> c \<in> set nl \<or> c = CHR 0x09 \<or> c = CHR 0x0B \<or> c = CHR 0x0C \<or> c = CHR 0x0D"

definition is_digit :: "char \<Rightarrow> bool" where
  "is_digit c \<longleftrightarrow> 48 \<le> (of_char c :: nat) \<and> (of_char c :: nat) \<le> 57"

fun digits_value :: "nat \<Rightarrow> string \<Rightarrow> nat" where
  "digits_value acc [] = acc"
| "digits_value acc (c # cs) =
     (if is_digit c then digits_value (10 * acc + (of_char c - 48)) cs else acc)"

text \<open>\<open>%u\<close> and \<open>%ld\<close> skip white space, take a sign and the longest run of digits.\<close>

definition scan_number :: "string \<Rightarrow> int option" where
  "scan_number s =
     (case dropWhile is_space s of
        [] \<Rightarrow> None
      | c # cs \<Rightarrow>
          if is_digit c then Some (int (digits_value 0 (c # cs)))
          else if (c = CHR ''-'' \<or> c = CHR ''+'') \<and> cs \<noteq> [] \<and> is_digit (hd cs)
            then Some (if c = CHR ''-'' then - int (digits_value 0 cs) else int (digits_value 0 cs))
          else None)"

text \<open>\<open>sscanf(ptr, "<key> %...", &v)\<close>: the literal key, white space, then the number.\<close>

definition scan_field :: "string \<Rightarrow> string \<Rightarrow> int option" where
  "scan_field key s = (if starts_with key s then scan_number (drop (length key) s) else None)"

text \<open>A search from a non-NULL pointer followed by a \<open>sscanf\<close> at the result.\<close>

definition next_field :: "string \<Rightarrow> string \<Rightarrow> ('n, int \<times> string) res" where
  "next_field key p =
     (case strstr key p of
        None \<Rightarrow> Inl Null_Deref
      | Some q \<Rightarrow> (case scan_field key q of None \<Rightarrow> Inl Uninitialised | Some v \<Rightarrow> Inr (v, q)))"

text \<open>
  The data loop: \<open>k\<close> bytes are still to be read, \<open>ptr\<close> is NULL after the last comma of the
  text was passed. Bytes beyond the array are out of bounds.
\<close>

fun load_bytes :: "nat \<Rightarrow> string option \<Rightarrow> u8 list \<Rightarrow> ('n, u8 list \<times> string option) res" where
  "load_bytes 0 ptr acc = Inr (acc, ptr)"
| "load_bytes (Suc k) ptr acc =
     (case ptr of
        None \<Rightarrow> Inl Null_Deref
      | Some p \<Rightarrow>
          (case scan_number p of
             None \<Rightarrow> Inl Uninitialised
           | Some v \<Rightarrow>
               if MAX_MSG_SIZE \<le> length acc then Inl Out_Of_Bounds
               else load_bytes k (map_option tl (strchr CHR '','' p)) (acc @ [word_of_int v])))"

text \<open>
  One entry, written over the \<open>data\<close> array \<open>old\<close> of the slot: what it holds behind the bytes read
  stays there. The other fields are all assigned.
\<close>

definition load_entry :: "u8 list \<Rightarrow> string \<Rightarrow> ('n, (message \<times> i64) \<times> string option) res" where
  "load_entry old p =
     bindE (case scan_field key_sched p of None \<Rightarrow> Inl Uninitialised | Some v \<Rightarrow> Inr v) (\<lambda>sched.
     bindE (next_field key_ts p) (\<lambda>(ts, p1).
     bindE (next_field key_type p1) (\<lambda>(ty, p2).
     bindE (next_field key_len p2) (\<lambda>(n, p3).
     bindE (case strstr key_data p3 of None \<Rightarrow> Inl Null_Deref
            | Some q \<Rightarrow> Inr (drop (length key_data) q)) (\<lambda>p4.
     bindE (load_bytes (unat (word_of_int n :: u32)) (Some p4) []) (\<lambda>(bs, p5).
     Inr ((\<lparr>ts_ns = word_of_int ts, len = word_of_int n,
            data = bs @ drop (length bs) old,
            mtype = ucast (word_of_int ty :: u32)\<rparr>, word_of_int sched), p5)))))))"

text \<open>
  The messages are read into an array of 16 zeroed slots that doubles when it is full. \<open>g_renew\<close>
  does not clear what it adds: \<open>fresh i j\<close> is what byte \<open>j\<close> of the data array of slot \<open>i\<close> holds
  when the slot is added, an argument of the model. \<open>mem\<close> lists the data arrays of the slots.
\<close>

definition fresh_data :: "(nat \<Rightarrow> nat \<Rightarrow> u8) \<Rightarrow> nat \<Rightarrow> u8 list" where
  "fresh_data fresh i = map (fresh i) [0..<MAX_MSG_SIZE]"

definition grow :: "(nat \<Rightarrow> nat \<Rightarrow> u8) \<Rightarrow> nat \<Rightarrow> u8 list list \<Rightarrow> u8 list list" where
  "grow fresh used mem =
     (if length mem \<le> used then mem @ map (fresh_data fresh) [length mem ..< 2 * length mem] else mem)"

text \<open>
  The outer loop, \<open>while ((ptr = strstr(ptr, ...)) != NULL)\<close>; each turn moves the pointer
  forward, so a fuel of one more than the length of the text is enough.
\<close>

fun load_entries ::
  "(nat \<Rightarrow> nat \<Rightarrow> u8) \<Rightarrow> nat \<Rightarrow> string option \<Rightarrow> u8 list list \<Rightarrow> (message \<times> i64) list \<Rightarrow>
    ('n, (message \<times> i64) list) res" where
  "load_entries fresh 0 ptr mem acc = Inl Out_Of_Fuel"
| "load_entries fresh (Suc k) ptr mem acc =
     (case ptr of
        None \<Rightarrow> Inl Null_Deref
      | Some p \<Rightarrow>
          (case strstr key_sched p of
             None \<Rightarrow> Inr acc
           | Some q \<Rightarrow>
               let mem1 = grow fresh (length acc) mem
               in bindE (load_entry (mem1 ! length acc) q) (\<lambda>(e, p').
                  load_entries fresh k p' mem1 (acc @ [e]))))"

definition parse_json :: "(nat \<Rightarrow> nat \<Rightarrow> u8) \<Rightarrow> string \<Rightarrow> ('n, (message \<times> i64) list) res" where
  "parse_json fresh content =
     load_entries fresh (length content + 1) (Some content) (replicate 16 (replicate MAX_MSG_SIZE 0)) []"

text \<open>\<open>pdes_inflight_load_json\<close>: \<open>None\<close> (NULL) when the file cannot be opened.\<close>

definition pdes_inflight_load_json ::
  "(nat \<Rightarrow> nat \<Rightarrow> u8) \<Rightarrow> bool \<Rightarrow> string \<Rightarrow> (string \<Rightarrow> string option) \<Rightarrow> ('n, inflight_array option) res" where
  "pdes_inflight_load_json fresh fopen_ok filename fs =
     (case (if fopen_ok then fs filename else None) of
        None \<Rightarrow> Inr None
      | Some content \<Rightarrow>
          bindE (parse_json fresh content) (\<lambda>es.
          Inr (Some \<lparr>arr_messages = Some (map fst es), arr_scheduled_times = Some (map snd es),
                     arr_count = int (length es)\<rparr>)))"

section \<open>The list keeps its count\<close>

lemma remove_first_result:
  "(case (remove_first (compare_entry m t) xs :: ('n, (message \<times> i64) list option) res) of
     Inl e \<Rightarrow> e = Out_Of_Bounds \<and> MAX_MSG_SIZE < unat (len m)
   | Inr None \<Rightarrow> \<forall>x \<in> set xs. \<not> same_entry m t x
   | Inr (Some ys) \<Rightarrow> \<exists>x. same_entry m t x \<and> mset xs = add_mset x (mset ys) \<and> length xs = Suc (length ys))"
proof (induction xs)
  case (Cons a xs)
  show ?case
  proof (cases "compare_entry m t a :: ('n, bool) res")
    case (Inl e)
    then show ?thesis by (auto simp: compare_entry_def split: if_splits)
  next
    case (Inr found)
    then have f: "found = same_entry m t a" by (auto simp: compare_entry_def split: if_splits)
    show ?thesis
    proof (cases found)
      case True
      then show ?thesis using Inr f by (cases a) auto
    next
      case False
      obtain r where r: "remove_first (compare_entry m t) xs = (r :: ('n, (message \<times> i64) list option) res)" by simp
      show ?thesis
      proof (cases r)
        case e: (Inl e)
        then show ?thesis using Cons.IH r Inr False by simp
      next
        case o: (Inr ys)
        then show ?thesis using Cons.IH r Inr False f by (cases ys) auto
      qed
    qed
  qed
qed simp

lemma no_inflight_wf [simp]: "inflight_wf no_inflight"
  by (simp add: inflight_wf_def no_inflight_def)

lemma inflight_wf_add [simp]: "inflight_wf s \<Longrightarrow> inflight_wf (pdes_inflight_add m t s)"
  by (simp add: inflight_wf_def pdes_inflight_add_def)

text \<open>
  C34. \<open>pdes_inflight_remove\<close> takes exactly one entry out, one with the given time and payload,
  keeps the counter equal to the number of entries, and fails its assertion only if no entry
  matches; for a message that claims more bytes than its array holds it may read out of bounds.
\<close>

theorem pdes_inflight_remove_one:
  assumes "inflight_wf s"
  shows "(case (pdes_inflight_remove m t s :: ('n, inflight) res) of
      Inl e \<Rightarrow> e = Assert_Failed Inflight_Not_Found \<and>
        (\<forall>x \<in> set (pending_messages s). \<not> same_entry m t x) \<or>
        e = Out_Of_Bounds \<and> MAX_MSG_SIZE < unat (len m)
    | Inr s' \<Rightarrow> inflight_wf s' \<and> (\<exists>x. same_entry m t x \<and>
        mset (pending_messages s) = add_mset x (mset (pending_messages s'))))"
proof -
  obtain r where r: "remove_first (compare_entry m t) (pending_messages s) =
      (r :: ('n, (message \<times> i64) list option) res)" by simp
  note f = remove_first_result[where m = m and t = t and xs = "pending_messages s" and ?'n = 'n, unfolded r]
  show ?thesis
  proof (cases r)
    case (Inl e)
    then show ?thesis using f r by (simp add: pdes_inflight_remove_def)
  next
    case (Inr ys)
    then show ?thesis
      using f r assms by (cases ys) (auto simp: pdes_inflight_remove_def inflight_wf_def)
  qed
qed

theorem pdes_inflight_remove_one_witness:
  "inflight_wf (pdes_inflight_add zero_message 5 no_inflight) \<and>
   (case (pdes_inflight_remove zero_message 5 (pdes_inflight_add zero_message 5 no_inflight)
      :: (unit, inflight) res) of
      Inl e \<Rightarrow> e = Assert_Failed Inflight_Not_Found \<and>
        (\<forall>x \<in> set (pending_messages (pdes_inflight_add zero_message 5 no_inflight)).
          \<not> same_entry zero_message 5 x) \<or> e = Out_Of_Bounds \<and> MAX_MSG_SIZE < unat (len zero_message)
    | Inr s' \<Rightarrow> inflight_wf s' \<and> (\<exists>x. same_entry zero_message 5 x \<and>
        mset (pending_messages (pdes_inflight_add zero_message 5 no_inflight)) =
          add_mset x (mset (pending_messages s'))))"
proof -
  have "inflight_wf (pdes_inflight_add zero_message 5 no_inflight)"
    by simp
  then show ?thesis using pdes_inflight_remove_one by blast
qed

text \<open>
  Adding an entry and removing it again restores the list and the counter.
\<close>

theorem pdes_inflight_add_remove:
  assumes "message_wf m"
  shows "pdes_inflight_remove m t (pdes_inflight_add m t s) = Inr s"
  using assms
  by (simp add: pdes_inflight_remove_def pdes_inflight_add_def compare_entry_def same_entry_def message_wf_def)

end
