(* ===== verification/Node_State.thy ===== *)
theory Node_State
  imports Inflight
begin

text \<open>
  The state of one QEMU process: the \<open>PDESEngine\<close> and \<open>PDESWWT\<close> structs of
  \<open>include/net/pdes-engine.h\<close> field by field (callback pointers and opaque pointers left out:
  the callbacks are arguments of the definitions that call them), its communicator, its live
  timers and receive contexts, the clocks it reads, and the calls it makes into QEMU.

  Clocks are read at the value they have when a handler starts; time passes between handlers
  (\<open>System\<close>). A timer is the last request made for it.
\<close>

datatype timer = No_Timer | Idle | Armed i64

text \<open>\<open>timer_mod\<close> on a timer that was never created dereferences NULL.\<close>

definition timer_mod :: "timer \<Rightarrow> i64 \<Rightarrow> ('n, timer) res" where
  "timer_mod t e = (case t of No_Timer \<Rightarrow> Inl Null_Deref | _ \<Rightarrow> Inr (Armed e))"

text \<open>Calls into QEMU and Flexus whose effects lie outside the modelled state.\<close>

datatype qemu_call =
    Vm_Stop
  | Vm_Start
  | Icount_Set_Sleep bool
  | Send_Packet "u8 list"
  | Save_Snapshot string u32
  | Bh_Delete
  | Flexus_Pause
  | Flexus_Resume
  | Flexus_Stop
  | Libqflex_Stop

text \<open>
  How the process was built and what the external code offers: \<open>libqflex\<close> is
  \<open>CONFIG_LIBQFLEX\<close>, the \<open>api_\<close> fields say which entries of \<open>flexus_api\<close> are not NULL,
  \<open>stop_returns\<close> whether \<open>flexus_api.stop\<close> comes back, \<open>fmt_incremental\<close> is the value of
  \<open>SNAPSHOT_FORMAT_EXTERNAL_INCREMENTAL_BASE\<close>, \<open>fopen_ok\<close> whether files can be opened.
\<close>

record platform =
  libqflex :: bool
  api_pause :: bool
  api_stop :: bool
  api_resume :: bool
  stop_returns :: bool
  fmt_incremental :: u32
  fopen_ok :: bool

record engine =
  needs_sync :: bool
  latencyns :: i64
  msg_rec_poll_timer :: timer
  has_first_sync :: bool
  pair_has_finished :: bool
  paused :: bool
  base_diff :: i64
  first_sync_time :: i64
  caclulated_time_diff :: bool
  first_sync_virtual_time :: i64
  base_time_diff :: i64
  neighbour_drained :: i32
  checkpoint_in_progress :: bool
  checkpoint_bh :: bool
  waiting_for_quanta :: bool
  master :: bool
  init_flag :: i32
  master_init :: bool
  pause_bh :: bool
  needs_to_checkpoint :: bool
  notified_neighbors :: bool
  checkpoint_name :: string
  checkpoint_format :: u32
  checkpoint_quantum_round :: u64
  boundry_checkpoint_bh :: "bool option"  \<comment> \<open>created, with its \<open>exit_after\<close> argument\<close>
  boundry_scheduled :: bool
  skip_boundry_check_after_checkpoint :: bool
  notified_neighbors_for_exit :: bool
  ready_to_exit_neighbors :: i32
  permitted_to_exit :: bool
  ready_to_exit :: bool
  end_message_sent :: bool
  intent_sent :: bool

record wwt =
  wwt_latencyns :: i64
  quantum_ns :: i64
  number_of_neighbors :: i64
  number_of_neighbors_finished :: i64
  has_finished :: bool
  should_sync :: bool
  setup_timer :: timer
  quantum_timer :: timer
  sync_counts :: "u32 \<Rightarrow> i32 option"     \<comment> \<open>the \<open>GHashTable\<close>, keys as \<open>guint\<close>, values \<open>int\<close>\<close>
  current_quantum_round :: u64
  sync_check_timer :: timer
  finished_quantum :: bool

text \<open>\<open>MessageReceiveContext\<close>: a packet waiting for its virtual time.\<close>

record receive_context =
  has_recv_cb :: bool
  ctx_msg :: message
  one_time_poll_timer :: timer
  timestamp_ns :: i64

record node =
  platform :: platform
  virt :: i64                              \<comment> \<open>\<open>QEMU_CLOCK_VIRTUAL\<close>\<close>
  host :: i64                              \<comment> \<open>\<open>QEMU_CLOCK_HOST\<close>\<close>
  realtime :: i64                          \<comment> \<open>\<open>QEMU_CLOCK_REALTIME\<close>\<close>
  eng :: engine
  wwt :: wwt
  comm :: "comm option"
  contexts :: "receive_context list"
  inflight :: inflight
  files :: "string \<Rightarrow> string option"
  current_cpu :: "nat option"
  paused_cpu :: "nat option"
  cpu_stop :: "nat \<Rightarrow> bool"
  calls :: "qemu_call list"

text \<open>\<open>g_new0\<close>: every field zero.\<close>

definition zero_engine :: engine where
  "zero_engine = \<lparr>needs_sync = False, latencyns = 0, msg_rec_poll_timer = No_Timer,
     has_first_sync = False, pair_has_finished = False, paused = False, base_diff = 0,
     first_sync_time = 0, caclulated_time_diff = False, first_sync_virtual_time = 0,
     base_time_diff = 0, neighbour_drained = 0, checkpoint_in_progress = False,
     checkpoint_bh = False, waiting_for_quanta = False, master = False, init_flag = 0,
     master_init = False, pause_bh = False, needs_to_checkpoint = False,
     notified_neighbors = False, checkpoint_name = [], checkpoint_format = 0,
     checkpoint_quantum_round = 0, boundry_checkpoint_bh = None, boundry_scheduled = False,
     skip_boundry_check_after_checkpoint = False, notified_neighbors_for_exit = False,
     ready_to_exit_neighbors = 0, permitted_to_exit = False, ready_to_exit = False,
     end_message_sent = False, intent_sent = False\<rparr>"

definition zero_wwt :: wwt where
  "zero_wwt = \<lparr>wwt_latencyns = 0, quantum_ns = 0, number_of_neighbors = 0,
     number_of_neighbors_finished = 0, has_finished = False, should_sync = False,
     setup_timer = No_Timer, quantum_timer = No_Timer, sync_counts = (\<lambda>_. None),
     current_quantum_round = 0, sync_check_timer = No_Timer, finished_quantum = False\<rparr>"

section \<open>Shared accesses\<close>

definition out_call :: "qemu_call \<Rightarrow> node \<Rightarrow> node" where
  "out_call c n = n\<lparr>calls := calls n @ [c]\<rparr>"

definition comm_send :: "message \<Rightarrow> node \<Rightarrow> (node, int \<times> node) res" where
  "comm_send m n =
     bindE (pdes_comm_send (comm n) (Some m)) (\<lambda>(i, c). Inr (i, n\<lparr>comm := c\<rparr>))"

lemma comm_send_returns:
  assumes "comm_send m n = Inr (i, n')" and "comm_wf (comm n)"
  shows "i = 0 \<and> (\<exists>c. n' = n\<lparr>comm := c\<rparr> \<and> comm_wf c \<and> tx_list c = tx_list (comm n) @ [m] \<and>
    rx_list c = rx_list (comm n))"
  using assms send_returns[OF assms(2)]
  by (fastforce simp: comm_send_def elim!: bindE_InrE)

lemma comm_send_faults:
  "comm_send m n = Inl e \<Longrightarrow> comm_wf (comm n) \<Longrightarrow> e = Send_Blocked"
  by (auto simp: comm_send_def bindE_Inl_iff dest: send_faults)


text \<open>A send returns when the ring has a free slot.\<close>

lemma comm_send_returns_iff:
  assumes "comm_wf (comm n)" and "length (tx_list (comm n)) < 8191"
  shows "\<exists>c. comm_send m n = Inr (0, n\<lparr>comm := c\<rparr>) \<and> comm_wf c \<and>
    tx_list c = tx_list (comm n) @ [m] \<and> rx_list c = rx_list (comm n)"
proof (cases "comm_send m n")
  case (Inl e)
  then have "(pdes_comm_send (comm n) (Some m) :: (node, int \<times> comm option) res) = Inl Send_Blocked"
    using comm_send_faults[OF Inl assms(1)] by (auto simp: comm_send_def bindE_Inl_iff)
  then show ?thesis using assms send_blocked_iff by fastforce
next
  case (Inr p)
  then show ?thesis using comm_send_returns[of m n "fst p" "snd p"] assms(1) by (cases p) auto
qed

section \<open>A concrete node\<close>

text \<open>
  A node without Flexus at virtual time \<open>t\<close>, with empty rings and a zeroed engine whose
  \<open>first_sync_virtual_time\<close> is 0: the concrete state the examples start from.
\<close>

definition demo_platform :: platform where
  "demo_platform = \<lparr>libqflex = False, api_pause = False, api_stop = False, api_resume = False,
     stop_returns = False, fmt_incremental = 3, fopen_ok = True\<rparr>"

definition demo_node :: "bool \<Rightarrow> i64 \<Rightarrow> node" where
  "demo_node is_master t = \<lparr>platform = demo_platform, virt = t, host = 0, realtime = 0,
     eng = zero_engine\<lparr>master := is_master, msg_rec_poll_timer := Armed 50000\<rparr>, wwt = zero_wwt,
     comm = demo_comm, contexts = [], inflight = no_inflight, files = (\<lambda>_. None),
     current_cpu = Some 0, paused_cpu = None, cpu_stop = (\<lambda>_. False), calls = []\<rparr>"

end
