(* ===== verification/Utility.thy ===== *)
theory Utility
  imports Node_State
begin

text \<open>
  \<open>net/pdes-utility.c\<close>: the universal virtual time, the delivery of a packet at its virtual
  time, and the table that counts the SYNC messages of each round. The table's key is
  \<open>GUINT_TO_POINTER((guint)round)\<close>, the low 32 bits of the 64-bit round, and its value an \<open>int\<close>.
\<close>

definition get_universal_virtual_time :: "node \<Rightarrow> (node, i64) res" where
  "get_universal_virtual_time n =
     bindE (assertE Sync_Time_Unset (first_sync_virtual_time (eng n) \<noteq> -1)) (\<lambda>_.
     Inr (virt n - first_sync_virtual_time (eng n)))"

definition get_current_virtual_for_normal_message :: "node \<Rightarrow> (node, i64) res" where
  "get_current_virtual_for_normal_message n =
     bindE (get_universal_virtual_time n) (\<lambda>t. Inr (t + latencyns (eng n)))"

definition get_current_virtual_for_destroy_message :: "node \<Rightarrow> (node, i64) res" where
  "get_current_virtual_for_destroy_message n = get_universal_virtual_time n"

definition get_current_virtual_for_sync_message :: "node \<Rightarrow> (node, i64) res" where
  "get_current_virtual_for_sync_message n = get_universal_virtual_time n"

text \<open>
  \<open>process_message_at_virtual_time(ctx)\<close>: \<open>recv_cb\<close> is the final callback stored in the
  context; afterwards the timer and the context are freed.
\<close>

definition process_message_at_virtual_time ::
  "(u8 list \<Rightarrow> node \<Rightarrow> node) \<Rightarrow> receive_context \<Rightarrow> node \<Rightarrow> (node, node) res" where
  "process_message_at_virtual_time recv_cb ctx n =
     (let msg = ctx_msg ctx in
      if 0 < len msg \<and> mtype msg \<noteq> MSG_TYPE_SYNC \<and> has_recv_cb ctx
      then let n1 = recv_cb (payload msg) n
           in Inr (n1\<lparr>contexts := remove1 ctx (contexts n1)\<rparr>)
      else Inl (Assert_Failed Invalid_Receive_Context))"

definition sync_count_get :: "(u32 \<Rightarrow> i32 option) \<Rightarrow> u64 \<Rightarrow> i32" where
  "sync_count_get table round = (case table (ucast round) of None \<Rightarrow> 0 | Some v \<Rightarrow> v)"

definition sync_count_increment :: "(u32 \<Rightarrow> i32 option) \<Rightarrow> u64 \<Rightarrow> (u32 \<Rightarrow> i32 option)" where
  "sync_count_increment table round =
     table(ucast round \<mapsto> (case table (ucast round) of None \<Rightarrow> 0 | Some v \<Rightarrow> v) + 1)"

text \<open>The table seen as the number of SYNC messages received per key.\<close>

fun sync_count_all :: "(u32 \<Rightarrow> i32 option) \<Rightarrow> u64 list \<Rightarrow> (u32 \<Rightarrow> i32 option)" where
  "sync_count_all t [] = t"
| "sync_count_all t (r # rs) = sync_count_all (sync_count_increment t r) rs"

lemma sync_count_increment_get:
  "sync_count_get (sync_count_increment t r) r' =
     sync_count_get t r' + (if (ucast r :: u32) = ucast r' then 1 else 0)"
  by (simp add: sync_count_get_def sync_count_increment_def)

lemma sync_count_all_get:
  "sync_count_get (sync_count_all t rs) r =
     sync_count_get t r + of_nat (length (filter (\<lambda>x. (ucast x :: u32) = ucast r) rs))"
  by (induction rs arbitrary: t) (simp_all add: sync_count_increment_get)

lemma ucast_u32_inj:
  assumes "unat (a :: u64) < 2 ^ 32" and "unat (b :: u64) < 2 ^ 32"
  shows "(ucast a :: u32) = ucast b \<longleftrightarrow> a = b"
proof -
  have "unat (ucast a :: u32) = unat a" "unat (ucast b :: u32) = unat b"
    using assms by (simp_all add: unsigned_ucast_eq take_bit_nat_eq_self)
  then show ?thesis by (metis word_unat_eq_iff)
qed

lemma length_filter_eq_count: "length (filter (\<lambda>x. x = y) xs) = count_list xs y"
  by (induction xs) auto

text \<open>
  C35. Starting from the empty table, \<open>sync_count_get\<close> returns how many SYNC messages were
  counted for a round, for any sequence of rounds below \<open>2^32\<close>.
\<close>

theorem sync_count_counts:
  assumes "\<forall>x \<in> set (r # rs). unat x < 2 ^ 32"
  shows "sync_count_get (sync_count_all (\<lambda>_. None) rs) r = of_nat (count_list rs r)"
proof -
  have "filter (\<lambda>x. (ucast x :: u32) = ucast r) rs = filter (\<lambda>x. x = r) rs"
    using assms by (intro filter_cong) (auto simp: ucast_u32_inj)
  then show ?thesis
    by (simp add: sync_count_all_get length_filter_eq_count) (simp add: sync_count_get_def)
qed

theorem sync_count_counts_witness:
  "sync_count_get (sync_count_all (\<lambda>_. None) [3, 4, 3]) 3 = 2"
  using sync_count_counts[of 3 "[3, 4, 3]"] by simp

text \<open>
  C40. The count of a round is shared with every round \<open>2^32\<close> later: once a round's SYNC was
  counted, the round with the same low 32 bits reads as already synchronised although no SYNC
  was received for it.
\<close>

theorem sync_count_wraps:
  "sync_count_get (sync_count_increment t r) (r + 2 ^ 32) = sync_count_get t r + 1"
proof -
  have "(ucast (r + 2 ^ 32) :: u32) = ucast r"
  proof -
    have "unat (r + 2 ^ 32) mod 4294967296 = (unat r + 4294967296) mod 18446744073709551616 mod 4294967296"
      by (simp add: unat_word_ariths)
    also have "\<dots> = (unat r + 4294967296) mod 4294967296"
      by (rule mod_mod_cancel) simp
    finally have "unat (r + 2 ^ 32) mod 4294967296 = unat r mod 4294967296" by simp
    then show ?thesis
      by (simp add: word_unat_eq_iff unsigned_ucast_eq take_bit_eq_mod del: unat_plus_if_size)
  qed
  then show ?thesis by (simp add: sync_count_get_def sync_count_increment_def)
qed

end
