(* ===== verification/Engine.thy ===== *)
theory Engine
  imports Utility
begin

text \<open>
  \<open>net/pdes-engine.c\<close>: creation, the dispatch of received messages (exit handshake, checkpoint
  initiation, drain), polling, pausing and resuming the machine, and the entry points Flexus
  and QEMU call. \<open>get_singleton_wwt_engine()\<close> is the node's \<open>wwt\<close> field, the engine's
  receive callback an argument (\<open>recv_cb\<close>), code outside the repository an argument too.
\<close>

section \<open>Creation\<close>

text \<open>
  \<open>comm\<close> is what \<open>pdes_comm_create\<close> returned; the second result is the first virtual time
  seen, kept as \<open>first_sync_time\<close>.
\<close>

definition pdes_engine_create ::
  "bool \<Rightarrow> bool \<Rightarrow> i64 \<Rightarrow> i64 \<Rightarrow> bool \<Rightarrow> i64 \<Rightarrow> i64 \<Rightarrow> ('n, engine) res" where
  "pdes_engine_create singleton_set sync latency first_time is_master host_now virt_now =
     bindE (assertE Singleton_Exists (\<not> singleton_set)) (\<lambda>_.
     Inr (zero_engine\<lparr>needs_sync := sync, latencyns := latency,
            first_sync_virtual_time := first_time, master := is_master,
            msg_rec_poll_timer := Armed (host_now + 50000),
            first_sync_time := virt_now\<rparr>))"

section \<open>Sending\<close>

definition pdes_engine_send :: "message \<Rightarrow> node \<Rightarrow> (node, int \<times> node) res" where
  "pdes_engine_send m n =
     bindE (if first_sync_time (eng n) = -1
            then if mtype m = MSG_TYPE_SYNC
                 then Inr (n\<lparr>eng := (eng n)\<lparr>first_sync_time := virt n\<rparr>\<rparr>)
                 else Inl (Assert_Failed First_Message_Not_Sync)
            else Inr n) (comm_send m)"

text \<open>
  \<open>create_message(NULL, 0, ty, get_universal_virtual_time(engine))\<close> followed by
  \<open>pdes_comm_send\<close>, whose result the callers drop.
\<close>

definition send_control :: "u8 \<Rightarrow> node \<Rightarrow> (node, node) res" where
  "send_control ty n =
     bindE (get_universal_virtual_time n) (\<lambda>t.
     bindE (create_message [] 0 ty t) (\<lambda>m.
     bindE (comm_send m n) (\<lambda>(_, n1). Inr n1)))"

section \<open>The exit handshake\<close>

definition send_end_if_handshake_complete :: "node \<Rightarrow> (node, node) res" where
  "send_end_if_handshake_complete n =
     (if \<not> permitted_to_exit (eng n) then Inr n
      else if end_message_sent (eng n) then Inr n
      else send_control END_OF_EMULATION (n\<lparr>eng := (eng n)\<lparr>end_message_sent := True\<rparr>\<rparr>))"

definition notify_neighbours_of_end :: "node \<Rightarrow> (node, node) res" where
  "notify_neighbours_of_end n =
     (if notified_neighbors_for_exit (eng n) then Inr n
      else send_end_if_handshake_complete
             (n\<lparr>eng := (eng n)\<lparr>notified_neighbors_for_exit := True\<rparr>\<rparr>))"

definition destroy_strategy :: "node \<Rightarrow> node" where
  "destroy_strategy n =
     (if sync_check_timer (wwt n) \<noteq> No_Timer
      then n\<lparr>wwt := (wwt n)\<lparr>sync_check_timer := No_Timer\<rparr>\<rparr> else n)"

text \<open>
  With a checkpoint outstanding the process is left to the bottom half (which exits when its
  argument says so); otherwise it exits here.
\<close>

definition pdes_engine_destroy :: "node \<Rightarrow> (node, node) res" where
  "pdes_engine_destroy n =
     bindE (notify_neighbours_of_end n) (\<lambda>n1.
     if needs_to_checkpoint (eng n1)
     then Inr (n1\<lparr>eng := (eng n1)\<lparr>
            boundry_checkpoint_bh :=
              (if boundry_checkpoint_bh (eng n1) = None then Some True
               else boundry_checkpoint_bh (eng n1)),
            boundry_scheduled := True\<rparr>\<rparr>)
     else let n2 = destroy_strategy n1;
              n3 = (if libqflex (platform n2) then out_call Libqflex_Stop n2 else n2)
          in Inl (Exit_Process 0 n3))"

definition can_stop :: "node \<Rightarrow> (node, bool \<times> node) res" where
  "can_stop n =
     bindE
       (if \<not> master (eng n)
        then if \<not> intent_sent (eng n)
             then bindE (send_control INTENT_TO_END_EMULATION n) (\<lambda>n1.
                  Inr (n1\<lparr>eng := (eng n1)\<lparr>intent_sent := True\<rparr>\<rparr>))
             else Inr n
        else if 1 \<le> sint (ready_to_exit_neighbors (eng n)) \<and> \<not> permitted_to_exit (eng n)
             then bindE (send_control PERMISSION_TO_END_EMULATION
                          (n\<lparr>eng := (eng n)\<lparr>permitted_to_exit := True\<rparr>\<rparr>))
                    send_end_if_handshake_complete
             else Inr n) (\<lambda>n1.
     let n2 = n1\<lparr>eng := (eng n1)\<lparr>ready_to_exit := True\<rparr>\<rparr>
     in Inr (permitted_to_exit (eng n2) \<and> pair_has_finished (eng n2), n2))"

section \<open>Checkpoint initiation\<close>

definition init_warmed :: string where
  "init_warmed = ''init_warmed''"

definition set_checkpoint_values_for_master :: "node \<Rightarrow> node" where
  "set_checkpoint_values_for_master n =
     n\<lparr>eng := (eng n)\<lparr>notified_neighbors := False, needs_to_checkpoint := True,
         checkpoint_format := fmt_incremental (platform n),
         checkpoint_quantum_round := current_quantum_round (wwt n),
         checkpoint_name := init_warmed\<rparr>\<rparr>"

definition initiate_checkpoint_master ::
  "(string \<Rightarrow> u32 \<Rightarrow> node \<Rightarrow> (node, node) res) \<Rightarrow> node \<Rightarrow> (node, node) res" where
  "initiate_checkpoint_master save_snapshot n =
     bindE (assertE Only_Master_Initiates (master (eng n))) (\<lambda>_.
     bindE (save_snapshot init_warmed (fmt_incremental (platform n)) n) (\<lambda>n1.
     Inr (out_call Bh_Delete n1)))"

definition send_initiate_checkpoint_message :: "node \<Rightarrow> (node, int \<times> node) res" where
  "send_initiate_checkpoint_message n =
     bindE (send_control CHECKPOINT_INIT_STEP n) (\<lambda>n1. Inr (0, n1))"

definition finish_initiate_checkpoint :: "node \<Rightarrow> (node, node) res" where
  "finish_initiate_checkpoint n =
     (if master (eng n)
      then let n1 = n\<lparr>eng := (eng n)\<lparr>master_init := True\<rparr>\<rparr>
           in if 1 \<le> sint (init_flag (eng n1)) then Inr (set_checkpoint_values_for_master n1) else Inr n1
      else bindE (send_initiate_checkpoint_message n) (\<lambda>(i, n1).
           bindE (assertE Initiate_Not_Sent (i = 0)) (\<lambda>_. Inr n1)))"

definition pdes_drain :: "string \<Rightarrow> u32 \<Rightarrow> node \<Rightarrow> (node, int \<times> node) res" where
  "pdes_drain snapshot_name fmt n =
     bindE (if libqflex (platform n)
            then assertE Drain_Format (fmt = fmt_incremental (platform n)) else Inr ()) (\<lambda>_.
     bindE (if master (eng n)
            then bindE (send_control DRAIN_END
                          (n\<lparr>eng := (eng n)\<lparr>checkpoint_in_progress := True\<rparr>\<rparr>)) (\<lambda>n1.
                 Inr (n1\<lparr>eng := (eng n1)\<lparr>neighbour_drained := 0\<rparr>\<rparr>))
            else Inr n) (\<lambda>n1.
     Inr (0, n1\<lparr>files := snd (pdes_inflight_save_json (fopen_ok (platform n1)) snapshot_name
                              (inflight n1) (files n1))\<rparr>)))"

section \<open>Dispatching a received message\<close>

definition SIZEOF_FORMAT :: nat where "SIZEOF_FORMAT = 4"
definition SIZEOF_ROUND :: nat where "SIZEOF_ROUND = 8"
definition CHECKPOINT_NAME_SIZE :: nat where "CHECKPOINT_NAME_SIZE = 10006"

text \<open>
  The follower's half of the DRAIN_START arm: the payload is the name, the format and the
  round. \<open>name_len\<close> is unsigned 64-bit arithmetic; both copies are bounded by their arrays.
\<close>

definition name_len_of :: "message \<Rightarrow> u64" where
  "name_len_of msg = ucast (len msg) - of_nat SIZEOF_FORMAT - of_nat SIZEOF_ROUND"

definition parse_drain_start :: "message \<Rightarrow> ('n, string \<times> u32 \<times> u64) res" where
  "parse_drain_start msg =
     (let k = unat (name_len_of msg) in
      if MAX_MSG_SIZE < k \<or> CHECKPOINT_NAME_SIZE \<le> k \<or> MAX_MSG_SIZE < k + SIZEOF_FORMAT \<or>
         (SIZEOF_FORMAT + SIZEOF_ROUND \<le> unat (len msg) \<and>
            MAX_MSG_SIZE < k + SIZEOF_FORMAT + SIZEOF_ROUND)
      then Inl Out_Of_Bounds
      else let name = cstring (map char_of_byte (take k (data msg)));
               fmt = le_word (take SIZEOF_FORMAT (drop k (data msg)));
               round = (if SIZEOF_FORMAT + SIZEOF_ROUND \<le> unat (len msg)
                        then le_word (take SIZEOF_ROUND (drop (k + SIZEOF_FORMAT) (data msg))) else 0)
           in Inr (name, fmt, round))"

definition process_drain_start :: "message \<Rightarrow> node \<Rightarrow> (node, node) res" where
  "process_drain_start msg n =
     (let n1 = n\<lparr>eng := (eng n)\<lparr>checkpoint_in_progress := True\<rparr>\<rparr> in
      if \<not> master (eng n1)
      then bindE (parse_drain_start msg) (\<lambda>(name, fmt, round).
           Inr (n1\<lparr>eng := (eng n1)\<lparr>needs_to_checkpoint := True, checkpoint_name := name,
                 checkpoint_format := fmt, checkpoint_quantum_round := round\<rparr>\<rparr>))
      else Inr (n1\<lparr>eng := (eng n1)\<lparr>neighbour_drained := neighbour_drained (eng n1) + 1\<rparr>\<rparr>))"

definition process_drain_end :: "node \<Rightarrow> node" where
  "process_drain_end n =
     (if \<not> master (eng n) then n\<lparr>eng := (eng n)\<lparr>checkpoint_in_progress := False\<rparr>\<rparr> else n)"

definition process_init_step :: "node \<Rightarrow> node" where
  "process_init_step n =
     (let n1 = n\<lparr>eng := (eng n)\<lparr>init_flag := init_flag (eng n) + 1\<rparr>\<rparr> in
      if master (eng n1)
      then if init_flag (eng n1) = 1 \<and> master_init (eng n1)
           then set_checkpoint_values_for_master n1 else n1
      else n1)"

definition process_intent :: "node \<Rightarrow> node" where
  "process_intent n =
     (if master (eng n)
      then n\<lparr>eng := (eng n)\<lparr>ready_to_exit_neighbors := ready_to_exit_neighbors (eng n) + 1\<rparr>\<rparr>
      else n)"

definition process_permission :: "node \<Rightarrow> (node, node) res" where
  "process_permission n =
     send_end_if_handshake_complete (n\<lparr>eng := (eng n)\<lparr>permitted_to_exit := True\<rparr>\<rparr>)"

definition process_end :: "node \<Rightarrow> (node, node) res" where
  "process_end n =
     bindE (assertE End_Before_Permission (permitted_to_exit (eng n))) (\<lambda>_.
     Inr (n\<lparr>eng := (eng n)\<lparr>pair_has_finished := True\<rparr>\<rparr>))"

text \<open>What follows the callback: the sequence of tests on the type.\<close>

definition process_control :: "message \<Rightarrow> node \<Rightarrow> (node, node) res" where
  "process_control msg n =
     bindE (if mtype msg = INTENT_TO_END_EMULATION then Inr (process_intent n) else Inr n) (\<lambda>n.
     bindE (if mtype msg = PERMISSION_TO_END_EMULATION then process_permission n else Inr n) (\<lambda>n.
     bindE (if mtype msg = END_OF_EMULATION then process_end n else Inr n) (\<lambda>n.
     if mtype msg = DRAIN_START then process_drain_start msg n
     else if mtype msg = DRAIN_END then Inr (process_drain_end n)
     else if mtype msg = CHECKPOINT_INIT_STEP then Inr (process_init_step n)
     else Inr n)))"

definition process_message ::
  "(message \<Rightarrow> node \<Rightarrow> (node, node) res) \<Rightarrow> message \<Rightarrow> node \<Rightarrow> (node, node) res" where
  "process_message recv_cb msg n = bindE (recv_cb msg n) (process_control msg)"

section \<open>Polling\<close>

text \<open>
  The loop stops at \<open>NO_MESSAGE\<close> or at an error. A ring holds at most 8191 messages, so 8192
  turns are enough while the peer does not add any.
\<close>

fun poll_loop ::
  "nat \<Rightarrow> (message \<Rightarrow> node \<Rightarrow> (node, node) res) \<Rightarrow> node \<Rightarrow> (node, node) res" where
  "poll_loop 0 recv_cb n = Inl Out_Of_Fuel"
| "poll_loop (Suc k) recv_cb n =
     bindE (pdes_comm_recv (comm n) True) (\<lambda>(res, msg, c).
     let n1 = n\<lparr>comm := c\<rparr> in
     if res = NO_MESSAGE then Inr n1
     else if res < 0 then Inr n1
     else (case msg of
             None \<Rightarrow> Inr n1
           | Some m \<Rightarrow> bindE (process_message recv_cb m n1) (poll_loop k recv_cb)))"

definition pdes_engine_poll ::
  "(message \<Rightarrow> node \<Rightarrow> (node, node) res) \<Rightarrow> node \<Rightarrow> (node, node) res" where
  "pdes_engine_poll recv_cb n = poll_loop 8192 recv_cb n"

definition schedule_poll :: "node \<Rightarrow> (node, node) res" where
  "schedule_poll n =
     bindE (timer_mod (msg_rec_poll_timer (eng n)) (host n + 5000000)) (\<lambda>t.
     Inr (n\<lparr>eng := (eng n)\<lparr>msg_rec_poll_timer := t\<rparr>\<rparr>))"

section \<open>Pausing and resuming\<close>

definition pdes_pause_bh :: "node \<Rightarrow> node" where
  "pdes_pause_bh n =
     (let n1 = out_call Vm_Stop n in n1\<lparr>eng := (eng n1)\<lparr>pause_bh := False\<rparr>\<rparr>)"

definition pdes_pause :: "node \<Rightarrow> (node, node) res" where
  "pdes_pause n =
     (let n1 = n\<lparr>eng := (eng n)\<lparr>paused := True\<rparr>\<rparr>; p = platform n1 in
      bindE (if libqflex p
             then if api_pause p then Inr (out_call Flexus_Pause n1)
                  else if api_stop p then Inl (Assert_Failed Flexus_Api_Partial)
                  else Inr n1
             else Inr n1) (\<lambda>n2.
      bindE (assertE Pause_Bh_Pending (\<not> pause_bh (eng n2))) (\<lambda>_.
      let n3 = n2\<lparr>eng := (eng n2)\<lparr>pause_bh := True\<rparr>\<rparr> in
      Inr (if libqflex p then n3
           else (case current_cpu n3 of
                   None \<Rightarrow> n3
                 | Some c \<Rightarrow> n3\<lparr>paused_cpu := Some c, cpu_stop := (cpu_stop n3)(c := True)\<rparr>)))))"

definition pdes_play :: "node \<Rightarrow> (node, node) res" where
  "pdes_play n =
     (let p = platform n;
          n1 = (if libqflex p then n
                else (case paused_cpu n of
                        None \<Rightarrow> n
                      | Some c \<Rightarrow> n\<lparr>cpu_stop := (cpu_stop n)(c := False), paused_cpu := None\<rparr>));
          n2 = out_call Vm_Start n1
      in bindE (if libqflex p
                then if api_resume p then Inr (out_call Flexus_Resume n2)
                     else if api_stop p then Inl (Assert_Failed Flexus_Api_Partial)
                     else Inr n2
                else Inr n2) (\<lambda>n3.
         Inr (n3\<lparr>eng := (eng n3)\<lparr>paused := False\<rparr>\<rparr>)))"

end
