(* ===== verification/Checkpoint.thy ===== *)
theory Checkpoint
  imports Engine
begin

text \<open>
  The rest of \<open>net/pdes-checkpoint.c\<close>: which snapshots a node of a multi-node run may take
  (\<open>validate_checkpoint\<close>), the bottom half that takes one at a quantum boundary, and the
  rescheduling of saved packets. \<open>save_snapshot\<close> is QEMU's and is an argument.
\<close>

definition QPDES :: string where
  "QPDES = ''QPDES''"

text \<open>
  \<open>engine\<close> is \<open>get_singleton_engine()\<close>, NULL outside a multi-node run; \<open>name\<close> is
  \<open>*check_point_name\<close>, NULL for none. The results are the verdict, the name left in
  \<open>*check_point_name\<close> and the engine.
\<close>

definition validate_checkpoint ::
  "engine option \<Rightarrow> string option \<Rightarrow> bool \<times> string option \<times> engine option" where
  "validate_checkpoint e name =
     (case e of
        None \<Rightarrow> (True, name, e)
      | Some k \<Rightarrow>
          if \<not> master k
          then (case name of
                  None \<Rightarrow> (False, name, e)
                | Some s \<Rightarrow>
                    if 5 \<le> length s \<and> take 5 s = QPDES then (True, Some (drop 5 s), e)
                    else (False, name, e))
          else if name = Some init_warmed
          then if sint (init_flag k) < 1 then (False, name, Some (k\<lparr>master_init := True\<rparr>))
               else (True, name, e)
          else (True, name, e))"

definition create_checkpoint_bh ::
  "(string \<Rightarrow> u32 \<Rightarrow> node \<Rightarrow> (node, node) res) \<Rightarrow> bool \<Rightarrow> node \<Rightarrow> (node, node) res" where
  "create_checkpoint_bh save_snapshot exit_after n =
     (if \<not> needs_to_checkpoint (eng n) then Inr n
      else
        let n1 = n\<lparr>eng := (eng n)\<lparr>checkpoint_in_progress := False\<rparr>\<rparr> in
        bindE (save_snapshot (checkpoint_name (eng n1)) (checkpoint_format (eng n1)) n1) (\<lambda>n2.
        let n3 = n2\<lparr>eng := (eng n2)\<lparr>needs_to_checkpoint := False, notified_neighbors := False,
                    checkpoint_quantum_round := 0, boundry_checkpoint_bh := None,
                    boundry_scheduled := False, skip_boundry_check_after_checkpoint := True\<rparr>\<rparr> in
        bindE (if checkpoint_name (eng n3) = init_warmed \<and> master (eng n3)
               then pdes_engine_destroy n3 else Inr n3) (\<lambda>n4.
        if exit_after then Inl (Exit_Process 0 n4) else Inr n4)))"

text \<open>
  One iteration of \<open>pdes_inflight_restore_and_schedule\<close>: a context with its timer armed at
  the saved time, and the packet entered in the in-flight list again.
\<close>

definition restore_one :: "bool \<Rightarrow> message \<times> i64 \<Rightarrow> node \<Rightarrow> node" where
  "restore_one has_cb e n =
     n\<lparr>contexts := contexts n @ [\<lparr>has_recv_cb = has_cb, ctx_msg = fst e,
          one_time_poll_timer = Armed (snd e), timestamp_ns = snd e\<rparr>],
       inflight := pdes_inflight_add (fst e) (snd e) (inflight n)\<rparr>"

text \<open>\<open>fresh\<close> is what the memory added to the loaded array holds (\<open>Inflight\<close>).\<close>

definition pdes_inflight_restore_and_schedule ::
  "(nat \<Rightarrow> nat \<Rightarrow> u8) \<Rightarrow> string \<Rightarrow> bool \<Rightarrow> node \<Rightarrow> (node, int \<times> node) res" where
  "pdes_inflight_restore_and_schedule fresh base_name has_cb n =
     bindE (pdes_inflight_load_json fresh (fopen_ok (platform n)) (get_json_file_name base_name)
              (files n)) (\<lambda>arr.
     case arr of
       None \<Rightarrow> Inr (-1, n)
     | Some a \<Rightarrow>
         (case (arr_messages a, arr_scheduled_times a) of
            (Some ms, Some ts) \<Rightarrow>
              Inr (arr_count a, fold (restore_one has_cb) (take (nat (arr_count a)) (zip ms ts)) n)
          | _ \<Rightarrow> if 0 < arr_count a then Inl Null_Deref else Inr (arr_count a, n)))"

section \<open>Who may take a snapshot\<close>

text \<open>
  A follower takes a snapshot only when its name carries the mark the master's drain message
  puts there, and gets the master's name back with the mark stripped; a name without it is
  refused and left as it was. The master is refused only for the warm-up snapshot while its
  follower has not announced itself, and then remembers that it asked.
\<close>

theorem validate_checkpoint_verdict:
  "(case validate_checkpoint (Some k) (Some s) of (ok, name, k') \<Rightarrow>
     (\<not> master k \<longrightarrow> k' = Some k \<and>
        (if \<exists>t. s = QPDES @ t then ok \<and> QPDES @ the name = s else \<not> ok \<and> name = Some s)) \<and>
     (master k \<longrightarrow> name = Some s \<and> (ok \<longleftrightarrow> \<not> (s = init_warmed \<and> sint (init_flag k) < 1)) \<and>
        k' = Some (if ok then k else k\<lparr>master_init := True\<rparr>)))"
proof (cases "master k")
  case True
  then show ?thesis by (simp add: validate_checkpoint_def)
next
  case False
  have q: "(5 \<le> length s \<and> take 5 s = QPDES) \<longleftrightarrow> (\<exists>t. s = QPDES @ t)"
  proof
    assume "5 \<le> length s \<and> take 5 s = QPDES"
    then have "s = QPDES @ drop 5 s" by (metis append_take_drop_id)
    then show "\<exists>t. s = QPDES @ t" by blast
  qed (auto simp: QPDES_def)
  show ?thesis
  proof (cases "\<exists>t. s = QPDES @ t")
    case True
    then show ?thesis using False by (auto simp: validate_checkpoint_def QPDES_def)
  next
    case no: False
    then show ?thesis using False q by (simp add: validate_checkpoint_def)
  qed
qed


theorem validate_checkpoint_verdict_witness:
  "validate_checkpoint (Some zero_engine) (Some ''QPDESabc'') = (True, Some ''abc'', Some zero_engine)"
proof -
  have m: "\<not> master zero_engine" by (simp add: zero_engine_def)
  have q: "\<exists>t. ''QPDESabc'' = QPDES @ t" by (simp add: QPDES_def)
  obtain ok name k where v: "validate_checkpoint (Some zero_engine) (Some ''QPDESabc'') = (ok, name, k)"
    by (cases "validate_checkpoint (Some zero_engine) (Some ''QPDESabc'')") auto
  have "ok \<and> QPDES @ the name = ''QPDESabc'' \<and> k = Some zero_engine"
    using validate_checkpoint_verdict[of zero_engine "''QPDESabc''"] v m q by simp
  moreover from v m have "name = Some ''abc''" by (simp add: validate_checkpoint_def QPDES_def)
  ultimately show ?thesis using v by simp
qed

end
