(* ===== verification/Wwt.thy ===== *)
theory Wwt
  imports Checkpoint
begin

text \<open>
  \<open>net/pdes-wwt.c\<close>: the Wisconsin Wind Tunnel strategy. Time is cut into quanta; at the end of
  quantum \<open>r\<close> a node pauses, polls, sends SYNC \<open>r\<close> and waits until the peer's SYNC \<open>r\<close> was
  counted. Packets carry the universal time at which the receiver must deliver them.
\<close>

section \<open>Creation and setup\<close>

text \<open>\<open>comm\<close> is the communicator \<open>pdes_engine_create\<close> obtained (NULL when that failed).\<close>

definition pdes_engine_wwt_create ::
  "bool \<Rightarrow> bool \<Rightarrow> comm option \<Rightarrow> bool \<Rightarrow> i64 \<Rightarrow> bool \<Rightarrow> node \<Rightarrow> (node, node) res" where
  "pdes_engine_wwt_create wwt_singleton_set singleton_set c sync latency is_master n =
     bindE (assertE Singleton_Exists (\<not> wwt_singleton_set)) (\<lambda>_.
     bindE (pdes_engine_create singleton_set sync latency (virt n) is_master (host n) (virt n)) (\<lambda>e.
     let w = zero_wwt\<lparr>current_quantum_round := 0, quantum_ns := latency, wwt_latencyns := latency,
               number_of_neighbors := 1, number_of_neighbors_finished := 0, should_sync := sync,
               has_finished := False, setup_timer := Armed (virt n)\<rparr>;
         n1 = n\<lparr>eng := e, wwt := w, comm := c\<rparr>
     in Inr (if should_sync w then out_call (Icount_Set_Sleep False) n1 else n1)))"

definition setup_wwt :: "node \<Rightarrow> (node, node) res" where
  "setup_wwt n =
     (let current_time = virt n;
          n1 = n\<lparr>eng := (eng n)\<lparr>first_sync_virtual_time := current_time,
                              caclulated_time_diff := False\<rparr>,
                 wwt := (wwt n)\<lparr>quantum_timer := Armed 0, number_of_neighbors_finished := 0\<rparr>\<rparr>
      in bindE (get_universal_virtual_time n1) (\<lambda>_.
         bindE (timer_mod (msg_rec_poll_timer (eng n1)) (host n1 + 500000000)) (\<lambda>t.
         Inr (n1\<lparr>eng := (eng n1)\<lparr>msg_rec_poll_timer := t\<rparr>\<rparr>))))"

section \<open>Sending\<close>

definition send_sync :: "node \<Rightarrow> (node, node) res" where
  "send_sync n =
     (let round = current_quantum_round (wwt n) in
      bindE (get_current_virtual_for_sync_message n) (\<lambda>t.
      bindE (create_message (le_bytes SIZEOF_ROUND round) 8 MSG_TYPE_SYNC t) (\<lambda>m.
      bindE (pdes_engine_send m n) (\<lambda>(_, n1). Inr n1))))"

definition finish_quantum :: "node \<Rightarrow> (node, node) res" where
  "finish_quantum n = send_sync n"

definition wwt_send :: "u8 list \<Rightarrow> u64 \<Rightarrow> node \<Rightarrow> (node, int \<times> node) res" where
  "wwt_send buf n_bytes n =
     bindE (get_universal_virtual_time n) (\<lambda>current_virtual_time.
     let scheduled_time = current_virtual_time + wwt_latencyns (wwt n) in
     bindE (create_message buf n_bytes MSG_TYPE_NORMAL scheduled_time) (\<lambda>m.
     pdes_engine_send m n))"

section \<open>Receiving\<close>

definition sync_round_of :: "message \<Rightarrow> u64" where
  "sync_round_of msg =
     (if SIZEOF_ROUND \<le> unat (len msg) then le_word (take SIZEOF_ROUND (data msg)) else 0)"

definition valid_round :: "wwt \<Rightarrow> u64 \<Rightarrow> bool" where
  "valid_round w r \<longleftrightarrow> r = current_quantum_round w \<or>
     (finished_quantum w \<and> r = current_quantum_round w + 1)"

definition receive_sync :: "message \<Rightarrow> node \<Rightarrow> (node, node) res" where
  "receive_sync msg n =
     (let r = sync_round_of msg in
      bindE (if should_sync (wwt n) then assertE Wrong_Quantum_Round (valid_round (wwt n) r)
             else Inr ()) (\<lambda>_.
      Inr (n\<lparr>wwt := (wwt n)\<lparr>sync_counts := sync_count_increment (sync_counts (wwt n)) r\<rparr>\<rparr>)))"

text \<open>The comparisons are between \<open>int64_t\<close> values, hence signed.\<close>

definition receive_normal :: "message \<Rightarrow> i64 \<Rightarrow> node \<Rightarrow> (node, node) res" where
  "receive_normal msg now n =
     (let translated_time = ts_ns msg in
      bindE (if should_sync (wwt n)
             then bindE (assertE Message_In_Past (\<not> sint translated_time < sint now)) (\<lambda>_.
                  Inr translated_time)
             else Inr (if sint (now + 1) < sint translated_time then translated_time else now + 1))
        (\<lambda>processing_time.
      let raw = processing_time + first_sync_virtual_time (eng n)
      in Inr (n\<lparr>contexts := contexts n @ [\<lparr>has_recv_cb = True, ctx_msg = msg,
                  one_time_poll_timer = Armed raw, timestamp_ns = raw\<rparr>]\<rparr>)))"

definition wwt_recivied_callback :: "message \<Rightarrow> node \<Rightarrow> (node, node) res" where
  "wwt_recivied_callback msg n =
     bindE (get_universal_virtual_time n) (\<lambda>now.
     if mtype msg = MSG_TYPE_SYNC then receive_sync msg n
     else if mtype msg = MSG_TYPE_NORMAL then receive_normal msg now n
     else Inr n)"

definition poll :: "node \<Rightarrow> (node, node) res" where
  "poll n = pdes_engine_poll wwt_recivied_callback n"

definition is_waiting_for_quanta :: "node \<Rightarrow> (node, bool \<times> node) res" where
  "is_waiting_for_quanta n =
     bindE (poll n) (\<lambda>n1.
     let count = sync_count_get (sync_counts (wwt n1)) (current_quantum_round (wwt n1))
     in Inr (sint count < 1 \<and> should_sync (wwt n1), n1))"

definition get_quantum_time_universal :: "i64 \<Rightarrow> node \<Rightarrow> i64" where
  "get_quantum_time_universal r n = r * quantum_ns (wwt n)"

definition get_quantum_time_local :: "i64 \<Rightarrow> node \<Rightarrow> i64" where
  "get_quantum_time_local r n =
     get_quantum_time_universal r n + first_sync_virtual_time (eng n)"

section \<open>Telling the follower to checkpoint\<close>

definition SNAPSHOT_BUFFER :: nat where "SNAPSHOT_BUFFER = 1006"

text \<open>
  The payload is built in a stack buffer of 1006 bytes: \<open>snprintf\<close> of the marked name, then
  the format and the round copied behind it. The length test is made before the copies. The
  result is \<open>None\<close> where the function ends without a \<open>return\<close>.
\<close>

definition notify_neighbors_for_drain ::
  "string \<Rightarrow> u32 \<Rightarrow> node \<Rightarrow> (node, int option \<times> node) res" where
  "notify_neighbors_for_drain snapshot_name fmt n =
     bindE (assertE Drain_Not_Needed (needs_to_checkpoint (eng n))) (\<lambda>_.
     if notified_neighbors (eng n) then Inr (Some 0, n)
     else
       let n1 = n\<lparr>eng := (eng n)\<lparr>notified_neighbors := True\<rparr>\<rparr>;
           text = QPDES @ snapshot_name;
           k = length text
       in if SNAPSHOT_BUFFER \<le> k then Inr (Some (-1), n1)
          else if SNAPSHOT_BUFFER < k + SIZEOF_FORMAT + SIZEOF_ROUND then Inl Out_Of_Bounds
          else
            let bytes = map byte_of_char text @ le_bytes SIZEOF_FORMAT fmt @
                        le_bytes SIZEOF_ROUND (current_quantum_round (wwt n1))
            in bindE (get_universal_virtual_time n1) (\<lambda>t.
               bindE (create_message bytes (of_nat (length bytes)) DRAIN_START t) (\<lambda>m.
               bindE (comm_send m n1) (\<lambda>(_, n2). Inr (None, n2)))))"

text \<open>The notification both callers make, unless it was made.\<close>

definition notify_if_needed :: "node \<Rightarrow> (node, node) res" where
  "notify_if_needed n =
     (if needs_to_checkpoint (eng n) \<and> \<not> notified_neighbors (eng n)
      then bindE (notify_neighbors_for_drain (checkpoint_name (eng n)) (checkpoint_format (eng n)) n)
             (\<lambda>(_, n1). Inr n1)
      else Inr n)"

text \<open>
  Not there yet, exactly at the checkpoint's round (then the bottom half is scheduled and the
  check comes back in 10 ms), or already past it.
\<close>

definition checkpoint_at_boundary :: "node \<Rightarrow> (node, bool \<times> node) res" where
  "checkpoint_at_boundary n =
     (let r = current_quantum_round (wwt n); c = checkpoint_quantum_round (eng n) in
      if r < c \<and> should_sync (wwt n) then Inr (False, n)
      else if r = c \<or> \<not> should_sync (wwt n)
      then let e = (if boundry_checkpoint_bh (eng n) = None
                    then (eng n)\<lparr>boundry_checkpoint_bh := Some False, boundry_scheduled := True\<rparr>
                    else eng n)
           in bindE (timer_mod (sync_check_timer (wwt n)) (realtime n + 10000000)) (\<lambda>t.
              Inr (True, n\<lparr>eng := e, wwt := (wwt n)\<lparr>sync_check_timer := t\<rparr>\<rparr>))
      else Inl (Assert_Failed Checkpoint_Round_Passed))"

definition sync_checkpoint_check :: "node \<Rightarrow> (node, bool \<times> node) res" where
  "sync_checkpoint_check n =
     (if needs_to_checkpoint (eng n) then bindE (notify_if_needed n) checkpoint_at_boundary
      else Inr (False, n))"

section \<open>The barrier\<close>

text \<open>
  The body of the waiting loop once the peer's END has been seen. The first result says that
  \<open>wwt_sync_check\<close> returns here.
\<close>

definition peer_has_finished :: "node \<Rightarrow> (node, bool \<times> node) res" where
  "peer_has_finished n =
     bindE (assertE Finished_Not_Permitted (permitted_to_exit (eng n))) (\<lambda>_.
     bindE (if libqflex (platform n) \<and> api_stop (platform n)
            then if stop_returns (platform n) then Inr (out_call Flexus_Stop n)
                 else Inl (Exit_Process 0 (out_call Flexus_Stop n))
            else Inr n) (\<lambda>n1.
     bindE (pdes_engine_destroy n1) (\<lambda>n2. Inr (True, n2))))"

text \<open>
  \<open>while (waiting)\<close>: the list says what the peer does to the shared memory before each turn.
  When it is used up with the condition still true, the loop has not ended.
\<close>

fun sync_wait_loop ::
  "(comm option \<Rightarrow> comm option) list \<Rightarrow> node \<Rightarrow> (node, bool \<times> node) res" where
  "sync_wait_loop [] n = Inl (Still_Waiting n)"
| "sync_wait_loop (p # ps) n =
     bindE (poll (n\<lparr>comm := p (comm n)\<rparr>)) (\<lambda>n1.
     if pair_has_finished (eng n1) then peer_has_finished n1
     else bindE (is_waiting_for_quanta n1) (\<lambda>(waiting, n2).
          if waiting then sync_wait_loop ps n2 else Inr (False, n2)))"

definition grant_permission :: "node \<Rightarrow> (node, node) res" where
  "grant_permission n =
     (if master (eng n) \<and> 1 \<le> sint (ready_to_exit_neighbors (eng n)) \<and> ready_to_exit (eng n) \<and>
         \<not> permitted_to_exit (eng n)
      then bindE (send_control PERMISSION_TO_END_EMULATION
                    (n\<lparr>eng := (eng n)\<lparr>permitted_to_exit := True\<rparr>\<rparr>))
             send_end_if_handshake_complete
      else Inr n)"

definition start_next_quantum :: "node \<Rightarrow> (node, node) res" where
  "start_next_quantum n =
     (let w = wwt n;
          w1 = w\<lparr>number_of_neighbors_finished :=
                   number_of_neighbors_finished w - number_of_neighbors w,
                 current_quantum_round := current_quantum_round w + 1,
                 finished_quantum := False\<rparr>;
          next_local = current_quantum_round w1 * quantum_ns w1 + first_sync_virtual_time (eng n)
      in bindE (timer_mod (quantum_timer w1) next_local) (\<lambda>t.
         let n1 = n\<lparr>wwt := w1\<lparr>quantum_timer := t\<rparr>\<rparr>
         in if should_sync (wwt n1) then pdes_play n1 else Inr n1))"

text \<open>What \<open>wwt_sync_check\<close> does when it no longer waits.\<close>

definition pass_barrier :: "node \<Rightarrow> (node, node) res" where
  "pass_barrier n =
     bindE (sync_checkpoint_check
              (n\<lparr>eng := (eng n)\<lparr>skip_boundry_check_after_checkpoint := False\<rparr>\<rparr>)) (\<lambda>(again, n1).
     if again then Inr n1
     else bindE (grant_permission (n1\<lparr>wwt := (wwt n1)\<lparr>sync_check_timer := No_Timer\<rparr>\<rparr>))
            start_next_quantum)"

text \<open>The function from the head of the waiting loop on.\<close>

definition wait_and_pass ::
  "(comm option \<Rightarrow> comm option) list \<Rightarrow> node \<Rightarrow> (node, node) res" where
  "wait_and_pass peer n =
     bindE (sync_wait_loop peer n) (\<lambda>(returned, n1).
     if returned then Inr n1 else pass_barrier n1)"

definition wwt_sync_check ::
  "(comm option \<Rightarrow> comm option) list \<Rightarrow> node \<Rightarrow> (node, node) res" where
  "wwt_sync_check peer n =
     bindE (is_waiting_for_quanta n) (\<lambda>(waiting, n1).
     if waiting then wait_and_pass peer n1 else pass_barrier n1)"

definition quanta_sync :: "node \<Rightarrow> (node, node) res" where
  "quanta_sync n =
     (let n1 = n\<lparr>wwt := (wwt n)\<lparr>finished_quantum := True\<rparr>\<rparr> in
      bindE (if should_sync (wwt n1) then pdes_pause n1 else Inr n1) (\<lambda>n2.
      bindE (poll n2) (\<lambda>n3.
      bindE (notify_if_needed n3) (\<lambda>n4.
      bindE (if should_sync (wwt n4) then send_sync n4 else Inr n4) (\<lambda>n5.
      bindE (assertE Sync_Check_Timer_Set (sync_check_timer (wwt n5) = No_Timer)) (\<lambda>_.
      Inr (n5\<lparr>wwt := (wwt n5)\<lparr>sync_check_timer := Armed (realtime n5 + 1)\<rparr>\<rparr>)))))))"


text \<open>
  \<open>quanta_sync\<close> in two halves, cut where it starts to poll: the peer can send in between, and
  while the poll runs.
\<close>

definition quanta_begin :: "node \<Rightarrow> (node, node) res" where
  "quanta_begin n =
     (let n1 = n\<lparr>wwt := (wwt n)\<lparr>finished_quantum := True\<rparr>\<rparr> in
      if should_sync (wwt n1) then pdes_pause n1 else Inr n1)"

definition quanta_rest :: "node \<Rightarrow> (node, node) res" where
  "quanta_rest n2 =
     bindE (poll n2) (\<lambda>n3.
     bindE (notify_if_needed n3) (\<lambda>n4.
     bindE (if should_sync (wwt n4) then send_sync n4 else Inr n4) (\<lambda>n5.
     bindE (assertE Sync_Check_Timer_Set (sync_check_timer (wwt n5) = No_Timer)) (\<lambda>_.
     Inr (n5\<lparr>wwt := (wwt n5)\<lparr>sync_check_timer := Armed (realtime n5 + 1)\<rparr>\<rparr>)))))"

lemma quanta_sync_halves: "quanta_sync n = bindE (quanta_begin n) quanta_rest"
  unfolding quanta_sync_def quanta_begin_def quanta_rest_def Let_def ..

end
