(* ===== verification/Drain.thy ===== *)
theory Drain
  imports Wwt
begin

text \<open>
  The drain message end to end: what \<open>notify_neighbors_for_drain\<close> puts on the wire is what the
  DRAIN_START arm of \<open>process_message\<close> reads back, and \<open>validate_checkpoint\<close> then accepts the
  name; and the two lengths for which the code reads or writes outside its buffers.
\<close>

definition drain_payload :: "string \<Rightarrow> u32 \<Rightarrow> u64 \<Rightarrow> u8 list" where
  "drain_payload name fmt r =
     map byte_of_char (QPDES @ name) @ le_bytes SIZEOF_FORMAT fmt @ le_bytes SIZEOF_ROUND r"

lemma length_QPDES [simp]: "length QPDES = 5"
  by (simp add: QPDES_def)

lemma nul_notin_QPDES [simp]: "CHR 0x00 \<notin> set QPDES"
  by (simp add: QPDES_def)

lemma length_drain_payload [simp]: "length (drain_payload name fmt r) = length name + 17"
  by (simp add: drain_payload_def SIZEOF_FORMAT_def SIZEOF_ROUND_def)

lemma name_len_drain:
  assumes "unat (len m) = k + 12" and "k \<le> 2036"
  shows "unat (name_len_of m) = k"
proof -
  have "unat (ucast (len m) :: u64) = k + 12"
    using assms by (simp add: unsigned_ucast_eq take_bit_nat_eq_self)
  then have "unat ((ucast (len m) :: u64) - 12) = k"
    by (simp add: unat_sub word_le_nat_alt)
  then show ?thesis by (simp add: name_len_of_def SIZEOF_FORMAT_def SIZEOF_ROUND_def)
qed

lemma parse_drain_payload:
  assumes "length name \<le> 989" and "CHR 0x00 \<notin> set name"
    and "data m = drain_payload name fmt r @ rest" and "unat (len m) = length name + 17"
  shows "parse_drain_start m = Inr (QPDES @ name, fmt, r)"
proof -
  have k: "unat (name_len_of m) = length name + 5"
    using assms name_len_drain[of m "length name + 5"] by simp
  have t: "take (length name + 5) (data m) = map byte_of_char (QPDES @ name)"
    using assms(3) by (simp add: drain_payload_def)
  have d: "drop (length name + 5) (data m) = le_bytes 4 fmt @ le_bytes 8 r @ rest"
    using assms(3) by (simp add: drain_payload_def SIZEOF_FORMAT_def SIZEOF_ROUND_def)
  then have d2: "drop (9 + length name) (data m) = le_bytes 8 r @ rest"
    using drop_drop[of 4 "length name + 5" "data m"] by (simp add: add.commute)
  have "CHR 0x00 \<notin> set (QPDES @ name)" using assms(2) by simp
  then show ?thesis
    using assms(1,4) k t d d2
    by (simp add: parse_drain_start_def Let_def MAX_MSG_SIZE_def CHECKPOINT_NAME_SIZE_def
        SIZEOF_FORMAT_def SIZEOF_ROUND_def del: map_append)
qed

lemma notify_returns:
  assumes "notify_neighbors_for_drain name fmt n = Inr (i, n')" and "comm_wf (comm n)"
    and "\<not> notified_neighbors (eng n)" and "length name \<le> 989"
  shows "\<exists>m c. n' = n\<lparr>eng := (eng n)\<lparr>notified_neighbors := True\<rparr>, comm := c\<rparr> \<and> comm_wf c \<and>
    tx_list c = tx_list (comm n) @ [m] \<and> rx_list c = rx_list (comm n) \<and> mtype m = DRAIN_START \<and>
    unat (len m) = length name + 17 \<and>
    data m = drain_payload name fmt (current_quantum_round (wwt n)) @
      replicate (MAX_MSG_SIZE - (length name + 17)) 0"
proof -
  let ?n = "n\<lparr>eng := (eng n)\<lparr>notified_neighbors := True\<rparr>\<rparr>"
  let ?b = "drain_payload name fmt (current_quantum_round (wwt n))"
  have b: "length ?b \<le> MAX_MSG_SIZE" using assms(4) by (simp add: MAX_MSG_SIZE_def)
  have u: "unat (word_of_nat (length ?b) :: u64) = length name + 17"
    using assms(4) by (simp only: unat_of_nat length_drain_payload) simp
  then have u32: "unat (ucast (word_of_nat (length ?b) :: u64) :: u32) = length name + 17"
    using unat_ucast_u32[of "word_of_nat (length ?b)"] b by simp
  from assms obtain t m where
    m: "create_message ?b (of_nat (length ?b)) DRAIN_START t = (Inr m :: (node, message) res)"
    and s: "\<exists>j. comm_send m ?n = Inr (j, n')"
    by (auto simp: notify_neighbors_for_drain_def drain_payload_def SNAPSHOT_BUFFER_def
        SIZEOF_FORMAT_def SIZEOF_ROUND_def Let_def assertE_Inr_iff elim!: bindE_InrE split: if_splits)
  from s obtain c where "n' = ?n\<lparr>comm := c\<rparr>" and "comm_wf c" and "tx_list c = tx_list (comm n) @ [m]"
    and "rx_list c = rx_list (comm n)"
    using comm_send_returns[of m ?n _ n'] assms(2) by auto
  moreover have "mtype m = DRAIN_START" and "unat (len m) = length name + 17"
    and "data m = ?b @ replicate (MAX_MSG_SIZE - (length name + 17)) 0"
    using m u u32 by (simp_all add: create_message_Inr_iff)
  ultimately show ?thesis by blast
qed

text \<open>
  C19. The drain message survives the wire: when the master's notification returns, the
  last message on its sending ring parses, at the follower, to the marked name, the format and
  the master's quantum round, for every NUL-free name of at most 989 characters; and the
  follower's \<open>validate_checkpoint\<close> accepts that name and hands the master's name on.
\<close>

theorem drain_roundtrip:
  assumes "notify_neighbors_for_drain name fmt n = Inr (i, n')" and "comm_wf (comm n)"
    and "\<not> notified_neighbors (eng n)" and "length name \<le> 989" and "CHR 0x00 \<notin> set name"
    and "\<not> master (eng f)"
  shows "\<exists>m. tx_list (comm n') = tx_list (comm n) @ [m] \<and>
    process_control m f = Inr (f\<lparr>eng := (eng f)\<lparr>checkpoint_in_progress := True,
      needs_to_checkpoint := True, checkpoint_name := QPDES @ name, checkpoint_format := fmt,
      checkpoint_quantum_round := current_quantum_round (wwt n)\<rparr>\<rparr>) \<and>
    validate_checkpoint (Some (eng f)) (Some (QPDES @ name)) = (True, Some name, Some (eng f))"
proof -
  obtain m c where n': "n' = n\<lparr>eng := (eng n)\<lparr>notified_neighbors := True\<rparr>, comm := c\<rparr>"
    and tx: "tx_list c = tx_list (comm n) @ [m]" and ty: "mtype m = DRAIN_START"
    and l: "unat (len m) = length name + 17"
    and d: "data m = drain_payload name fmt (current_quantum_round (wwt n)) @
      replicate (MAX_MSG_SIZE - (length name + 17)) 0"
    using notify_returns[OF assms(1-4)] by blast
  have p: "(parse_drain_start m :: (node, string \<times> u32 \<times> u64) res) =
      Inr (QPDES @ name, fmt, current_quantum_round (wwt n))"
    by (rule parse_drain_payload[OF assms(4,5) d l])
  have "process_control m f = Inr (f\<lparr>eng := (eng f)\<lparr>checkpoint_in_progress := True,
      needs_to_checkpoint := True, checkpoint_name := QPDES @ name, checkpoint_format := fmt,
      checkpoint_quantum_round := current_quantum_round (wwt n)\<rparr>\<rparr>)"
    using assms(6) p ty
    by (simp add: process_control_def process_drain_start_def msg_type_defs)
  then show ?thesis
    using n' tx assms(6) by (auto simp: validate_checkpoint_def)
qed

text \<open>The master of a concrete pair asks for the snapshot ``abc'' in round 7.\<close>

definition draining_node :: node where
  "draining_node = (demo_node True 5)\<lparr>eng := (eng (demo_node True 5))\<lparr>needs_to_checkpoint := True\<rparr>,
     wwt := zero_wwt\<lparr>current_quantum_round := 7\<rparr>\<rparr>"

lemma draining_node_simps [simp]:
  "comm draining_node = demo_comm" "virt draining_node = 5"
  "current_quantum_round (wwt draining_node) = 7" "\<not> notified_neighbors (eng draining_node)"
  "needs_to_checkpoint (eng draining_node)" "first_sync_virtual_time (eng draining_node) = 0"
  by (simp_all add: draining_node_def demo_node_def zero_engine_def)

lemma draining_node_notifies:
  "\<exists>i n'. notify_neighbors_for_drain ''abc'' 2 draining_node = Inr (i, n')"
proof -
  let ?n = "draining_node\<lparr>eng := (eng draining_node)\<lparr>notified_neighbors := True\<rparr>\<rparr>"
  let ?b = "drain_payload ''abc'' 2 7"
  obtain m where m: "create_message ?b (of_nat (length ?b)) DRAIN_START 5 = (Inr m :: (node, message) res)"
    by (simp add: create_message_def MAX_MSG_SIZE_def)
  obtain c where "comm_send m ?n = Inr (0, ?n\<lparr>comm := c\<rparr>)"
    using comm_send_returns_iff[of ?n m] by auto
  with m show ?thesis
    by (simp add: notify_neighbors_for_drain_def drain_payload_def SNAPSHOT_BUFFER_def
        SIZEOF_FORMAT_def SIZEOF_ROUND_def Let_def get_universal_virtual_time_def assertE_def)
qed

theorem drain_roundtrip_witness:
  "\<exists>i n' m. notify_neighbors_for_drain ''abc'' 2 draining_node = Inr (i, n') \<and>
    tx_list (comm n') = [m] \<and>
    process_control m (demo_node False 9) = Inr ((demo_node False 9)\<lparr>eng :=
      (eng (demo_node False 9))\<lparr>checkpoint_in_progress := True, needs_to_checkpoint := True,
        checkpoint_name := ''QPDESabc'', checkpoint_format := 2, checkpoint_quantum_round := 7\<rparr>\<rparr>)"
proof -
  obtain i n' where n': "notify_neighbors_for_drain ''abc'' 2 draining_node = Inr (i, n')"
    using draining_node_notifies by blast
  have "\<not> master (eng (demo_node False 9))" by (simp add: demo_node_def)
  then show ?thesis
    using drain_roundtrip[OF n', of "demo_node False 9"] n' by (auto simp: QPDES_def)
qed

text \<open>
  C38. A checkpoint name of 990 to 1000 characters passes the length test of
  \<open>notify_neighbors_for_drain\<close> and then overruns the stack buffer of 1006 bytes.
\<close>

theorem notify_overruns_buffer:
  assumes "needs_to_checkpoint (eng n)" and "\<not> notified_neighbors (eng n)"
    and "990 \<le> length name" and "length name \<le> 1000"
  shows "notify_neighbors_for_drain name fmt n = Inl Out_Of_Bounds"
  using assms
  by (simp add: notify_neighbors_for_drain_def SNAPSHOT_BUFFER_def SIZEOF_FORMAT_def
      SIZEOF_ROUND_def Let_def)

theorem notify_overruns_buffer_witness:
  "notify_neighbors_for_drain (replicate 995 (CHR ''x'')) 2 draining_node = Inl Out_Of_Bounds"
  by (rule notify_overruns_buffer) simp_all

text \<open>
  C39. A DRAIN_START of fewer than 12 payload bytes makes the unsigned \<open>name_len\<close> wrap to almost
  \<open>2^64\<close>: the follower copies out of bounds before the code looks at the length.
\<close>

theorem short_drain_out_of_bounds:
  assumes "unat (len m) < 12" and "\<not> master (eng n)" and "mtype m = DRAIN_START"
  shows "unat (name_len_of m) = 2 ^ 64 - (12 - unat (len m)) \<and>
    process_control m n = Inl Out_Of_Bounds"
proof -
  have u: "unat (ucast (len m) :: u64) = unat (len m)"
    using assms(1) by (simp add: unsigned_ucast_eq take_bit_nat_eq_self)
  have "unat ((ucast (len m) :: u64) - 12) = 2 ^ 64 - (12 - unat (len m))"
    using assms(1) u by (simp add: unat_sub_if_size word_size)
  then have k: "unat (name_len_of m) = 2 ^ 64 - (12 - unat (len m))"
    by (simp add: name_len_of_def SIZEOF_FORMAT_def SIZEOF_ROUND_def)
  then have "(parse_drain_start m :: (node, string \<times> u32 \<times> u64) res) = Inl Out_Of_Bounds"
    using assms(1) by (simp add: parse_drain_start_def Let_def MAX_MSG_SIZE_def)
  then show ?thesis
    using k assms(2,3) by (simp add: process_control_def process_drain_start_def msg_type_defs)
qed


theorem short_drain_out_of_bounds_witness:
  "unat (name_len_of (zero_message\<lparr>len := 4, mtype := DRAIN_START\<rparr>)) = 2 ^ 64 - 8 \<and>
    process_control (zero_message\<lparr>len := 4, mtype := DRAIN_START\<rparr>) (demo_node False 0) = Inl Out_Of_Bounds"
  using short_drain_out_of_bounds[of "zero_message\<lparr>len := 4, mtype := DRAIN_START\<rparr>" "demo_node False 0"]
  by (simp add: demo_node_def)

end
