(* ===== verification/Netdev.thy ===== *)
theory Netdev
  imports Wwt
begin

text \<open>
  \<open>net/pdes-netdev.c\<close>: the network backend. A frame from the guest is handed to
  \<open>wwt_send\<close>; a packet whose time has come goes to \<open>qemu_send_packet\<close>.
\<close>

text \<open>The result is the send's error or the size taken.\<close>

definition pdes_net_receive :: "u8 list \<Rightarrow> u64 \<Rightarrow> node \<Rightarrow> (node, int \<times> node) res" where
  "pdes_net_receive buf n_bytes n =
     bindE (wwt_send buf n_bytes n) (\<lambda>(ret, n1).
     Inr (if ret < 0 then ret else uint n_bytes, n1))"

definition pdes_recv_callback :: "u8 list \<Rightarrow> node \<Rightarrow> node" where
  "pdes_recv_callback bytes n = out_call (Send_Packet bytes) n"

text \<open>
  \<open>net_init_pdes\<close>: the engine is created with the options of the netdev; the result is 0.
\<close>

definition net_init_pdes ::
  "bool \<Rightarrow> bool \<Rightarrow> comm option \<Rightarrow> bool \<Rightarrow> i64 \<Rightarrow> bool \<Rightarrow> node \<Rightarrow> (node, int \<times> node) res" where
  "net_init_pdes wwt_set engine_set c sync latency is_master n =
     bindE (pdes_engine_wwt_create wwt_set engine_set c sync latency is_master n) (\<lambda>n1. Inr (0, n1))"

text \<open>
  \<open>pdes_net_cleanup\<close>: the field \<open>engine\<close> of \<open>PDESNetState\<close>, whether set or NULL, is a \<open>PDESWWT\<close>, and is
  handed to \<open>pdes_engine_destroy\<close>, which reads a \<open>PDESEngine\<close> there in its first statement.
\<close>

definition pdes_net_cleanup :: "bool \<Rightarrow> node \<Rightarrow> (node, node) res" where
  "pdes_net_cleanup engine_set n = (if engine_set then Inl Wrong_Struct else Inr n)"

section \<open>Frames the wire format cannot carry\<close>

text \<open>
  C37. A frame of more than 2048 bytes is copied past the end of the message: neither the backend nor
  \<open>create_message\<close> looks at the length.
\<close>

theorem long_frame_out_of_bounds:
  assumes "first_sync_virtual_time (eng n) \<noteq> -1" and "MAX_MSG_SIZE < unat n_bytes"
  shows "pdes_net_receive buf n_bytes n = Inl Out_Of_Bounds"
  using assms
  by (simp add: pdes_net_receive_def wwt_send_def get_universal_virtual_time_def create_message_def Let_def)

theorem long_frame_out_of_bounds_witness:
  "pdes_net_receive (replicate 9000 0) 9000 (demo_node True 5) = Inl Out_Of_Bounds"
  by (rule long_frame_out_of_bounds)
    (simp_all add: MAX_MSG_SIZE_def demo_node_def zero_engine_def)

text \<open>
  C36. An empty frame ends the peer: it is queued like any packet, whichever node takes it from the
  ring schedules its delivery, and the delivery trips the assertion on the message.
\<close>

theorem empty_frame_trips_assertion:
  assumes "pdes_net_receive buf 0 a = Inr (i, a')" and "comm_wf (comm a)"
    and "first_sync_time (eng a) \<noteq> -1"
  shows "\<exists>x. tx_list (comm a') = tx_list (comm a) @ [x] \<and>
    (\<forall>b b'. wwt_recivied_callback x b = Inr b' \<longrightarrow>
      (\<exists>c. contexts b' = contexts b @ [c] \<and>
        (\<forall>n. process_message_at_virtual_time pdes_recv_callback c n =
          Inl (Assert_Failed Invalid_Receive_Context))))"
proof -
  from assms(1) obtain ts x j where
    x: "create_message buf 0 MSG_TYPE_NORMAL ts = (Inr x :: (node, message) res)"
    and s: "pdes_engine_send x a = Inr (j, a')"
    by (auto simp: pdes_net_receive_def wwt_send_def Let_def elim!: bindE_InrE)
  have xs: "len x = 0" "mtype x = MSG_TYPE_NORMAL" using x by (simp_all add: create_message_Inr_iff)
  have "tx_list (comm a') = tx_list (comm a) @ [x]"
    using s assms(2,3) comm_send_returns[of x a] by (auto simp: pdes_engine_send_def)
  moreover have "\<exists>c. contexts b' = contexts b @ [c] \<and> ctx_msg c = x"
    if "wwt_recivied_callback x b = Inr b'" for b b'
    using that xs(2)
    by (auto simp: wwt_recivied_callback_def receive_normal_def msg_type_defs Let_def
        elim!: bindE_InrE split: if_splits)
  ultimately show ?thesis
    using xs(1) by (fastforce simp: process_message_at_virtual_time_def Let_def)
qed

lemma demo_sends_nothing:
  "\<exists>c. pdes_net_receive [] 0 (demo_node True 5) = Inr (0, (demo_node True 5)\<lparr>comm := c\<rparr>)"
proof -
  let ?n = "demo_node True 5"
  have f: "first_sync_virtual_time (eng ?n) = 0" "first_sync_time (eng ?n) = 0" "comm ?n = demo_comm"
    by (simp_all add: demo_node_def zero_engine_def)
  obtain m where "create_message [] 0 MSG_TYPE_NORMAL (virt ?n + wwt_latencyns (wwt ?n)) =
      (Inr m :: (node, message) res)"
    by (simp add: create_message_def)
  moreover obtain c where "comm_send m ?n = Inr (0, ?n\<lparr>comm := c\<rparr>)"
    using comm_send_returns_iff[of ?n m] f by auto
  ultimately show ?thesis
    using f by (auto simp: pdes_net_receive_def wwt_send_def get_universal_virtual_time_def
        pdes_engine_send_def Let_def)
qed

theorem empty_frame_trips_assertion_witness:
  "\<exists>a' x. pdes_net_receive [] 0 (demo_node True 5) = Inr (0, a') \<and> tx_list (comm a') = [x] \<and>
    (\<forall>b b'. wwt_recivied_callback x b = Inr b' \<longrightarrow> contexts b' \<noteq> contexts b)"
proof -
  obtain c where c: "pdes_net_receive [] 0 (demo_node True 5) = Inr (0, (demo_node True 5)\<lparr>comm := c\<rparr>)"
    using demo_sends_nothing by blast
  have "comm_wf (comm (demo_node True 5))" "first_sync_time (eng (demo_node True 5)) \<noteq> -1"
    "tx_list (comm (demo_node True 5)) = []"
    by (simp_all add: demo_node_def zero_engine_def)
  from empty_frame_trips_assertion[OF c this(1,2)] c this(3) show ?thesis by fastforce
qed

end
