(* ===== verification/Quiet.thy ===== *)
theory Quiet
  imports Drain Netdev
begin

text \<open>
  A handler is quiet when it leaves the state of the barrier alone (round, counts, virtual time,
  timers) and sends nothing but control messages, obeying the rules of the exit handshake: END
  only when permitted, PERMISSION only from the master and together with its own flag. All
  handlers but the ones that move the barrier are quiet; the relation is reflexive and
  transitive, so a handler is quiet because its parts are.
\<close>

section \<open>The relation\<close>

text \<open>The lengths the code puts on the wire; a DRAIN_START carries at least format and round.\<close>

definition length_ok :: "message \<Rightarrow> bool" where
  "length_ok m \<longleftrightarrow> unat (len m) \<le> MAX_MSG_SIZE \<and> (mtype m = DRAIN_START \<longrightarrow> 12 \<le> unat (len m))"

definition control_message :: "message \<Rightarrow> bool" where
  "control_message m \<longleftrightarrow> mtype m \<noteq> MSG_TYPE_SYNC \<and> mtype m \<noteq> MSG_TYPE_NORMAL \<and> length_ok m"

definition has_permission :: "message list \<Rightarrow> bool" where
  "has_permission ms \<longleftrightarrow> (\<exists>m \<in> set ms. mtype m = PERMISSION_TO_END_EMULATION)"

definition has_end :: "message list \<Rightarrow> bool" where
  "has_end ms \<longleftrightarrow> (\<exists>m \<in> set ms. mtype m = END_OF_EMULATION)"

text \<open>Every END comes after a PERMISSION, unless the permission was there before.\<close>

fun end_after_permission :: "bool \<Rightarrow> message list \<Rightarrow> bool" where
  "end_after_permission p [] = True"
| "end_after_permission p (m # ms) =
     ((mtype m = END_OF_EMULATION \<longrightarrow> p) \<and>
      end_after_permission (p \<or> mtype m = PERMISSION_TO_END_EMULATION) ms)"

lemma has_permission_simps [simp]:
  "has_permission [] = False"
  "has_permission (m # ms) = (mtype m = PERMISSION_TO_END_EMULATION \<or> has_permission ms)"
  "has_permission (xs @ ys) = (has_permission xs \<or> has_permission ys)"
  by (auto simp: has_permission_def)

lemma has_end_simps [simp]:
  "has_end [] = False"
  "has_end (m # ms) = (mtype m = END_OF_EMULATION \<or> has_end ms)"
  "has_end (xs @ ys) = (has_end xs \<or> has_end ys)"
  by (auto simp: has_end_def)

lemma end_needs_permission: "end_after_permission p ms \<Longrightarrow> has_end ms \<Longrightarrow> p \<or> has_permission ms"
  by (induction ms arbitrary: p) auto

lemma end_after_permission_append [simp]:
  "end_after_permission p (xs @ ys) \<longleftrightarrow>
     end_after_permission p xs \<and> end_after_permission (p \<or> has_permission xs) ys"
  by (induction xs arbitrary: p) (auto simp: disj_assoc)

lemma end_after_permission_mono:
  "end_after_permission p ms \<Longrightarrow> (p \<Longrightarrow> q) \<Longrightarrow> end_after_permission q ms"
proof (induction ms arbitrary: p q)
  case (Cons m ms)
  from Cons.prems have "end_after_permission (p \<or> mtype m = PERMISSION_TO_END_EMULATION) ms" by simp
  then have "end_after_permission (q \<or> mtype m = PERMISSION_TO_END_EMULATION) ms"
    by (rule Cons.IH) (use Cons.prems(2) in blast)
  with Cons.prems show ?case by auto
qed simp

text \<open>How many END messages a batch holds.\<close>

definition sent_ends :: "message list \<Rightarrow> nat" where
  "sent_ends ms = length (filter (\<lambda>m. mtype m = END_OF_EMULATION) ms)"

lemma sent_ends_simps [simp]:
  "sent_ends [] = 0"
  "sent_ends (m # ms) = (if mtype m = END_OF_EMULATION then 1 else 0) + sent_ends ms"
  "sent_ends (xs @ ys) = sent_ends xs + sent_ends ys"
  by (simp_all add: sent_ends_def)

lemma has_end_count: "has_end ms \<longleftrightarrow> 0 < sent_ends ms"
  by (induction ms) auto

definition same_barrier :: "node \<Rightarrow> node \<Rightarrow> bool" where
  "same_barrier n n' \<longleftrightarrow>
     virt n' = virt n \<and> contexts n' = contexts n \<and>
     first_sync_virtual_time (eng n') = first_sync_virtual_time (eng n) \<and>
     first_sync_time (eng n') = first_sync_time (eng n) \<and>
     paused (eng n') = paused (eng n) \<and> master (eng n') = master (eng n) \<and>
     current_quantum_round (wwt n') = current_quantum_round (wwt n) \<and>
     finished_quantum (wwt n') = finished_quantum (wwt n) \<and>
     should_sync (wwt n') = should_sync (wwt n) \<and>
     sync_counts (wwt n') = sync_counts (wwt n) \<and>
     quantum_ns (wwt n') = quantum_ns (wwt n) \<and>
     wwt_latencyns (wwt n') = wwt_latencyns (wwt n) \<and>
     quantum_timer (wwt n') = quantum_timer (wwt n) \<and>
     (sync_check_timer (wwt n') \<noteq> No_Timer \<longrightarrow> sync_check_timer (wwt n) \<noteq> No_Timer)"

definition sends_control :: "node \<Rightarrow> node \<Rightarrow> message list \<Rightarrow> bool" where
  "sends_control n n' ms \<longleftrightarrow>
     comm_wf (comm n') \<and> rx_list (comm n') = rx_list (comm n) \<and>
     tx_list (comm n') = tx_list (comm n) @ ms \<and> (\<forall>m \<in> set ms. control_message m) \<and>
     end_after_permission (permitted_to_exit (eng n)) ms \<and>
     (permitted_to_exit (eng n') \<longleftrightarrow> permitted_to_exit (eng n) \<or> has_permission ms) \<and>
     (has_permission ms \<longrightarrow> master (eng n)) \<and>
     pair_has_finished (eng n') = pair_has_finished (eng n) \<and>
     of_bool (end_message_sent (eng n')) = sent_ends ms + of_bool (end_message_sent (eng n))"

definition quiet :: "node \<Rightarrow> node \<Rightarrow> bool" where
  "quiet n n' \<longleftrightarrow> same_barrier n n' \<and> (comm_wf (comm n) \<longrightarrow> (\<exists>ms. sends_control n n' ms))"

lemma quiet_local [quiet_intros]:
  assumes "same_barrier n n'" and "comm n' = comm n"
    and "permitted_to_exit (eng n') = permitted_to_exit (eng n)"
    and "pair_has_finished (eng n') = pair_has_finished (eng n)"
    and "end_message_sent (eng n') = end_message_sent (eng n)"
  shows "quiet n n'"
  using assms by (auto simp: quiet_def sends_control_def intro!: exI[of _ "[]"])

lemma quiet_refl [simp, intro]: "quiet n n"
  by (rule quiet_local) (simp_all add: same_barrier_def)

lemma same_barrier_trans: "same_barrier n n1 \<Longrightarrow> same_barrier n1 n2 \<Longrightarrow> same_barrier n n2"
  unfolding same_barrier_def by auto

lemma sends_control_trans:
  assumes "sends_control n n1 xs" and "sends_control n1 n2 ys" and "master (eng n1) = master (eng n)"
  shows "sends_control n n2 (xs @ ys)"
  using assms unfolding sends_control_def by auto

lemma quiet_trans [trans]:
  assumes "quiet n n1" and "quiet n1 n2"
  shows "quiet n n2"
proof -
  have b: "same_barrier n n2"
    using assms same_barrier_trans by (auto simp: quiet_def)
  have m: "master (eng n1) = master (eng n)"
    using assms(1) by (simp add: quiet_def same_barrier_def)
  have "\<exists>ms. sends_control n n2 ms" if w: "comm_wf (comm n)"
  proof -
    from w assms(1) obtain xs where xs: "sends_control n n1 xs" by (auto simp: quiet_def)
    then have "comm_wf (comm n1)" by (simp add: sends_control_def)
    with assms(2) obtain ys where "sends_control n1 n2 ys" by (auto simp: quiet_def)
    with xs show ?thesis using sends_control_trans m by blast
  qed
  with b show ?thesis by (simp add: quiet_def)
qed

text \<open>Fallible quiet handlers compose with \<open>bindE\<close>.\<close>

definition quiet_res :: "node \<Rightarrow> (node, node) res \<Rightarrow> bool" where
  "quiet_res n r \<longleftrightarrow> (\<forall>n'. r = Inr n' \<longrightarrow> quiet n n')"

lemma quiet_resI: "(\<And>n'. r = Inr n' \<Longrightarrow> quiet n n') \<Longrightarrow> quiet_res n r"
  by (simp add: quiet_res_def)

lemma quiet_resD: "quiet_res n r \<Longrightarrow> r = Inr n' \<Longrightarrow> quiet n n'"
  by (simp add: quiet_res_def)

lemma quiet_res_Inr [simp]: "quiet_res n (Inr n') = quiet n n'"
  by (simp add: quiet_res_def)

lemma quiet_res_Inl [simp]: "quiet_res n (Inl e)"
  by (simp add: quiet_res_def)

lemma quiet_res_bind:
  "quiet_res n r \<Longrightarrow> (\<And>n1. r = Inr n1 \<Longrightarrow> quiet_res n1 (f n1)) \<Longrightarrow> quiet_res n (bindE r f)"
  by (auto simp: quiet_res_def elim!: bindE_InrE intro: quiet_trans)

lemma quiet_res_pre: "quiet n n1 \<Longrightarrow> quiet_res n1 r \<Longrightarrow> quiet_res n r"
  by (auto simp: quiet_res_def intro: quiet_trans)

section \<open>Control messages\<close>

definition control_type :: "u8 \<Rightarrow> bool" where
  "control_type ty \<longleftrightarrow> ty \<noteq> MSG_TYPE_SYNC \<and> ty \<noteq> MSG_TYPE_NORMAL \<and> ty \<noteq> DRAIN_START"

lemma send_control_returns:
  assumes "send_control ty n = Inr n'" and "comm_wf (comm n)"
  shows "\<exists>c m. n' = n\<lparr>comm := c\<rparr> \<and> comm_wf c \<and> tx_list c = tx_list (comm n) @ [m] \<and>
    rx_list c = rx_list (comm n) \<and> mtype m = ty \<and> len m = 0"
proof -
  from assms(1) obtain t i where
    s: "comm_send \<lparr>ts_ns = t, len = 0, data = replicate MAX_MSG_SIZE 0, mtype = ty\<rparr> n = Inr (i, n')"
    by (auto simp: send_control_def create_message_empty elim!: bindE_InrE)
  from comm_send_returns[OF s assms(2)] show ?thesis
    by (metis message.select_convs(2,4))
qed

lemma send_control_frame: "send_control ty n = Inr n' \<Longrightarrow> \<exists>c. n' = n\<lparr>comm := c\<rparr>"
  by (auto simp: send_control_def comm_send_def elim!: bindE_InrE)

lemma quiet_send_control:
  assumes "control_type ty" and "ty \<noteq> PERMISSION_TO_END_EMULATION"
    and "ty \<noteq> END_OF_EMULATION"
  shows "quiet_res n (send_control ty n)"
proof (rule quiet_resI)
  fix n' assume s: "send_control ty n = Inr n'"
  then have b: "same_barrier n n'"
    using send_control_frame by (fastforce simp: same_barrier_def)
  moreover have "\<exists>ms. sends_control n n' ms" if w: "comm_wf (comm n)"
  proof -
    obtain c m where "n' = n\<lparr>comm := c\<rparr>" "comm_wf c" "tx_list c = tx_list (comm n) @ [m]"
      "rx_list c = rx_list (comm n)" "mtype m = ty" "len m = 0"
      using send_control_returns[OF s w] by blast
    then have "sends_control n n' [m]"
      using assms by (simp add: sends_control_def control_message_def control_type_def length_ok_def)
    then show ?thesis ..
  qed
  ultimately show "quiet n n'" by (simp add: quiet_def)
qed

text \<open>Granting permission: the flag and the message together.\<close>

lemma quiet_grant:
  assumes "master (eng n)"
  shows "quiet_res n (send_control PERMISSION_TO_END_EMULATION
    (n\<lparr>eng := (eng n)\<lparr>permitted_to_exit := True\<rparr>\<rparr>))"
proof (rule quiet_resI)
  let ?n = "n\<lparr>eng := (eng n)\<lparr>permitted_to_exit := True\<rparr>\<rparr>"
  fix n' assume s: "send_control PERMISSION_TO_END_EMULATION ?n = Inr n'"
  then have "same_barrier n n'"
    using send_control_frame by (fastforce simp: same_barrier_def)
  moreover have "\<exists>ms. sends_control n n' ms" if w: "comm_wf (comm n)"
  proof -
    obtain c m where "n' = ?n\<lparr>comm := c\<rparr>" "comm_wf c" "tx_list c = tx_list (comm n) @ [m]"
      "rx_list c = rx_list (comm n)" "mtype m = PERMISSION_TO_END_EMULATION" "len m = 0"
      using send_control_returns[OF s] w by auto
    then have "sends_control n n' [m]"
      using assms by (simp add: sends_control_def control_message_def length_ok_def msg_type_defs)
    then show ?thesis ..
  qed
  ultimately show "quiet n n'" by (simp add: quiet_def)
qed

section \<open>The handlers of the engine\<close>

lemma quiet_out_call [simp]: "quiet n (out_call c n)"
  by (rule quiet_local) (simp_all add: same_barrier_def out_call_def)

lemma quiet_send_end: "quiet_res n (send_end_if_handshake_complete n)"
proof -
  let ?n = "n\<lparr>eng := (eng n)\<lparr>end_message_sent := True\<rparr>\<rparr>"
  have "quiet n n'" if s: "send_control END_OF_EMULATION ?n = Inr n'"
    and p: "permitted_to_exit (eng n)" "\<not> end_message_sent (eng n)" for n'
  proof -
    have "same_barrier n n'"
      using s send_control_frame by (fastforce simp: same_barrier_def)
    moreover have "\<exists>ms. sends_control n n' ms" if w: "comm_wf (comm n)"
    proof -
      obtain c m where "n' = ?n\<lparr>comm := c\<rparr>" "comm_wf c" "tx_list c = tx_list (comm n) @ [m]"
        "rx_list c = rx_list (comm n)" "mtype m = END_OF_EMULATION" "len m = 0"
        using send_control_returns[OF s] w by auto
      then have "sends_control n n' [m]"
        using p by (simp add: sends_control_def control_message_def length_ok_def msg_type_defs)
      then show ?thesis ..
    qed
    ultimately show ?thesis by (simp add: quiet_def)
  qed
  then show ?thesis
    by (auto simp: send_end_if_handshake_complete_def intro: quiet_resI)
qed

lemma quiet_notify_end: "quiet_res n (notify_neighbours_of_end n)"
proof -
  let ?n = "n\<lparr>eng := (eng n)\<lparr>notified_neighbors_for_exit := True\<rparr>\<rparr>"
  have "quiet n ?n" by (rule quiet_local) (simp_all add: same_barrier_def)
  then show ?thesis
    using quiet_send_end[of ?n] by (simp add: notify_neighbours_of_end_def quiet_res_pre)
qed

lemma quiet_destroy: "quiet_res n (pdes_engine_destroy n)"
  unfolding pdes_engine_destroy_def
  by (rule quiet_res_bind[OF quiet_notify_end])
    (auto simp: Let_def intro!: quiet_local simp: same_barrier_def)

lemma quiet_can_stop:
  assumes "can_stop n = Inr (b, n')"
  shows "quiet n n'"
proof -
  have g: "quiet_res n (bindE (send_control PERMISSION_TO_END_EMULATION
      (n\<lparr>eng := (eng n)\<lparr>permitted_to_exit := True\<rparr>\<rparr>)) send_end_if_handshake_complete)"
    if "master (eng n)"
    by (rule quiet_res_bind[OF quiet_grant[OF that] quiet_send_end])
  have i: "quiet_res n (bindE (send_control INTENT_TO_END_EMULATION n) (\<lambda>n1.
      Inr (n1\<lparr>eng := (eng n1)\<lparr>intent_sent := True\<rparr>\<rparr>)))"
    by (rule quiet_res_bind[OF quiet_send_control])
      (auto simp: control_type_def msg_type_defs same_barrier_def intro!: quiet_local)
  define r where "r = (if \<not> master (eng n)
        then if \<not> intent_sent (eng n)
             then bindE (send_control INTENT_TO_END_EMULATION n) (\<lambda>n1.
                  Inr (n1\<lparr>eng := (eng n1)\<lparr>intent_sent := True\<rparr>\<rparr>))
             else Inr n
        else if 1 \<le> sint (ready_to_exit_neighbors (eng n)) \<and> \<not> permitted_to_exit (eng n)
             then bindE (send_control PERMISSION_TO_END_EMULATION
                          (n\<lparr>eng := (eng n)\<lparr>permitted_to_exit := True\<rparr>\<rparr>))
                    send_end_if_handshake_complete
             else Inr n)"
  have "quiet_res n r" using g i by (simp add: r_def)
  moreover from assms obtain n1 where "r = Inr n1"
    and n': "n' = n1\<lparr>eng := (eng n1)\<lparr>ready_to_exit := True\<rparr>\<rparr>"
    unfolding can_stop_def r_def[symmetric] by (auto simp: Let_def elim!: bindE_InrE)
  ultimately have "quiet n n1" by (simp add: quiet_res_def)
  moreover have "quiet n1 (n1\<lparr>eng := (eng n1)\<lparr>ready_to_exit := True\<rparr>\<rparr>)"
    by (rule quiet_local) (simp_all add: same_barrier_def)
  ultimately show ?thesis unfolding n' by (rule quiet_trans)
qed

lemma quiet_set_checkpoint: "quiet n (set_checkpoint_values_for_master n)"
  by (rule quiet_local) (simp_all add: same_barrier_def set_checkpoint_values_for_master_def)

lemma quiet_finish_initiate: "quiet_res n (finish_initiate_checkpoint n)"
proof -
  let ?n = "n\<lparr>eng := (eng n)\<lparr>master_init := True\<rparr>\<rparr>"
  have m: "quiet n ?n" by (rule quiet_local) (simp_all add: same_barrier_def)
  have "quiet_res n (bindE (send_control CHECKPOINT_INIT_STEP n) Inr)"
    by (rule quiet_res_bind[OF quiet_send_control]) (simp_all add: control_type_def msg_type_defs)
  then have "quiet_res n (bindE (send_initiate_checkpoint_message n) (\<lambda>(i, n1).
      bindE (assertE Initiate_Not_Sent (i = 0)) (\<lambda>_. Inr n1)))"
    by (auto simp: send_initiate_checkpoint_message_def bindE_assoc)
  then show ?thesis
    using m quiet_trans[OF m quiet_set_checkpoint]
    by (auto simp: finish_initiate_checkpoint_def Let_def)
qed

text \<open>
  What a message tells the node apart from a quiet step: PERMISSION that it may exit, END that
  its peer has finished.
\<close>

definition told :: "message \<Rightarrow> node \<Rightarrow> node" where
  "told m n = (if mtype m = PERMISSION_TO_END_EMULATION
     then n\<lparr>eng := (eng n)\<lparr>permitted_to_exit := True\<rparr>\<rparr>
     else if mtype m = END_OF_EMULATION then n\<lparr>eng := (eng n)\<lparr>pair_has_finished := True\<rparr>\<rparr>
     else n)"

lemma quiet_control: "quiet_res (told m n) (process_control m n)"
proof -
  have s: "quiet n (process_intent n)" "quiet n (process_drain_end n)"
    by (auto simp: process_intent_def process_drain_end_def same_barrier_def intro!: quiet_local)
  have d: "quiet_res n (process_drain_start m n)"
    by (auto simp: process_drain_start_def Let_def quiet_res_def same_barrier_def
        intro!: quiet_local elim!: bindE_InrE)
  have i: "quiet n (process_init_step n)"
  proof -
    let ?n = "n\<lparr>eng := (eng n)\<lparr>init_flag := init_flag (eng n) + 1\<rparr>\<rparr>"
    have "quiet n ?n" by (rule quiet_local) (simp_all add: same_barrier_def)
    then show ?thesis
      using quiet_trans[OF _ quiet_set_checkpoint] by (auto simp: process_init_step_def Let_def)
  qed
  consider (permission) "mtype m = PERMISSION_TO_END_EMULATION" | (ending) "mtype m = END_OF_EMULATION"
    | (intent) "mtype m = INTENT_TO_END_EMULATION"
    | (other) "mtype m \<noteq> PERMISSION_TO_END_EMULATION" "mtype m \<noteq> END_OF_EMULATION"
        "mtype m \<noteq> INTENT_TO_END_EMULATION" by blast
  then show ?thesis
  proof cases
    case permission
    then have "process_control m n = send_end_if_handshake_complete (told m n)"
      by (simp add: process_control_def process_permission_def told_def msg_type_defs)
    then show ?thesis by (simp add: quiet_send_end)
  next
    case ending
    then have "process_control m n =
        bindE (assertE End_Before_Permission (permitted_to_exit (eng n))) (\<lambda>_. Inr (told m n))"
      by (simp add: process_control_def process_end_def told_def msg_type_defs)
    then show ?thesis by (auto simp: quiet_res_def elim!: bindE_InrE)
  next
    case intent
    with s show ?thesis by (simp add: process_control_def told_def msg_type_defs)
  next
    case other
    with s d i show ?thesis by (simp add: process_control_def told_def)
  qed
qed

section \<open>The handlers of the strategy\<close>

lemma quiet_drain_notify:
  assumes "notify_neighbors_for_drain name fmt n = Inr (i, n')"
  shows "quiet n n'"
proof (cases "notified_neighbors (eng n) \<or> 989 < length name")
  case True
  with assms have "n' = n \<or> n' = n\<lparr>eng := (eng n)\<lparr>notified_neighbors := True\<rparr>\<rparr>"
    by (auto simp: notify_neighbors_for_drain_def Let_def SNAPSHOT_BUFFER_def SIZEOF_FORMAT_def
        SIZEOF_ROUND_def assertE_Inr_iff elim!: bindE_InrE split: if_splits)
  then show ?thesis by (auto simp: same_barrier_def intro!: quiet_local)
next
  case False
  have "\<exists>c. n' = n\<lparr>eng := (eng n)\<lparr>notified_neighbors := True\<rparr>, comm := c\<rparr>"
    using assms False
    by (auto simp: notify_neighbors_for_drain_def Let_def assertE_Inr_iff comm_send_def
        SNAPSHOT_BUFFER_def elim!: bindE_InrE split: if_splits)
  then have b: "same_barrier n n'" by (auto simp: same_barrier_def)
  have "\<exists>ms. sends_control n n' ms" if w: "comm_wf (comm n)"
  proof -
    obtain m c where "n' = n\<lparr>eng := (eng n)\<lparr>notified_neighbors := True\<rparr>, comm := c\<rparr>"
      "comm_wf c" "tx_list c = tx_list (comm n) @ [m]" "rx_list c = rx_list (comm n)"
      "mtype m = DRAIN_START" "unat (len m) = length name + 17"
      using notify_returns[OF assms w] False by auto
    then have "sends_control n n' [m]"
      using False by (simp add: sends_control_def control_message_def length_ok_def msg_type_defs MAX_MSG_SIZE_def)
    then show ?thesis ..
  qed
  with b show ?thesis by (simp add: quiet_def)
qed

lemma quiet_pause_bh: "quiet n (pdes_pause_bh n)"
  by (rule quiet_local) (simp_all add: same_barrier_def pdes_pause_bh_def out_call_def)

lemma quiet_pause: "quiet_res (n\<lparr>eng := (eng n)\<lparr>paused := True\<rparr>\<rparr>) (pdes_pause n)"
  by (rule quiet_resI, rule quiet_local)
    (auto simp: pdes_pause_def Let_def same_barrier_def out_call_def assertE_Inr_iff
      elim!: bindE_InrE split: if_splits option.splits)

lemma quiet_play: "quiet_res (n\<lparr>eng := (eng n)\<lparr>paused := False\<rparr>\<rparr>) (pdes_play n)"
  by (rule quiet_resI, rule quiet_local)
    (auto simp: pdes_play_def Let_def same_barrier_def out_call_def
      elim!: bindE_InrE split: if_splits option.splits)

lemma quiet_grant_permission: "quiet_res n (grant_permission n)"
  by (auto simp: grant_permission_def intro: quiet_res_bind[OF quiet_grant quiet_send_end])

lemma quiet_notify_if_needed: "quiet_res n (notify_if_needed n)"
  by (auto simp: notify_if_needed_def quiet_res_def dest: quiet_drain_notify elim!: bindE_InrE
      split: if_splits)

lemma quiet_at_boundary:
  assumes "checkpoint_at_boundary n = Inr (b, n')"
  shows "quiet n n'"
  using assms
  by (intro quiet_local)
    (auto simp: checkpoint_at_boundary_def Let_def same_barrier_def timer_mod_def
      elim!: bindE_InrE split: if_splits timer.splits)

lemma quiet_checkpoint_check:
  assumes "sync_checkpoint_check n = Inr (b, n')"
  shows "quiet n n'"
proof (cases "needs_to_checkpoint (eng n)")
  case True
  with assms obtain n1 where "notify_if_needed n = Inr n1" and "checkpoint_at_boundary n1 = Inr (b, n')"
    by (auto simp: sync_checkpoint_check_def elim!: bindE_InrE)
  then show ?thesis
    using quiet_resD[OF quiet_notify_if_needed] quiet_at_boundary quiet_trans by blast
qed (use assms in \<open>simp add: sync_checkpoint_check_def\<close>)

lemma quiet_peer_finished:
  assumes "peer_has_finished n = Inr (b, n')"
  shows "quiet n n' \<and> b"
proof -
  from assms obtain n1 where "n1 = n \<or> n1 = out_call Flexus_Stop n"
    and d: "pdes_engine_destroy n1 = Inr n'" and b
    by (auto simp: peer_has_finished_def elim!: bindE_InrE split: if_splits)
  then have "quiet n n1" by auto
  with quiet_resD[OF quiet_destroy d] quiet_trans \<open>b\<close> show ?thesis by blast
qed


section \<open>Checkpoints and exits\<close>

lemma quiet_drain: "pdes_drain name fmt n = Inr (i, n') \<Longrightarrow> quiet n n'"
proof -
  assume d: "pdes_drain name fmt n = Inr (i, n')"
  let ?n = "n\<lparr>eng := (eng n)\<lparr>checkpoint_in_progress := True\<rparr>\<rparr>"
  have p: "quiet n ?n" by (rule quiet_local) (simp_all add: same_barrier_def)
  have m: "quiet_res ?n (bindE (send_control DRAIN_END ?n) (\<lambda>n1.
      Inr (n1\<lparr>eng := (eng n1)\<lparr>neighbour_drained := 0\<rparr>\<rparr>)))"
    by (rule quiet_res_bind[OF quiet_send_control])
      (auto simp: control_type_def msg_type_defs same_barrier_def intro!: quiet_local)
  from d obtain n1 f where n1: "(if master (eng n) then bindE (send_control DRAIN_END ?n) (\<lambda>n1.
      Inr (n1\<lparr>eng := (eng n1)\<lparr>neighbour_drained := 0\<rparr>\<rparr>)) else Inr n) = Inr n1"
    and n': "n' = n1\<lparr>files := f\<rparr>"
    unfolding pdes_drain_def by (elim bindE_InrE) auto
  have "quiet n n1"
    using n1 p quiet_resD[OF m] quiet_trans by (auto split: if_splits)
  moreover have "quiet n1 n'" unfolding n' by (rule quiet_local) (simp_all add: same_barrier_def)
  ultimately show ?thesis by (rule quiet_trans)
qed

lemma quiet_checkpoint_bh:
  assumes save: "\<And>name fmt n. quiet_res n (save name fmt n)"
  shows "quiet_res n (create_checkpoint_bh save exit_after n)"
proof -
  let ?n = "n\<lparr>eng := (eng n)\<lparr>checkpoint_in_progress := False\<rparr>\<rparr>"
  have p: "quiet n ?n" by (rule quiet_local) (simp_all add: same_barrier_def)
  let ?r = "\<lambda>n2. n2\<lparr>eng := (eng n2)\<lparr>needs_to_checkpoint := False, notified_neighbors := False,
    checkpoint_quantum_round := 0, boundry_checkpoint_bh := None, boundry_scheduled := False,
    skip_boundry_check_after_checkpoint := True\<rparr>\<rparr>"
  have r: "quiet n2 (?r n2)" for n2 by (rule quiet_local) (simp_all add: same_barrier_def)
  let ?tail = "\<lambda>n3. bindE (if checkpoint_name (eng n3) = init_warmed \<and> master (eng n3)
      then pdes_engine_destroy n3 else Inr n3)
      (\<lambda>n4. if exit_after then Inl (Exit_Process 0 n4) else Inr n4)"
  have t: "quiet_res n3 (?tail n3)" for n3
    by (rule quiet_res_bind) (simp_all add: quiet_destroy)
  have "quiet_res ?n (bindE (save (checkpoint_name (eng ?n)) (checkpoint_format (eng ?n)) ?n)
      (\<lambda>n2. ?tail (?r n2)))"
    by (rule quiet_res_bind[OF save quiet_res_pre[OF r t]])
  from quiet_res_pre[OF p this] show ?thesis
    by (simp add: create_checkpoint_bh_def Let_def)
qed


text \<open>The state an exiting handler leaves behind is one a quiet step leads to.\<close>

definition quiet_exit :: "node \<Rightarrow> (node, 'a) res \<Rightarrow> bool" where
  "quiet_exit n r \<longleftrightarrow> (\<forall>i n'. r = Inl (Exit_Process i n') \<longrightarrow> quiet n n')"

lemma quiet_exit_simps [simp]:
  "quiet_exit n (Inr x)" "quiet_exit n (Inl (Assert_Failed s))" "quiet_exit n (Inl Send_Blocked)"
  "quiet_exit n (Inl Out_Of_Bounds)" "quiet_exit n (Inl Null_Deref)"
  "quiet_exit n (Inl (Exit_Process i n')) = quiet n n'"
  by (auto simp: quiet_exit_def)

lemma quiet_exit_assertE [simp]: "quiet_exit n (assertE x c)"
  by (simp add: quiet_exit_def assertE_def)

lemma quiet_exit_bind:
  assumes "quiet_exit n r" and "\<And>x. r = Inr x \<Longrightarrow> quiet_exit n (f x)"
  shows "quiet_exit n (bindE r f)"
  using assms by (cases r) (auto simp: quiet_exit_def)

lemma quiet_exit_pre: "quiet n n1 \<Longrightarrow> quiet_exit n1 r \<Longrightarrow> quiet_exit n r"
  by (auto simp: quiet_exit_def intro: quiet_trans)

lemma send_control_no_exit [simp]: "quiet_exit n (send_control ty n')"
  unfolding send_control_def get_universal_virtual_time_def create_message_empty comm_send_def
  by (intro quiet_exit_bind) (auto simp: pdes_comm_send_def split: option.splits prod.splits)

lemma send_end_no_exit [simp]: "quiet_exit n (send_end_if_handshake_complete n')"
  by (simp add: send_end_if_handshake_complete_def)

lemma quiet_exit_destroy: "quiet_exit n (pdes_engine_destroy n)"
proof -
  have tail: "quiet_exit n (if needs_to_checkpoint (eng n1)
     then Inr (n1\<lparr>eng := (eng n1)\<lparr>
            boundry_checkpoint_bh :=
              (if boundry_checkpoint_bh (eng n1) = None then Some True
               else boundry_checkpoint_bh (eng n1)),
            boundry_scheduled := True\<rparr>\<rparr>)
     else let n2 = destroy_strategy n1;
              n3 = (if libqflex (platform n2) then out_call Libqflex_Stop n2 else n2)
          in Inl (Exit_Process 0 n3))" if q: "quiet n n1" for n1
  proof -
    have "quiet n1 (destroy_strategy n1)"
      by (rule quiet_local) (auto simp: destroy_strategy_def same_barrier_def split: if_splits)
    with q have d: "quiet n (destroy_strategy n1)" by (rule quiet_trans)
    then have "quiet n (out_call Libqflex_Stop (destroy_strategy n1))"
      by (rule quiet_trans) simp
    with d show ?thesis by (simp add: Let_def)
  qed
  show ?thesis
    unfolding pdes_engine_destroy_def
  proof (rule quiet_exit_bind)
    show "quiet_exit n (notify_neighbours_of_end n)" by (simp add: notify_neighbours_of_end_def)
  qed (rule tail[OF quiet_resD[OF quiet_notify_end]])
qed

lemma quiet_exit_peer_finished: "quiet_exit n (peer_has_finished n)"
proof -
  have d: "quiet_exit n (bindE (pdes_engine_destroy n1) (\<lambda>n2. Inr (True, n2)))" if "quiet n n1" for n1
    by (rule quiet_exit_bind[OF quiet_exit_pre[OF that quiet_exit_destroy]]) simp
  show ?thesis
    unfolding peer_has_finished_def
    by (rule quiet_exit_bind, simp, rule quiet_exit_bind) (auto split: if_splits intro!: d)
qed

lemma quiet_exit_checkpoint_bh:
  assumes save: "\<And>name fmt n. quiet_res n (save name fmt n)" "\<And>name fmt n. quiet_exit n (save name fmt n)"
  shows "quiet_exit n (create_checkpoint_bh save exit_after n)"
proof -
  let ?n = "n\<lparr>eng := (eng n)\<lparr>checkpoint_in_progress := False\<rparr>\<rparr>"
  have p: "quiet n ?n" by (rule quiet_local) (simp_all add: same_barrier_def)
  let ?r = "\<lambda>n2. n2\<lparr>eng := (eng n2)\<lparr>needs_to_checkpoint := False, notified_neighbors := False,
    checkpoint_quantum_round := 0, boundry_checkpoint_bh := None, boundry_scheduled := False,
    skip_boundry_check_after_checkpoint := True\<rparr>\<rparr>"
  have r: "quiet n2 (?r n2)" for n2 by (rule quiet_local) (simp_all add: same_barrier_def)
  let ?d = "\<lambda>n3. if checkpoint_name (eng n3) = init_warmed \<and> master (eng n3)
      then pdes_engine_destroy n3 else Inr n3"
  let ?tail = "\<lambda>n3. bindE (?d n3) (\<lambda>n4. if exit_after then Inl (Exit_Process 0 n4) else Inr n4)"
  have t: "quiet_exit n3 (?tail n3)" for n3
  proof (rule quiet_exit_bind)
    show "quiet_exit n3 (?d n3)" by (simp add: quiet_exit_destroy)
    have q: "quiet_res n3 (?d n3)" by (simp add: quiet_destroy)
    fix n4 assume "?d n3 = Inr n4"
    then show "quiet_exit n3 (if exit_after then Inl (Exit_Process 0 n4) else Inr n4)"
      using quiet_resD[OF q] by simp
  qed
  have "quiet_exit ?n (bindE (save (checkpoint_name (eng ?n)) (checkpoint_format (eng ?n)) ?n)
      (\<lambda>n2. ?tail (?r n2)))"
    by (rule quiet_exit_bind[OF save(2)])
      (rule quiet_exit_pre[OF quiet_trans[OF quiet_resD[OF save(1)] r] t])
  from quiet_exit_pre[OF p this] show ?thesis
    by (simp add: create_checkpoint_bh_def Let_def)
qed

end
