(* ===== verification/Barrier.thy ===== *)
theory Barrier
  imports Quiet
begin

text \<open>
  The invariant of a pair of nodes that run the quantum barrier against each other, seen from
  one of them (\<open>a\<close>, whose rings hold both directions). \<open>ra\<close> and \<open>rb\<close> count the SYNC messages
  each has received, \<open>sa\<close> and \<open>sb\<close> those each has sent; the channel between them explains the
  difference. Every step of \<open>a\<close> keeps the invariant, and no step trips an assertion of the
  protocol.
\<close>

section \<open>Signed 64-bit arithmetic in range\<close>

definition in_i64 :: "int \<Rightarrow> bool" where
  "in_i64 x \<longleftrightarrow> - 9223372036854775808 \<le> x \<and> x < 9223372036854775808"

lemma sint_word_of_int [simp]: "in_i64 x \<Longrightarrow> sint (word_of_int x :: i64) = x"
  by (simp add: in_i64_def signed_take_bit_int_eq_self sint_sbintrunc')

lemma word_of_int_sint_add:
  fixes a b :: i64
  shows "a + b = word_of_int (sint a + sint b)"
    and "a - b = word_of_int (sint a - sint b)"
  by (simp_all)

lemma sint_add_i64:
  fixes a b :: i64
  assumes "in_i64 (sint a + sint b)"
  shows "sint (a + b) = sint a + sint b"
  using assms by (metis sint_word_of_int word_of_int_sint_add(1))

lemma sint_diff_i64:
  fixes a b :: i64
  assumes "in_i64 (sint a - sint b)"
  shows "sint (a - b) = sint a - sint b"
  using assms by (metis sint_word_of_int word_of_int_sint_add(2))

lemma sint_round_time:
  fixes r f :: i64
  assumes "in_i64 (int (unat r) * q + sint f)"
  shows "sint (r * word_of_int q + f) = int (unat r) * q + sint f"
proof -
  have e: "r * word_of_int q + f = word_of_int (int (unat r) * q + sint f)"
    by simp
  show ?thesis by (simp only: e sint_word_of_int[OF assms])
qed

section \<open>Faults the protocol excludes\<close>

definition protocol_fault :: "'n fault \<Rightarrow> bool" where
  "protocol_fault e \<longleftrightarrow> e = Assert_Failed Wrong_Quantum_Round \<or> e = Assert_Failed Message_In_Past \<or>
     e = Assert_Failed End_Before_Permission \<or> e = Assert_Failed Finished_Not_Permitted \<or>
     e = Assert_Failed Sync_Check_Timer_Set"

definition safe_res :: "('n, 'a) res \<Rightarrow> bool" where
  "safe_res r \<longleftrightarrow> (\<forall>e. r = Inl e \<longrightarrow> \<not> protocol_fault e)"

lemma safe_res_simps [simp]:
  "safe_res (Inr x)" "safe_res (Inl Send_Blocked)" "safe_res (Inl Null_Deref)"
  "safe_res (Inl Out_Of_Bounds)" "safe_res (Inl (Exit_Process i n))"
  "safe_res (Inl (Still_Waiting n))" "safe_res (Inl Out_Of_Fuel)"
  by (simp_all add: safe_res_def protocol_fault_def)

lemma safe_assert_failed [simp]:
  "safe_res (Inl (Assert_Failed a)) \<longleftrightarrow> a \<notin>
    {Wrong_Quantum_Round, Message_In_Past, End_Before_Permission, Finished_Not_Permitted,
      Sync_Check_Timer_Set}"
  by (simp add: safe_res_def protocol_fault_def)

lemma safe_bind:
  "safe_res r \<Longrightarrow> (\<And>x. r = Inr x \<Longrightarrow> safe_res (f x)) \<Longrightarrow> safe_res (bindE r f)"
  by (cases r) (auto simp: safe_res_def)

lemma safe_assertE [simp]:
  "a \<notin> {Wrong_Quantum_Round, Message_In_Past, End_Before_Permission, Finished_Not_Permitted,
      Sync_Check_Timer_Set} \<Longrightarrow>
    safe_res (assertE a b)"
  by (simp add: assertE_def safe_res_def protocol_fault_def)

lemma safe_universal [simp]: "safe_res (get_universal_virtual_time n)"
  by (auto simp: get_universal_virtual_time_def intro!: safe_bind)

lemma safe_create [simp]: "safe_res (create_message src k ty t)"
  by (simp add: create_message_def)

lemma safe_comm_send [simp]: "safe_res (comm_send m n)"
  by (auto simp: comm_send_def pdes_comm_send_def intro!: safe_bind split: option.splits)

lemma safe_send_control [simp]: "safe_res (send_control ty n)"
  by (auto simp: send_control_def intro!: safe_bind)

lemma safe_engine_send [simp]: "safe_res (pdes_engine_send m n)"
  by (auto simp: pdes_engine_send_def intro!: safe_bind)

lemma safe_send_end [simp]: "safe_res (send_end_if_handshake_complete n)"
  by (simp add: send_end_if_handshake_complete_def)

lemma safe_destroy [simp]: "safe_res (pdes_engine_destroy n)"
  by (auto simp: pdes_engine_destroy_def notify_neighbours_of_end_def Let_def intro!: safe_bind)

lemma safe_timer_mod [simp]: "safe_res (timer_mod t x)"
  by (simp add: timer_mod_def split: timer.splits)

lemma safe_pause [simp]: "safe_res (pdes_pause n)"
  by (auto simp: pdes_pause_def Let_def intro!: safe_bind)

lemma safe_play [simp]: "safe_res (pdes_play n)"
  by (auto simp: pdes_play_def Let_def intro!: safe_bind)

lemma safe_notify [simp]: "safe_res (notify_if_needed n)"
  by (auto simp: notify_if_needed_def notify_neighbors_for_drain_def Let_def intro!: safe_bind)

lemma safe_checkpoint_check [simp]: "safe_res (sync_checkpoint_check n)"
  by (auto simp: sync_checkpoint_check_def checkpoint_at_boundary_def Let_def intro!: safe_bind)

lemma safe_grant [simp]: "safe_res (grant_permission n)"
  by (auto simp: grant_permission_def intro!: safe_bind)

lemma safe_next_quantum [simp]: "safe_res (start_next_quantum n)"
  by (auto simp: start_next_quantum_def Let_def intro!: safe_bind)

lemma safe_pass [simp]: "safe_res (pass_barrier n)"
  by (auto simp: pass_barrier_def intro!: safe_bind)

lemma safe_send_sync [simp]: "safe_res (send_sync n)"
  by (auto simp: send_sync_def get_current_virtual_for_sync_message_def Let_def intro!: safe_bind)

lemma safe_control:
  "(mtype m = END_OF_EMULATION \<Longrightarrow> permitted_to_exit (eng n)) \<Longrightarrow> safe_res (process_control m n)"
  by (auto simp: process_control_def process_permission_def process_end_def process_drain_start_def
      parse_drain_start_def Let_def msg_type_defs intro!: safe_bind)

section \<open>The channel between two nodes\<close>

text \<open>
  The queued messages, for a receiver that has counted \<open>base\<close> SYNC messages and a sender that
  has sent \<open>tot\<close>: the SYNCs queued are the rounds in between, in order, and a packet is
  stamped no earlier than the end of the quantum whose SYNC precedes it.
\<close>

definition packet_time :: "int \<Rightarrow> nat \<Rightarrow> nat \<Rightarrow> message \<Rightarrow> bool" where
  "packet_time q k base m \<longleftrightarrow> int base * q \<le> sint (ts_ns m) \<and> sint (ts_ns m) \<le> (int k + 1) * q"

fun chan_ok :: "int \<Rightarrow> nat \<Rightarrow> nat \<Rightarrow> message list \<Rightarrow> nat \<Rightarrow> bool" where
  "chan_ok q k base [] tot = (base = tot)"
| "chan_ok q k base (m # ms) tot =
     (length_ok m \<and>
      (if mtype m = MSG_TYPE_SYNC then sync_round_of m = of_nat base \<and> chan_ok q k (Suc base) ms tot
       else (mtype m = MSG_TYPE_NORMAL \<longrightarrow> packet_time q k base m) \<and> chan_ok q k base ms tot))"

lemma chan_ok_le: "chan_ok q k b ms t \<Longrightarrow> b \<le> t"
  by (induction ms arbitrary: b) (auto split: if_splits dest: Suc_leD)

lemma chan_ok_length_ok: "chan_ok q k b ms t \<Longrightarrow> m \<in> set ms \<Longrightarrow> length_ok m"
  by (induction ms arbitrary: b) (auto split: if_splits)

lemma chan_ok_length: "chan_ok q k b ms t \<Longrightarrow> m \<in> set ms \<Longrightarrow> unat (len m) \<le> MAX_MSG_SIZE"
  using chan_ok_length_ok by (auto simp: length_ok_def)

lemma chan_ok_append:
  "chan_ok q k b (ms @ ns) t \<longleftrightarrow> (\<exists>u. chan_ok q k b ms u \<and> chan_ok q k u ns t)"
  by (induction ms arbitrary: b) auto

lemma chan_ok_control: "\<forall>m \<in> set ms. control_message m \<Longrightarrow> chan_ok q k b ms t \<longleftrightarrow> b = t"
  by (induction ms) (auto simp: control_message_def)

section \<open>The exit handshake between master and follower\<close>

text \<open>
  \<open>m\<close> is the master, \<open>f\<close> the follower. Permission travels from the master; an END is on its
  way, or has arrived, only if its sender is permitted; and it arrives where permission is.
\<close>

definition exit_dir :: "node \<Rightarrow> node \<Rightarrow> message list \<Rightarrow> message list \<Rightarrow> bool" where
  "exit_dir m f to_f to_m \<longleftrightarrow>
     master (eng m) \<and> \<not> master (eng f) \<and>
     end_after_permission (permitted_to_exit (eng f)) to_f \<and>
     (permitted_to_exit (eng m) \<longleftrightarrow> permitted_to_exit (eng f) \<or> has_permission to_f) \<and>
     \<not> has_permission to_m \<and> end_after_permission (permitted_to_exit (eng m)) to_m \<and>
     (has_end to_f \<or> pair_has_finished (eng f) \<longrightarrow> permitted_to_exit (eng m)) \<and>
     (has_end to_m \<or> pair_has_finished (eng m) \<longrightarrow> permitted_to_exit (eng f))"

definition exit_flags :: "node \<Rightarrow> node \<Rightarrow> message list \<Rightarrow> message list \<Rightarrow> bool" where
  "exit_flags a b tx rx \<longleftrightarrow> exit_dir a b tx rx \<or> exit_dir b a rx tx"

text \<open>An END that was sent is on its way or has been seen, and there is only one.\<close>

definition one_end :: "node \<Rightarrow> node \<Rightarrow> message list \<Rightarrow> bool" where
  "one_end a b tx \<longleftrightarrow>
     of_bool (end_message_sent (eng a)) = sent_ends tx + of_bool (pair_has_finished (eng b))"

definition exit_ok :: "node \<Rightarrow> node \<Rightarrow> message list \<Rightarrow> message list \<Rightarrow> bool" where
  "exit_ok a b tx rx \<longleftrightarrow> exit_flags a b tx rx \<and> one_end a b tx \<and> one_end b a rx"

section \<open>The invariant\<close>

definition universal :: "node \<Rightarrow> int" where
  "universal n = sint (virt n) - sint (first_sync_virtual_time (eng n))"

definition round_of :: "node \<Rightarrow> nat" where
  "round_of n = unat (current_quantum_round (wwt n))"

definition received_table :: "nat \<Rightarrow> u32 \<Rightarrow> i32 option" where
  "received_table k = (\<lambda>i. if unat i < k then Some 1 else None)"

text \<open>The quantum timer fires at the end of the current quantum, the first one at once.\<close>

definition armed_for_round :: "int \<Rightarrow> node \<Rightarrow> bool" where
  "armed_for_round q n \<longleftrightarrow> (\<exists>t. quantum_timer (wwt n) = Armed t \<and>
     (if round_of n = 0 then t = 0
      else sint t = int (round_of n) * q + sint (first_sync_virtual_time (eng n))))"

text \<open>A packet waits for the local time that corresponds to its stamp, which is not past.\<close>

definition context_ok :: "node \<Rightarrow> receive_context \<Rightarrow> bool" where
  "context_ok n c \<longleftrightarrow> one_time_poll_timer c = Armed (timestamp_ns c) \<and>
     sint (timestamp_ns c) = sint (ts_ns (ctx_msg c)) + sint (first_sync_virtual_time (eng n)) \<and>
     sint (virt n) \<le> sint (timestamp_ns c)"

text \<open>
  One node, \<open>r\<close> SYNC messages received, in a run of at most \<open>k\<close> rounds of \<open>q\<close> nanoseconds whose
  times fit in 63 bits.
\<close>

definition node_ok :: "int \<Rightarrow> nat \<Rightarrow> node \<Rightarrow> nat \<Rightarrow> bool" where
  "node_ok q k n r \<longleftrightarrow>
     should_sync (wwt n) \<and> quantum_ns (wwt n) = word_of_int q \<and> wwt_latencyns (wwt n) = word_of_int q \<and>
     0 < q \<and> 0 \<le> sint (first_sync_virtual_time (eng n)) \<and>
     sint (first_sync_virtual_time (eng n)) + (int k + 2) * q < 9223372036854775808 \<and>
     k + 1 < 4294967296 \<and>
     round_of n \<le> k \<and> sync_counts (wwt n) = received_table r \<and> round_of n \<le> r \<and>
     (int (round_of n) - 1) * q \<le> universal n \<and> 0 \<le> universal n \<and>
     universal n \<le> int (round_of n) * q \<and>
     (finished_quantum (wwt n) \<longrightarrow> universal n = int (round_of n) * q \<and> paused (eng n)) \<and>
     (\<not> finished_quantum (wwt n) \<longrightarrow> armed_for_round q n) \<and>
     (finished_quantum (wwt n) \<longrightarrow> quantum_timer (wwt n) = Idle) \<and>
     (\<forall>c \<in> set (contexts n). context_ok n c) \<and>
     (sync_check_timer (wwt n) \<noteq> No_Timer \<longrightarrow> finished_quantum (wwt n)) \<and>
     first_sync_time (eng n) \<noteq> -1 \<and>
     (pair_has_finished (eng n) \<longrightarrow> permitted_to_exit (eng n))"

definition finished_bit :: "node \<Rightarrow> nat" where
  "finished_bit n = (if finished_quantum (wwt n) then 1 else 0)"

definition pair_ok :: "int \<Rightarrow> nat \<Rightarrow> node \<Rightarrow> node \<Rightarrow> nat \<Rightarrow> nat \<Rightarrow> nat \<Rightarrow> nat \<Rightarrow> bool" where
  "pair_ok q k a b ra rb sa sb \<longleftrightarrow>
     node_ok q k a ra \<and> node_ok q k b rb \<and> comm_wf (comm a) \<and>
     chan_ok q k rb (tx_list (comm a)) sa \<and> chan_ok q k ra (rx_list (comm a)) sb \<and>
     round_of a \<le> sa \<and> sa \<le> round_of a + finished_bit a \<and>
     round_of b \<le> sb \<and> sb \<le> round_of b + finished_bit b \<and>
     exit_ok a b (tx_list (comm a)) (rx_list (comm a))"

text \<open>The rounds of two nodes in this relation differ by one at most.\<close>

lemma pair_rounds:
  assumes "pair_ok q k a b ra rb sa sb"
  shows "round_of a \<le> round_of b + finished_bit b" and "round_of b \<le> round_of a + finished_bit a"
    and "ra \<le> sb" and "rb \<le> sa" and "round_of a \<le> ra" and "round_of b \<le> rb"
  using assms chan_ok_le[of q k rb "tx_list (comm a)" sa] chan_ok_le[of q k ra "rx_list (comm a)" sb]
  by (auto simp: pair_ok_def node_ok_def)

section \<open>Quiet steps\<close>

lemma node_ok_quiet:
  assumes "node_ok q k n r" and "same_barrier n n'"
    and "pair_has_finished (eng n') \<Longrightarrow> permitted_to_exit (eng n')"
  shows "node_ok q k n' r"
  using assms unfolding node_ok_def same_barrier_def universal_def round_of_def armed_for_round_def context_ok_def by auto

lemma exit_flags_sends:
  assumes "exit_flags a b tx rx" and "end_after_permission (permitted_to_exit (eng a)) ms"
    and "permitted_to_exit (eng a') \<longleftrightarrow> permitted_to_exit (eng a) \<or> has_permission ms"
    and "has_permission ms \<longrightarrow> master (eng a)" and "master (eng a') = master (eng a)"
    and "pair_has_finished (eng a') = pair_has_finished (eng a)"
  shows "exit_flags a' b (tx @ ms) rx"
  using assms(1) unfolding exit_flags_def
proof (elim disjE)
  have en: "has_end ms \<Longrightarrow> permitted_to_exit (eng a')"
    using end_needs_permission[OF assms(2)] assms(3) by blast
  assume d: "exit_dir a b tx rx"
  have "end_after_permission (permitted_to_exit (eng b) \<or> has_permission tx) ms"
    by (rule end_after_permission_mono[OF assms(2)]) (use d in \<open>simp add: exit_dir_def\<close>)
  moreover have e: "end_after_permission (permitted_to_exit (eng a)) rx"
    using d unfolding exit_dir_def by (elim conjE)
  have "end_after_permission (permitted_to_exit (eng a')) rx"
    by (rule end_after_permission_mono[OF e]) (simp add: assms(3))
  ultimately have "exit_dir a' b (tx @ ms) rx"
    using d assms en by (auto simp: exit_dir_def)
  then show "exit_dir a' b (tx @ ms) rx \<or> exit_dir b a' rx (tx @ ms)" ..
next
  assume d: "exit_dir b a rx tx"
  then have np: "\<not> has_permission ms" and p: "permitted_to_exit (eng a') = permitted_to_exit (eng a)"
    using assms(3,4) by (auto simp: exit_dir_def)
  have "end_after_permission (permitted_to_exit (eng b) \<or> has_permission tx) ms"
    by (rule end_after_permission_mono[OF assms(2)]) (use d in \<open>simp add: exit_dir_def\<close>)
  then have "exit_dir b a' rx (tx @ ms)"
    using d np p assms(5,6) end_needs_permission[OF assms(2)] by (auto simp: exit_dir_def)
  then show "exit_dir a' b (tx @ ms) rx \<or> exit_dir b a' rx (tx @ ms)" ..
qed

lemma exit_ok_sends:
  assumes "exit_ok a b tx rx" and "end_after_permission (permitted_to_exit (eng a)) ms"
    and "permitted_to_exit (eng a') \<longleftrightarrow> permitted_to_exit (eng a) \<or> has_permission ms"
    and "has_permission ms \<longrightarrow> master (eng a)" and "master (eng a') = master (eng a)"
    and "pair_has_finished (eng a') = pair_has_finished (eng a)"
    and "of_bool (end_message_sent (eng a')) = sent_ends ms + of_bool (end_message_sent (eng a))"
  shows "exit_ok a' b (tx @ ms) rx"
  using assms(1) exit_flags_sends[OF _ assms(2-6)] assms(6,7) by (simp add: exit_ok_def one_end_def)

lemma pair_quiet:
  assumes "pair_ok q k a b ra rb sa sb" and "quiet a a'"
  shows "pair_ok q k a' b ra rb sa sb"
proof -
  from assms obtain ms where s: "sends_control a a' ms" and b: "same_barrier a a'"
    by (auto simp: quiet_def pair_ok_def)
  have "pair_has_finished (eng a') \<Longrightarrow> permitted_to_exit (eng a')"
    using s assms(1) by (auto simp: sends_control_def pair_ok_def node_ok_def)
  then have n: "node_ok q k a' ra"
    using assms(1) b node_ok_quiet by (auto simp: pair_ok_def)
  have c: "chan_ok q k rb (tx_list (comm a')) sa"
    using s assms(1) by (auto simp: sends_control_def pair_ok_def chan_ok_append chan_ok_control)
  have "exit_ok a' b (tx_list (comm a')) (rx_list (comm a'))"
    using exit_ok_sends[of a b "tx_list (comm a)" "rx_list (comm a)" ms a'] s b assms(1)
    by (simp add: sends_control_def same_barrier_def pair_ok_def)
  with n c show ?thesis
    using s b assms(1)
    by (auto simp: pair_ok_def sends_control_def same_barrier_def round_of_def finished_bit_def)
qed

end
