(* ===== verification/Polling.thy ===== *)
theory Polling
  imports Engine
begin

text \<open>
  The contract between \<open>pdes_engine_poll\<close> and the strategy whose callback it calls. A strategy
  gives an invariant that the treatment of one message keeps, and the faults it may end in; what
  polling then guarantees is proved here once: the invariant holds afterwards, the ring is
  empty, no other fault occurs, and any fuel beyond the number of queued messages gives the
  same result. \<open>poll_client_total\<close> adds that treating a message returns.
\<close>

lemma rx_list_bound: "comm_wf c \<Longrightarrow> length (rx_list c) \<le> 8191"
  by (auto elim!: comm_wfE simp: rx_list_def ring_len_bound)

lemma poll_loop_nothing:
  assumes "comm_wf (comm n)" and "rx_list (comm n) = []"
  shows "poll_loop (Suc f) cb n = Inr n"
proof -
  have "(pdes_comm_recv (comm n) True :: (node, int \<times> message option \<times> comm option) res) =
      Inr (NO_MESSAGE, None, comm n)"
    using recv_none[OF assms] by simp
  then show ?thesis by simp
qed

lemma engine_poll_nothing:
  assumes "comm_wf (comm n)" and "rx_list (comm n) = []"
  shows "pdes_engine_poll cb n = Inr n"
  using poll_loop_nothing[OF assms, of 8191 cb] by (simp add: pdes_engine_poll_def)

text \<open>One turn of the loop that finds a message.\<close>

definition recv_one :: "(message \<Rightarrow> node \<Rightarrow> (node, node) res) \<Rightarrow> node \<Rightarrow> node \<Rightarrow> bool" where
  "recv_one cb n n' \<longleftrightarrow> (\<exists>i m c. (pdes_comm_recv (comm n) True :: (node, int \<times> message option \<times> comm option) res) =
     Inr (i, Some m, c) \<and> 0 \<le> i \<and> process_message cb m (n\<lparr>comm := c\<rparr>) = Inr n')"

locale poll_client =
  fixes cb :: "message \<Rightarrow> node \<Rightarrow> (node, node) res"
    and inv :: "node \<Rightarrow> bool"
    and allowed :: "node fault \<Rightarrow> bool"
  assumes inv_comm: "inv n \<Longrightarrow> comm_wf (comm n)"
    and inv_length: "inv n \<Longrightarrow> m \<in> set (rx_list (comm n)) \<Longrightarrow> unat (len m) \<le> MAX_MSG_SIZE"
    and message_keeps: "inv n \<Longrightarrow> rx_list (comm n) = m # ms \<Longrightarrow> comm_wf c \<Longrightarrow> rx_list c = ms \<Longrightarrow>
      tx_list c = tx_list (comm n) \<Longrightarrow> process_message cb m (n\<lparr>comm := c\<rparr>) = Inr n' \<Longrightarrow>
      inv n' \<and> rx_list (comm n') = ms"
    and message_fault: "inv n \<Longrightarrow> rx_list (comm n) = m # ms \<Longrightarrow> comm_wf c \<Longrightarrow> rx_list c = ms \<Longrightarrow>
      tx_list c = tx_list (comm n) \<Longrightarrow> process_message cb m (n\<lparr>comm := c\<rparr>) = Inl e \<Longrightarrow> allowed e"
begin

lemma poll_loop_empty:
  assumes "inv n" and "rx_list (comm n) = []"
  shows "poll_loop (Suc f) cb n = Inr n"
  by (rule poll_loop_nothing[OF inv_comm[OF assms(1)] assms(2)])

lemma poll_loop_message:
  assumes "inv n" and "rx_list (comm n) = m # ms"
  obtains c where "comm_wf c" and "rx_list c = ms" and "tx_list c = tx_list (comm n)"
    and "\<And>f. poll_loop (Suc f) cb n = bindE (process_message cb m (n\<lparr>comm := c\<rparr>)) (poll_loop f cb)"
    and "\<And>n'. recv_one cb n n' \<longleftrightarrow> process_message cb m (n\<lparr>comm := c\<rparr>) = Inr n'"
proof -
  obtain c where r: "(pdes_comm_recv (comm n) True :: (node, int \<times> message option \<times> comm option) res) =
      Inr (sint (len m), Some m, c)"
    and c: "comm_wf c" "rx_list c = ms" "tx_list c = tx_list (comm n)"
    using recv_some[OF inv_comm[OF assms(1)] assms(2), where ?'a = node] by blast
  have l: "0 \<le> sint (len m)"
    using inv_length[OF assms(1)] assms(2) by (intro sint_len_nonneg) simp
  then have "poll_loop (Suc f) cb n = bindE (process_message cb m (n\<lparr>comm := c\<rparr>)) (poll_loop f cb)" for f
    using r by (simp add: NO_MESSAGE_def)
  moreover have "recv_one cb n n' \<longleftrightarrow> process_message cb m (n\<lparr>comm := c\<rparr>) = Inr n'" for n'
    using r l by (auto simp: recv_one_def)
  ultimately show thesis using c that by blast
qed

lemma recv_one_nothing:
  assumes "inv n" and "rx_list (comm n) = []"
  shows "\<not> recv_one cb n n'"
proof -
  have "(pdes_comm_recv (comm n) True :: (node, int \<times> message option \<times> comm option) res) =
      Inr (NO_MESSAGE, None, comm n)"
    using recv_none[OF inv_comm[OF assms(1)] assms(2)] by simp
  then show ?thesis by (simp add: recv_one_def)
qed

lemma poll_loop_keeps:
  "inv n \<Longrightarrow> poll_loop f cb n = Inr n' \<Longrightarrow> inv n' \<and> rx_list (comm n') = []"
proof (induction f arbitrary: n)
  case (Suc f)
  show ?case
  proof (cases "rx_list (comm n)")
    case Nil
    with poll_loop_empty[OF Suc.prems(1) Nil] Suc.prems show ?thesis by simp
  next
    case (Cons m ms)
    from poll_loop_message[OF Suc.prems(1) Cons] obtain c where
      c: "comm_wf c" "rx_list c = ms" "tx_list c = tx_list (comm n)"
      and e: "poll_loop (Suc f) cb n = bindE (process_message cb m (n\<lparr>comm := c\<rparr>)) (poll_loop f cb)"
      by metis
    from e Suc.prems(2) obtain n1 where n1: "process_message cb m (n\<lparr>comm := c\<rparr>) = Inr n1"
      and r: "poll_loop f cb n1 = Inr n'" by (metis bindE_InrE)
    from message_keeps[OF Suc.prems(1) Cons c n1] Suc.IH[OF _ r] show ?thesis by blast
  qed
qed simp

text \<open>A poll that returns is the sequence of its turns, up to the empty ring.\<close>

lemma poll_loop_steps:
  "inv n \<Longrightarrow> poll_loop f cb n = Inr n' \<Longrightarrow> (recv_one cb)\<^sup>*\<^sup>* n n'"
proof (induction f arbitrary: n)
  case (Suc f)
  show ?case
  proof (cases "rx_list (comm n)")
    case Nil
    with poll_loop_empty[OF Suc.prems(1) Nil] Suc.prems(2) show ?thesis by simp
  next
    case (Cons m ms)
    from poll_loop_message[OF Suc.prems(1) Cons] obtain c where
      c: "comm_wf c" "rx_list c = ms" "tx_list c = tx_list (comm n)"
      and q: "poll_loop (Suc f) cb n = bindE (process_message cb m (n\<lparr>comm := c\<rparr>)) (poll_loop f cb)"
      and o: "\<And>n'. recv_one cb n n' \<longleftrightarrow> process_message cb m (n\<lparr>comm := c\<rparr>) = Inr n'"
      by metis
    from q Suc.prems(2) obtain n1 where n1: "process_message cb m (n\<lparr>comm := c\<rparr>) = Inr n1"
      and r: "poll_loop f cb n1 = Inr n'" by (metis bindE_InrE)
    have "inv n1" using message_keeps[OF Suc.prems(1) Cons c n1] ..
    from Suc.IH[OF this r] n1 o show ?thesis by (meson converse_rtranclp_into_rtranclp)
  qed
qed simp

lemma steps_poll_loop:
  assumes "(recv_one cb)\<^sup>*\<^sup>* n n'" and "inv n" and "rx_list (comm n') = []"
    and "length (rx_list (comm n)) < f"
  shows "poll_loop f cb n = Inr n'"
  using assms
proof (induction arbitrary: f rule: converse_rtranclp_induct)
  case base
  then obtain k where "f = Suc k" by (cases f) auto
  with poll_loop_empty[OF base.prems(1,2)] show ?case by simp
next
  case (step n n1)
  then obtain m ms where rx: "rx_list (comm n) = m # ms"
    using recv_one_nothing[OF step.prems(1)] by (cases "rx_list (comm n)") auto
  obtain k where f: "f = Suc k" using step.prems(3) by (cases f) auto
  from poll_loop_message[OF step.prems(1) rx] obtain c where
    c: "comm_wf c" "rx_list c = ms" "tx_list c = tx_list (comm n)"
    and q: "poll_loop f cb n = bindE (process_message cb m (n\<lparr>comm := c\<rparr>)) (poll_loop k cb)"
    and o: "process_message cb m (n\<lparr>comm := c\<rparr>) = Inr n1"
    using step.hyps(1) f by metis
  from message_keeps[OF step.prems(1) rx c o] have "inv n1" "length (rx_list (comm n1)) < k"
    using step.prems(3) rx f by simp_all
  from step.IH[OF this(1) step.prems(2) this(2)] q o show ?case by simp
qed

lemma poll_loop_fault:
  "inv n \<Longrightarrow> length (rx_list (comm n)) < f \<Longrightarrow> poll_loop f cb n = Inl e \<Longrightarrow> allowed e"
proof (induction f arbitrary: n)
  case (Suc f)
  show ?case
  proof (cases "rx_list (comm n)")
    case Nil
    with poll_loop_empty[OF Suc.prems(1) Nil] Suc.prems(3) show ?thesis by simp
  next
    case (Cons m ms)
    from poll_loop_message[OF Suc.prems(1) Cons] obtain c where
      c: "comm_wf c" "rx_list c = ms" "tx_list c = tx_list (comm n)"
      and q: "poll_loop (Suc f) cb n = bindE (process_message cb m (n\<lparr>comm := c\<rparr>)) (poll_loop f cb)"
      by metis
    show ?thesis
    proof (cases "process_message cb m (n\<lparr>comm := c\<rparr>)")
      case (Inl e')
      with message_fault[OF Suc.prems(1) Cons c] q Suc.prems(3) show ?thesis by simp
    next
      case (Inr n1)
      with message_keeps[OF Suc.prems(1) Cons c Inr] q Suc.prems(2,3) Cons Suc.IH[of n1] show ?thesis by simp
    qed
  qed
qed simp

text \<open>The fuel: one turn per queued message and one that finds the ring empty.\<close>

lemma poll_loop_fuel:
  "inv n \<Longrightarrow> length (rx_list (comm n)) < f \<Longrightarrow> poll_loop f cb n = poll_loop (Suc (length (rx_list (comm n)))) cb n"
proof (induction "rx_list (comm n)" arbitrary: n f)
  case Nil
  then obtain k where f: "f = Suc k" by (cases f) auto
  show ?case using poll_loop_empty[OF Nil.prems(1)] Nil.hyps by (simp only: f)
next
  case (Cons m ms)
  then obtain k where k: "f = Suc k" "length ms < k"
    by (metis Suc_lessE length_Cons)
  from poll_loop_message[OF Cons.prems(1) Cons.hyps(2)[symmetric]] obtain c where
    c: "comm_wf c" "rx_list c = ms" "tx_list c = tx_list (comm n)"
    and q: "\<And>f. poll_loop (Suc f) cb n = bindE (process_message cb m (n\<lparr>comm := c\<rparr>)) (poll_loop f cb)"
    by metis
  have "bindE (process_message cb m (n\<lparr>comm := c\<rparr>)) (poll_loop k cb) =
      bindE (process_message cb m (n\<lparr>comm := c\<rparr>)) (poll_loop (Suc (length ms)) cb)"
  proof (cases "process_message cb m (n\<lparr>comm := c\<rparr>)")
    case (Inr n1)
    note n1 = message_keeps[OF Cons.prems(1) Cons.hyps(2)[symmetric] c Inr]
    with Cons.hyps(1)[of n1 k] k(2) have "poll_loop k cb n1 = poll_loop (Suc (length ms)) cb n1" by simp
    then show ?thesis by (simp only: Inr bindE_Inr)
  qed simp
  then show ?case by (simp only: k(1) q Cons.hyps(2)[symmetric] length_Cons)
qed


lemma engine_poll_fault:
  assumes "inv n" and "pdes_engine_poll cb n = Inl e"
  shows "allowed e"
proof -
  have "length (rx_list (comm n)) < 8192"
    using rx_list_bound[OF inv_comm[OF assms(1)]] by simp
  from poll_loop_fault[OF assms(1) this] assms(2) show ?thesis by (simp only: pdes_engine_poll_def)
qed

lemma engine_poll_keeps:
  "inv n \<Longrightarrow> pdes_engine_poll cb n = Inr n' \<Longrightarrow> inv n' \<and> rx_list (comm n') = []"
  unfolding pdes_engine_poll_def by (rule poll_loop_keeps)

lemma engine_poll_steps:
  assumes "inv n"
  shows "pdes_engine_poll cb n = Inr n' \<longleftrightarrow> (recv_one cb)\<^sup>*\<^sup>* n n' \<and> rx_list (comm n') = []"
proof -
  have "length (rx_list (comm n)) < 8192"
    using rx_list_bound[OF inv_comm[OF assms]] by simp
  then show ?thesis
    unfolding pdes_engine_poll_def
    using poll_loop_steps[OF assms] poll_loop_keeps[OF assms] steps_poll_loop[OF _ assms] by metis
qed

lemma engine_poll:
  assumes "inv n"
  shows "pdes_engine_poll cb n = poll_loop (Suc (length (rx_list (comm n)))) cb n"
proof -
  have "length (rx_list (comm n)) < 8192"
    using rx_list_bound[OF inv_comm[OF assms]] by simp
  from poll_loop_fuel[OF assms this] show ?thesis by (simp only: pdes_engine_poll_def)
qed

end

locale poll_client_total = poll_client +
  assumes message_returns: "inv n \<Longrightarrow> rx_list (comm n) = m # ms \<Longrightarrow> comm_wf c \<Longrightarrow> rx_list c = ms \<Longrightarrow>
      tx_list c = tx_list (comm n) \<Longrightarrow> \<exists>n'. process_message cb m (n\<lparr>comm := c\<rparr>) = Inr n'"
begin

lemma poll_loop_returns:
  "inv n \<Longrightarrow> length (rx_list (comm n)) < f \<Longrightarrow> \<exists>n'. poll_loop f cb n = Inr n'"
proof (induction f arbitrary: n)
  case (Suc f)
  show ?case
  proof (cases "rx_list (comm n)")
    case Nil
    with poll_loop_empty[OF Suc.prems(1) Nil] show ?thesis by blast
  next
    case (Cons m ms)
    from poll_loop_message[OF Suc.prems(1) Cons] obtain c where
      c: "comm_wf c" "rx_list c = ms" "tx_list c = tx_list (comm n)"
      and q: "poll_loop (Suc f) cb n = bindE (process_message cb m (n\<lparr>comm := c\<rparr>)) (poll_loop f cb)"
      by metis
    obtain n1 where n1: "process_message cb m (n\<lparr>comm := c\<rparr>) = Inr n1"
      using message_returns[OF Suc.prems(1) Cons c] ..
    with message_keeps[OF Suc.prems(1) Cons c n1] Suc.IH[of n1] Suc.prems(2) Cons q show ?thesis by simp
  qed
qed simp

lemma engine_poll_returns:
  assumes "inv n"
  shows "\<exists>n'. pdes_engine_poll cb n = Inr n' \<and> inv n' \<and> rx_list (comm n') = []"
proof -
  have "length (rx_list (comm n)) < 8192"
    using rx_list_bound[OF inv_comm[OF assms]] by simp
  from poll_loop_returns[OF assms this] poll_loop_keeps[OF assms] show ?thesis
    unfolding pdes_engine_poll_def by blast
qed

end

end
