(* ===== verification/Barrier_Steps.thy ===== *)
theory Barrier_Steps
  imports Barrier Polling
begin

text \<open>
  The steps that move the barrier keep the pair invariant: receiving and dispatching one
  message, polling the whole ring, sending a packet, the end of a quantum and the passage of
  the barrier.
\<close>

section \<open>What the measures of a node depend on\<close>

lemma round_of_updates [simp]:
  "round_of (n\<lparr>comm := c\<rparr>) = round_of n" "round_of (n\<lparr>contexts := cs\<rparr>) = round_of n"
  "round_of (n\<lparr>eng := e\<rparr>) = round_of n"
  "current_quantum_round w = current_quantum_round (wwt n) \<Longrightarrow> round_of (n\<lparr>wwt := w\<rparr>) = round_of n"
  by (simp_all add: round_of_def)

lemma finished_bit_updates [simp]:
  "finished_bit (n\<lparr>comm := c\<rparr>) = finished_bit n" "finished_bit (n\<lparr>contexts := cs\<rparr>) = finished_bit n"
  "finished_bit (n\<lparr>eng := e\<rparr>) = finished_bit n"
  "finished_quantum w = finished_quantum (wwt n) \<Longrightarrow> finished_bit (n\<lparr>wwt := w\<rparr>) = finished_bit n"
  by (simp_all add: finished_bit_def)

lemma universal_updates [simp]:
  "universal (n\<lparr>comm := c\<rparr>) = universal n" "universal (n\<lparr>contexts := cs\<rparr>) = universal n"
  "universal (n\<lparr>wwt := w\<rparr>) = universal n"
  "universal (n\<lparr>eng := (eng n)\<lparr>permitted_to_exit := p\<rparr>\<rparr>) = universal n"
  "universal (n\<lparr>eng := (eng n)\<lparr>pair_has_finished := p\<rparr>\<rparr>) = universal n"
  by (simp_all add: universal_def)

lemma armed_updates [simp]:
  "armed_for_round q (n\<lparr>comm := c\<rparr>) = armed_for_round q n"
  "armed_for_round q (n\<lparr>contexts := cs\<rparr>) = armed_for_round q n"
  "current_quantum_round w = current_quantum_round (wwt n) \<Longrightarrow>
    quantum_timer w = quantum_timer (wwt n) \<Longrightarrow> armed_for_round q (n\<lparr>wwt := w\<rparr>) = armed_for_round q n"
  "armed_for_round q (n\<lparr>eng := (eng n)\<lparr>permitted_to_exit := p\<rparr>\<rparr>) = armed_for_round q n"
  "armed_for_round q (n\<lparr>eng := (eng n)\<lparr>pair_has_finished := p\<rparr>\<rparr>) = armed_for_round q n"
  by (simp_all add: armed_for_round_def)

lemma context_updates [simp]:
  "context_ok (n\<lparr>comm := x\<rparr>) = context_ok n" "context_ok (n\<lparr>contexts := cs\<rparr>) = context_ok n"
  "context_ok (n\<lparr>wwt := w\<rparr>) = context_ok n"
  "context_ok (n\<lparr>eng := (eng n)\<lparr>permitted_to_exit := p\<rparr>\<rparr>) = context_ok n"
  "context_ok (n\<lparr>eng := (eng n)\<lparr>pair_has_finished := p\<rparr>\<rparr>) = context_ok n"
  by (simp_all add: context_ok_def fun_eq_iff)

section \<open>The table of received SYNCs\<close>

lemma unat_key:
  assumes "r < 4294967296"
  shows "unat (ucast (of_nat r :: u64) :: u32) = r"
proof -
  have "unat (of_nat r :: u64) = r"
    using assms by (simp add: unat_of_nat)
  then show ?thesis
    using assms by (simp add: unsigned_ucast_eq take_bit_nat_eq_self)
qed

lemma received_table_step:
  assumes "r < 4294967296"
  shows "sync_count_increment (received_table r) (of_nat r) = received_table (Suc r)"
proof (rule ext)
  fix i :: u32
  have "(i = ucast (of_nat r :: u64)) = (unat i = r)"
    by (simp add: word_unat_eq_iff unat_key[OF assms])
  then show "sync_count_increment (received_table r) (of_nat r) i = received_table (Suc r) i"
    using unat_key[OF assms] by (auto simp: sync_count_increment_def received_table_def)
qed

lemma received_table_get:
  assumes "unat w < 4294967296"
  shows "sync_count_get (received_table r) w = (if unat w < r then 1 else 0)"
  using assms
  by (simp add: sync_count_get_def received_table_def unsigned_ucast_eq take_bit_nat_eq_self)

section \<open>Time\<close>

lemma universal_time:
  assumes "node_ok q k n r"
  shows "get_universal_virtual_time n = Inr (virt n - first_sync_virtual_time (eng n)) \<and>
    sint (virt n - first_sync_virtual_time (eng n)) = universal n"
proof -
  let ?f = "first_sync_virtual_time (eng n)"
  have f: "0 \<le> sint ?f" and u: "0 \<le> universal n" "universal n \<le> int (round_of n) * q"
    and b: "sint ?f + (int k + 2) * q < 9223372036854775808" and q: "0 < q" "round_of n \<le> k"
    using assms by (auto simp: node_ok_def)
  have "?f \<noteq> -1" using f by auto
  moreover have "int (round_of n) * q \<le> (int k + 2) * q"
    using q by (intro mult_right_mono) auto
  then have "in_i64 (universal n)" using u b f by (simp add: in_i64_def)
  ultimately show ?thesis
    by (simp add: get_universal_virtual_time_def universal_def sint_diff_i64)
qed

lemma universal_before:
  assumes "node_ok q k n r" and "int r * q \<le> x"
  shows "universal n \<le> x"
proof -
  have "int (round_of n) * q \<le> int r * q"
    using assms(1) by (intro mult_right_mono) (auto simp: node_ok_def)
  moreover have "universal n \<le> int (round_of n) * q"
    using assms(1) unfolding node_ok_def by (elim conjE)
  ultimately show ?thesis using assms(2) by linarith
qed

text \<open>A received packet is scheduled for a time that has not passed.\<close>

lemma packet_context:
  assumes n: "node_ok q k n r" and t: "packet_time q k r m"
  shows "context_ok n \<lparr>has_recv_cb = cb, ctx_msg = m,
    one_time_poll_timer = Armed (ts_ns m + first_sync_virtual_time (eng n)),
    timestamp_ns = ts_ns m + first_sync_virtual_time (eng n)\<rparr>"
proof -
  let ?f = "sint (first_sync_virtual_time (eng n))"
  have b: "0 \<le> ?f" "?f + (int k + 2) * q < 9223372036854775808" "0 < q" "0 \<le> universal n"
    using n unfolding node_ok_def by (elim conjE, simp)+
  have u: "universal n \<le> sint (ts_ns m)"
    using universal_before[OF n] t by (simp add: packet_time_def)
  have "sint (ts_ns m) \<le> (int k + 1) * q" using t by (simp add: packet_time_def)
  also have "\<dots> \<le> (int k + 2) * q" using b(3) by (intro mult_right_mono) auto
  finally have "in_i64 (sint (ts_ns m) + ?f)" using b u by (simp add: in_i64_def)
  then have "sint (ts_ns m + first_sync_virtual_time (eng n)) = sint (ts_ns m) + ?f"
    by (rule sint_add_i64)
  then show ?thesis using u by (simp add: context_ok_def universal_def)
qed

section \<open>One message\<close>

lemma told_simps:
  "mtype m = PERMISSION_TO_END_EMULATION \<Longrightarrow> told m n = n\<lparr>eng := (eng n)\<lparr>permitted_to_exit := True\<rparr>\<rparr>"
  "mtype m = END_OF_EMULATION \<Longrightarrow> told m n = n\<lparr>eng := (eng n)\<lparr>pair_has_finished := True\<rparr>\<rparr>"
  "mtype m \<noteq> PERMISSION_TO_END_EMULATION \<Longrightarrow> mtype m \<noteq> END_OF_EMULATION \<Longrightarrow> told m n = n"
  by (simp_all add: told_def msg_type_defs)

lemma exit_dir_pop_master:
  assumes "exit_dir a b tx (m # ms)"
  shows "(mtype m = END_OF_EMULATION \<longrightarrow> permitted_to_exit (eng a)) \<and> exit_dir (told m a) b tx ms"
proof -
  have no: "mtype m \<noteq> PERMISSION_TO_END_EMULATION" using assms by (simp add: exit_dir_def)
  show ?thesis
  proof (cases "mtype m = END_OF_EMULATION")
    case True
    then show ?thesis using assms
      by (auto simp: exit_dir_def told_simps msg_type_defs intro: end_after_permission_mono)
  next
    case False
    then have "mtype m \<noteq> END_OF_EMULATION" "told m a = a" using no by (simp_all add: told_simps)
    then show ?thesis using assms no by (auto simp: exit_dir_def)
  qed
qed

lemma exit_dir_pop_follower:
  assumes "exit_dir b a (m # ms) tx"
  shows "(mtype m = END_OF_EMULATION \<longrightarrow> permitted_to_exit (eng a)) \<and> exit_dir b (told m a) ms tx"
proof -
  consider (p) "mtype m = PERMISSION_TO_END_EMULATION" | (e) "mtype m = END_OF_EMULATION"
    | (o) "mtype m \<noteq> PERMISSION_TO_END_EMULATION" "mtype m \<noteq> END_OF_EMULATION" by blast
  then show ?thesis
  proof cases
    case p
    then show ?thesis using assms
      by (auto simp: exit_dir_def told_simps msg_type_defs intro: end_after_permission_mono)
  next
    case e
    then show ?thesis using assms
      by (auto simp: exit_dir_def told_simps msg_type_defs intro: end_after_permission_mono)
  next
    case o
    then have "told m a = a" by (simp add: told_simps)
    then show ?thesis using assms o by (auto simp: exit_dir_def)
  qed
qed

lemma one_end_pop:
  assumes "one_end b a (m # ms)"
  shows "one_end b (told m a) ms"
proof (cases "mtype m = END_OF_EMULATION")
  case True
  with assms have "\<not> pair_has_finished (eng a)"
    by (cases "end_message_sent (eng b)") (auto simp: one_end_def)
  with True assms show ?thesis by (simp add: one_end_def told_simps)
next
  case False
  then show ?thesis using assms by (simp add: one_end_def told_def)
qed

lemma exit_ok_pop:
  assumes "exit_ok a b tx (m # ms)"
  shows "(mtype m = END_OF_EMULATION \<longrightarrow> permitted_to_exit (eng a)) \<and>
    exit_ok (told m a) b tx ms"
proof -
  have "exit_flags a b tx (m # ms)" "one_end a b tx" "one_end b a (m # ms)"
    using assms by (simp_all add: exit_ok_def)
  moreover from this(2) have "one_end (told m a) b tx" by (simp add: one_end_def told_def)
  ultimately show ?thesis
    using exit_dir_pop_master exit_dir_pop_follower one_end_pop unfolding exit_ok_def exit_flags_def by blast
qed

lemma exit_ok_eng:
  assumes "exit_ok a b tx rx" and "eng a' = eng a"
  shows "exit_ok a' b tx rx"
  using assms by (simp add: exit_ok_def exit_flags_def exit_dir_def one_end_def)

text \<open>The round of a SYNC is the receiver's round, or the next one when it has finished too.\<close>

lemma sync_round_valid:
  assumes "pair_ok q k a b ra rb sa sb" and "chan_ok q k (Suc ra) ms sb"
  shows "valid_round (wwt a) (of_nat ra)" and "ra < 4294967296"
proof -
  note r = pair_rounds[OF assms(1)]
  have "Suc ra \<le> sb" using assms(2) by (rule chan_ok_le)
  then have "ra \<le> round_of b" using assms(1) by (auto simp: pair_ok_def finished_bit_def split: if_splits)
  then have u: "ra \<le> round_of a + finished_bit a" using r(2) by simp
  have w: "current_quantum_round (wwt a) = of_nat (round_of a)" by (simp add: round_of_def)
  show "valid_round (wwt a) (of_nat ra)"
  proof (cases "ra = round_of a")
    case False
    with u r(5) have "ra = round_of a + 1" and "finished_quantum (wwt a)"
      by (auto simp: finished_bit_def split: if_splits)
    then show ?thesis using w by (simp add: valid_round_def)
  qed (simp add: valid_round_def w)
  show "ra < 4294967296"
    using \<open>ra \<le> round_of b\<close> assms(1) by (simp add: pair_ok_def node_ok_def)
qed

text \<open>The callback, on the node whose communicator has already given the message away.\<close>

lemma callback_step:
  assumes p: "pair_ok q k a b ra rb sa sb" and rx: "rx_list (comm a) = m # ms"
  shows "\<exists>a1. wwt_recivied_callback m (a\<lparr>comm := c\<rparr>) = Inr a1 \<and>
      (\<exists>ra'. node_ok q k a1 ra' \<and> chan_ok q k ra' ms sb) \<and> eng a1 = eng a \<and> comm a1 = c \<and>
      round_of a1 = round_of a \<and> finished_bit a1 = finished_bit a \<and>
      sync_check_timer (wwt a1) = sync_check_timer (wwt a) \<and> platform a1 = platform a"
proof -
  let ?a = "a\<lparr>comm := c\<rparr>"
  have n: "node_ok q k a ra" and ch: "chan_ok q k ra (m # ms) sb"
    using p rx by (auto simp: pair_ok_def)
  have n': "node_ok q k ?a ra"
    using n by (simp add: node_ok_def)
  have s: "should_sync (wwt a)" using n by (simp add: node_ok_def)
  note u = universal_time[OF n']
  consider (sync) "mtype m = MSG_TYPE_SYNC" | (normal) "mtype m = MSG_TYPE_NORMAL"
    | (other) "mtype m \<noteq> MSG_TYPE_SYNC" "mtype m \<noteq> MSG_TYPE_NORMAL" by blast
  then show ?thesis
  proof cases
    case sync
    with ch have r: "sync_round_of m = of_nat ra" and ch': "chan_ok q k (Suc ra) ms sb" by auto
    let ?a1 = "?a\<lparr>wwt := (wwt a)\<lparr>sync_counts := received_table (Suc ra)\<rparr>\<rparr>"
    have "sync_counts (wwt a) = received_table ra" using n by (simp add: node_ok_def)
    then have "wwt_recivied_callback m ?a = Inr ?a1"
      using sync u s r sync_round_valid[OF p ch']
      by (simp add: wwt_recivied_callback_def receive_sync_def received_table_step)
    moreover have "node_ok q k ?a1 (Suc ra)"
      using n by (simp add: node_ok_def)
    ultimately show ?thesis
      using ch' by auto
  next
    case normal
    with ch have t: "packet_time q k ra m" and ch': "chan_ok q k ra ms sb"
      by (auto simp: msg_type_defs)
    let ?raw = "ts_ns m + first_sync_virtual_time (eng a)"
    let ?c = "\<lparr>has_recv_cb = True, ctx_msg = m, one_time_poll_timer = Armed ?raw, timestamp_ns = ?raw\<rparr>"
    have "universal ?a \<le> sint (ts_ns m)"
      using universal_before[OF n'] t by (simp add: packet_time_def)
    then have "wwt_recivied_callback m ?a = Inr (?a\<lparr>contexts := contexts a @ [?c]\<rparr>)"
      using normal u s
      by (simp add: wwt_recivied_callback_def receive_normal_def Let_def msg_type_defs)
    moreover have "node_ok q k (?a\<lparr>contexts := contexts a @ [?c]\<rparr>) ra"
      using n packet_context[OF n t] by (auto simp: node_ok_def)
    ultimately show ?thesis using ch' by auto
  next
    case other
    with ch have "chan_ok q k ra ms sb" by auto
    with other u n' show ?thesis
      by (auto simp: wwt_recivied_callback_def round_of_def finished_bit_def)
  qed
qed

text \<open>What polling and receiving leave as it was.\<close>

definition same_phase :: "node \<Rightarrow> node \<Rightarrow> bool" where
  "same_phase a a' \<longleftrightarrow> round_of a' = round_of a \<and> finished_bit a' = finished_bit a \<and>
     (sync_check_timer (wwt a') \<noteq> No_Timer \<longrightarrow> sync_check_timer (wwt a) \<noteq> No_Timer)"

lemma same_phase_refl [simp]: "same_phase a a"
  by (simp add: same_phase_def)

lemma same_phase_trans: "same_phase a b \<Longrightarrow> same_phase b c \<Longrightarrow> same_phase a c"
  by (simp add: same_phase_def)

lemma quiet_same_phase: "quiet a a' \<Longrightarrow> same_phase a a'"
  by (simp add: quiet_def same_barrier_def same_phase_def round_of_def finished_bit_def)

lemma pair_receive:
  assumes p: "pair_ok q k a b ra rb sa sb" and rx: "rx_list (comm a) = m # ms"
    and c: "comm_wf c" "rx_list c = ms" "tx_list c = tx_list (comm a)"
  shows "safe_res (process_message wwt_recivied_callback m (a\<lparr>comm := c\<rparr>)) \<and>
    (\<forall>a'. process_message wwt_recivied_callback m (a\<lparr>comm := c\<rparr>) = Inr a' \<longrightarrow>
      (\<exists>ra'. pair_ok q k a' b ra' rb sa sb) \<and> rx_list (comm a') = ms \<and> same_phase a a')"
proof -
  from callback_step[OF p rx, of c] obtain a1 ra' where cb: "wwt_recivied_callback m (a\<lparr>comm := c\<rparr>) = Inr a1"
    and n1: "node_ok q k a1 ra'"
    and ch: "chan_ok q k ra' ms sb" and e: "eng a1 = eng a" and c1: "comm a1 = c"
    and ph: "round_of a1 = round_of a" "finished_bit a1 = finished_bit a"
      "sync_check_timer (wwt a1) = sync_check_timer (wwt a)" by blast
  let ?a2 = "told m a1"
  have e2: "comm ?a2 = comm a1" "wwt ?a2 = wwt a1" "round_of ?a2 = round_of a1"
    "finished_bit ?a2 = finished_bit a1"
    by (simp_all add: told_def)
  have "exit_ok a1 b (tx_list c) (m # ms)"
    using p rx c exit_ok_eng[OF _ e] by (simp add: pair_ok_def)
  note x = exit_ok_pop[OF this]
  have n2: "node_ok q k ?a2 ra'"
    using n1 x by (auto simp: node_ok_def told_def)
  have p2: "pair_ok q k ?a2 b ra' rb sa sb"
    using p n2 x c c1 ch ph e2 by (simp add: pair_ok_def)
  have s2: "same_phase a ?a2" and l2: "rx_list (comm ?a2) = ms" and w2: "comm_wf (comm ?a2)"
    using ph c c1 e2 by (simp_all add: same_phase_def)
  have "safe_res (process_control m a1)"
    using x by (intro safe_control) (simp add: e)
  moreover have "(\<exists>ra'. pair_ok q k a' b ra' rb sa sb) \<and> rx_list (comm a') = ms \<and> same_phase a a'"
    if r: "process_control m a1 = Inr a'" for a'
  proof -
    have t: "quiet ?a2 a'" using quiet_control r by (rule quiet_resD)
    have "rx_list (comm a') = ms"
      using t w2 l2 by (auto simp: quiet_def sends_control_def)
    with pair_quiet[OF p2 t] same_phase_trans[OF s2 quiet_same_phase[OF t]] show ?thesis by blast
  qed
  ultimately show ?thesis
    using cb by (simp add: process_message_def)
qed

section \<open>Polling\<close>

text \<open>The barrier strategy is a client of the polling contract: it keeps the pair invariant.\<close>

definition polling :: "int \<Rightarrow> nat \<Rightarrow> node \<Rightarrow> nat \<Rightarrow> nat \<Rightarrow> nat \<Rightarrow> node \<Rightarrow> node \<Rightarrow> bool" where
  "polling q k b rb sa sb a0 a \<longleftrightarrow> (\<exists>ra. pair_ok q k a b ra rb sa sb) \<and> same_phase a0 a"

lemma pollingI: "pair_ok q k a b ra rb sa sb \<Longrightarrow> polling q k b rb sa sb a a"
  by (auto simp: polling_def)

interpretation wwt_poll: poll_client wwt_recivied_callback "polling q k b rb sa sb a0"
  "\<lambda>e. \<not> protocol_fault e" for q k b rb sa sb a0
proof unfold_locales
  fix n m ms c n' e
  assume i: "polling q k b rb sa sb a0 n"
  show "comm_wf (comm n)" using i by (auto simp: polling_def pair_ok_def)
  show "unat (len m) \<le> MAX_MSG_SIZE" if "m \<in> set (rx_list (comm n))"
    using i that chan_ok_length by (auto simp: polling_def pair_ok_def)
  obtain ra where p: "pair_ok q k n b ra rb sa sb" and s: "same_phase a0 n"
    using i by (auto simp: polling_def)
  assume rx: "rx_list (comm n) = m # ms" and c: "comm_wf c" "rx_list c = ms" "tx_list c = tx_list (comm n)"
  note r = pair_receive[OF p rx c]
  show "polling q k b rb sa sb a0 n' \<and> rx_list (comm n') = ms"
    if "process_message wwt_recivied_callback m (n\<lparr>comm := c\<rparr>) = Inr n'"
    using r that same_phase_trans[OF s] by (auto simp: polling_def)
  show "\<not> protocol_fault e" if "process_message wwt_recivied_callback m (n\<lparr>comm := c\<rparr>) = Inl e"
    using r that by (simp add: safe_res_def)
qed

lemma poll_pair:
  assumes "pair_ok q k a b ra rb sa sb"
  shows "safe_res (poll a)"
    and "poll a = Inr a' \<Longrightarrow> \<exists>ra'. pair_ok q k a' b ra' rb sa sb"
    and "poll a = Inr a' \<Longrightarrow> rx_list (comm a') = []"
    and "poll a = Inr a' \<Longrightarrow> same_phase a a'"
  using wwt_poll.engine_poll_keeps[OF pollingI[OF assms]] wwt_poll.engine_poll_fault[OF pollingI[OF assms]]
  by (auto simp: poll_def safe_res_def polling_def)


section \<open>Sending packets and SYNCs\<close>

lemma pair_append:
  assumes p: "pair_ok q k a b ra rb sa sb"
    and c: "comm_wf c" "tx_list c = tx_list (comm a) @ [m]" "rx_list c = rx_list (comm a)"
    and m: "mtype m = MSG_TYPE_SYNC \<or> mtype m = MSG_TYPE_NORMAL" "chan_ok q k sa [m] sa'"
    and b: "sa' \<le> round_of a + finished_bit a"
  shows "pair_ok q k (a\<lparr>comm := c\<rparr>) b ra rb sa' sb"
proof -
  have "sa \<le> sa'" using m(2) by (rule chan_ok_le)
  moreover have "chan_ok q k rb (tx_list c) sa'"
    using p m(2) c(2) by (auto simp: pair_ok_def chan_ok_append)
  moreover have "exit_ok (a\<lparr>comm := c\<rparr>) b (tx_list c) (rx_list c)"
    using exit_ok_sends[of a b "tx_list (comm a)" "rx_list (comm a)" "[m]" "a\<lparr>comm := c\<rparr>"] p m(1) c
    by (auto simp: pair_ok_def msg_type_defs)
  ultimately show ?thesis
    using p c b by (auto simp: pair_ok_def node_ok_def)
qed

lemma engine_send_returns:
  assumes "pdes_engine_send m a = Inr (i, a')" and "comm_wf (comm a)" and "first_sync_time (eng a) \<noteq> -1"
  shows "i = 0 \<and> (\<exists>c. a' = a\<lparr>comm := c\<rparr> \<and> comm_wf c \<and> tx_list c = tx_list (comm a) @ [m] \<and>
    rx_list c = rx_list (comm a))"
  using assms comm_send_returns[of m a] by (auto simp: pdes_engine_send_def elim!: bindE_InrE)

text \<open>The stamp of a packet: one latency after the sender's time, so not before its last SYNC.\<close>

lemma packet_stamp:
  assumes n: "node_ok q k a ra" and t: "get_universal_virtual_time a = Inr t"
    and s: "sa \<le> round_of a + finished_bit a"
  shows "sint (t + wwt_latencyns (wwt a)) = universal a + q \<and>
    int sa * q \<le> universal a + q \<and> universal a + q \<le> (int k + 1) * q"
proof -
  have u: "sint t = universal a" using universal_time[OF n] t by simp
  have q: "0 < q" "round_of a \<le> k" "universal a \<le> int (round_of a) * q" "0 \<le> universal a"
    "(int (round_of a) - 1) * q \<le> universal a"
    "finished_quantum (wwt a) \<longrightarrow> universal a = int (round_of a) * q"
    "sint (first_sync_virtual_time (eng a)) + (int k + 2) * q < 9223372036854775808"
    "0 \<le> sint (first_sync_virtual_time (eng a))"
    "wwt_latencyns (wwt a) = word_of_int q"
    using n unfolding node_ok_def by (elim conjE, assumption | simp)+
  have "int (round_of a) * q \<le> int k * q" using q by (intro mult_right_mono) auto
  then have hi: "universal a + q \<le> (int k + 1) * q"
    using q(3) by (simp add: distrib_right)
  moreover have "(int k + 2) * q = (int k + 1) * q + q" by (simp add: distrib_right)
  ultimately have r: "in_i64 (universal a + q)" and q1: "in_i64 q"
    using q by (simp_all add: in_i64_def)
  have "sint (t + wwt_latencyns (wwt a)) = universal a + q"
    using sint_add_i64[of t "word_of_int q"] r q1 u q(9) by simp
  moreover have "int sa * q \<le> universal a + q"
  proof (cases "finished_quantum (wwt a)")
    case True
    then have "int sa * q \<le> (int (round_of a) + 1) * q"
      using s q(1) by (intro mult_right_mono) (auto simp: finished_bit_def)
    then show ?thesis using q(6) True by (simp add: distrib_right)
  next
    case False
    then have "int sa * q \<le> int (round_of a) * q"
      using s q(1) by (intro mult_right_mono) (auto simp: finished_bit_def)
    moreover have "(int (round_of a) - 1) * q = int (round_of a) * q - q" by (simp add: left_diff_distrib)
    ultimately show ?thesis using q(5) by linarith
  qed
  ultimately show ?thesis using hi by blast
qed


section \<open>Receiving returns\<close>

text \<open>
  Receiving sends one message at most, the END that answers PERMISSION; so a free slot, or the
  END sent already, is enough for any number of messages.
\<close>

definition room :: "node \<Rightarrow> bool" where
  "room n \<longleftrightarrow> length (tx_list (comm n)) < 8191 \<or> end_message_sent (eng n)"

lemma parse_returns:
  assumes "length_ok m" and "mtype m = DRAIN_START"
  shows "\<exists>x. (parse_drain_start m :: ('n, string \<times> u32 \<times> u64) res) = Inr x"
proof -
  have "12 \<le> unat (len m)" "unat (len m) \<le> 2048"
    using assms by (simp_all add: length_ok_def MAX_MSG_SIZE_def)
  moreover define j where "j = unat (len m) - 12"
  ultimately have l: "unat (len m) = j + 12" "j \<le> 2036" by linarith+
  then have "unat (name_len_of m) = j" by (rule name_len_drain)
  then show ?thesis
    using l by (simp add: parse_drain_start_def Let_def MAX_MSG_SIZE_def CHECKPOINT_NAME_SIZE_def
        SIZEOF_FORMAT_def SIZEOF_ROUND_def)
qed

lemma send_control_succeeds:
  assumes "comm_wf (comm n)" and "first_sync_virtual_time (eng n) \<noteq> -1"
    and "length (tx_list (comm n)) < 8191"
  shows "\<exists>c x. send_control ty n = Inr (n\<lparr>comm := c\<rparr>) \<and> comm_wf c \<and> mtype x = ty \<and> len x = 0 \<and>
    tx_list c = tx_list (comm n) @ [x] \<and> rx_list c = rx_list (comm n)"
proof -
  let ?x = "\<lparr>ts_ns = virt n - first_sync_virtual_time (eng n), len = 0,
    data = replicate MAX_MSG_SIZE 0, mtype = ty\<rparr>"
  obtain c where c: "comm_send ?x n = Inr (0, n\<lparr>comm := c\<rparr>)" "comm_wf c"
    "tx_list c = tx_list (comm n) @ [?x]" "rx_list c = rx_list (comm n)"
    using comm_send_returns_iff[OF assms(1,3)] by blast
  then have "send_control ty n = Inr (n\<lparr>comm := c\<rparr>)"
    using assms(2) by (simp add: send_control_def get_universal_virtual_time_def create_message_empty)
  with c show ?thesis by (intro exI[of _ c] exI[of _ ?x]) simp
qed

lemma send_end_returns:
  assumes "comm_wf (comm n)" and "first_sync_virtual_time (eng n) \<noteq> -1" and "room n"
  shows "\<exists>n'. send_end_if_handshake_complete n = Inr n' \<and> room n'"
proof (cases "permitted_to_exit (eng n) \<and> \<not> end_message_sent (eng n)")
  case True
  then show ?thesis
    using send_control_succeeds[of "n\<lparr>eng := (eng n)\<lparr>end_message_sent := True\<rparr>\<rparr>" END_OF_EMULATION] assms
    by (auto simp: send_end_if_handshake_complete_def room_def)
next
  case False
  then show ?thesis using assms(3) by (auto simp: send_end_if_handshake_complete_def)
qed

lemma control_returns:
  assumes "comm_wf (comm n)" and "first_sync_virtual_time (eng n) \<noteq> -1" and "room n"
    and "length_ok m" and "mtype m = END_OF_EMULATION \<longrightarrow> permitted_to_exit (eng n)"
  shows "\<exists>n'. process_control m n = Inr n' \<and> room n'"
proof -
  have r: "room (n\<lparr>eng := e\<rparr>)" if "end_message_sent e = end_message_sent (eng n)" for e
    using assms(3) that by (simp add: room_def)
  consider (permission) "mtype m = PERMISSION_TO_END_EMULATION" | (ending) "mtype m = END_OF_EMULATION"
    | (intent) "mtype m = INTENT_TO_END_EMULATION" | (drain) "mtype m = DRAIN_START"
    | (other) "mtype m \<noteq> PERMISSION_TO_END_EMULATION" "mtype m \<noteq> END_OF_EMULATION"
        "mtype m \<noteq> INTENT_TO_END_EMULATION" "mtype m \<noteq> DRAIN_START" by blast
  then show ?thesis
  proof cases
    case permission
    let ?n = "n\<lparr>eng := (eng n)\<lparr>permitted_to_exit := True\<rparr>\<rparr>"
    have "process_control m n = send_end_if_handshake_complete ?n"
      using permission by (simp add: process_control_def process_permission_def msg_type_defs)
    then show ?thesis using send_end_returns[of ?n] assms(1,2) r by simp
  next
    case ending
    then show ?thesis
      using assms(5) r by (simp add: process_control_def process_end_def msg_type_defs)
  next
    case intent
    then show ?thesis
      using r assms(3) by (simp add: process_control_def process_intent_def msg_type_defs)
  next
    case drain
    then obtain x where "(parse_drain_start m :: (node, string \<times> u32 \<times> u64) res) = Inr x"
      using parse_returns[OF assms(4)] by blast
    then show ?thesis
      using drain r by (cases x) (simp add: process_control_def process_drain_start_def msg_type_defs Let_def)
  next
    case other
    then show ?thesis
      using r assms(3) by (simp add: process_control_def process_drain_end_def process_init_step_def
          set_checkpoint_values_for_master_def Let_def)
  qed
qed

lemma receive_returns:
  assumes p: "pair_ok q k a b ra rb sa sb" and rx: "rx_list (comm a) = m # ms" and r: "room a"
    and c: "comm_wf c" "rx_list c = ms" "tx_list c = tx_list (comm a)"
  shows "\<exists>a'. process_message wwt_recivied_callback m (a\<lparr>comm := c\<rparr>) = Inr a' \<and> room a'"
proof -
  from callback_step[OF p rx, of c] obtain a1 ra' where cb: "wwt_recivied_callback m (a\<lparr>comm := c\<rparr>) = Inr a1"
    and n1: "node_ok q k a1 ra'" and e: "eng a1 = eng a" "comm a1 = c" by blast
  have x: "exit_ok a b (tx_list (comm a)) (m # ms)" and l: "length_ok m"
    using p rx by (simp_all add: pair_ok_def)
  have f: "first_sync_virtual_time (eng a1) \<noteq> -1" using n1 by (auto simp: node_ok_def)
  have "mtype m = END_OF_EMULATION \<longrightarrow> permitted_to_exit (eng a1)"
    using exit_ok_pop[OF x] unfolding e by blast
  moreover have "room a1" using r c e by (simp add: room_def)
  moreover have "comm_wf (comm a1)" using c e by simp
  ultimately have "\<exists>a'. process_control m a1 = Inr a' \<and> room a'"
    using control_returns f l by blast
  then show ?thesis using cb by (simp add: process_message_def)
qed

interpretation wwt_poll_total: poll_client_total wwt_recivied_callback
  "\<lambda>a. polling q k b rb sa sb a0 a \<and> room a" "\<lambda>e. \<not> protocol_fault e" for q k b rb sa sb a0
proof unfold_locales
  fix n m ms c n' e
  assume i: "polling q k b rb sa sb a0 n \<and> room n"
  show "comm_wf (comm n)" using i wwt_poll.inv_comm by blast
  show "unat (len m) \<le> MAX_MSG_SIZE" if "m \<in> set (rx_list (comm n))"
    using i that wwt_poll.inv_length by blast
  assume rx: "rx_list (comm n) = m # ms" and c: "comm_wf c" "rx_list c = ms" "tx_list c = tx_list (comm n)"
  obtain ra where p: "pair_ok q k n b ra rb sa sb" using i by (auto simp: polling_def)
  obtain n1 where n1: "process_message wwt_recivied_callback m (n\<lparr>comm := c\<rparr>) = Inr n1" "room n1"
    using receive_returns[OF p rx _ c] i by blast
  show "\<exists>n'. process_message wwt_recivied_callback m (n\<lparr>comm := c\<rparr>) = Inr n'" using n1(1) ..
  show "(polling q k b rb sa sb a0 n' \<and> room n') \<and> rx_list (comm n') = ms"
    if r: "process_message wwt_recivied_callback m (n\<lparr>comm := c\<rparr>) = Inr n'"
    using wwt_poll.message_keeps[OF conjunct1[OF i] rx c r] n1 r by simp
  show "\<not> protocol_fault e" if "process_message wwt_recivied_callback m (n\<lparr>comm := c\<rparr>) = Inl e"
    using n1(1) that by simp
qed

text \<open>The fuel of \<open>pdes_engine_poll\<close> is enough.\<close>

lemma poll_returns:
  assumes "pair_ok q k a b ra rb sa sb" and "room a"
  shows "\<exists>a'. poll a = Inr a' \<and> room a'"
  using wwt_poll_total.engine_poll_returns[OF conjI[OF pollingI[OF assms(1)] assms(2)]]
  unfolding poll_def by blast

end
