(* ===== verification/Barrier_Moves.thy ===== *)
theory Barrier_Moves
  imports Barrier_Steps
begin

text \<open>
  The steps that move the barrier: a packet leaves, a quantum ends with its SYNC, the barrier is
  passed, virtual time advances and a packet is delivered. Each keeps the pair invariant and
  says how the number of SYNCs sent and the round change.
\<close>

section \<open>A packet leaves\<close>

lemma pair_node:
  assumes "pair_ok q k a b ra rb sa sb"
  shows "node_ok q k a ra" and "comm_wf (comm a)" and "round_of a \<le> sa"
    and "sa \<le> round_of a + finished_bit a" and "first_sync_time (eng a) \<noteq> -1"
  using assms by (simp_all add: pair_ok_def node_ok_def)

lemma wwt_send_pair:
  assumes p: "pair_ok q k a b ra rb sa sb" and s: "wwt_send buf n a = Inr (i, a')"
  shows "pair_ok q k a' b ra rb sa sb \<and> same_phase a a' \<and> (\<exists>c m. a' = a\<lparr>comm := c\<rparr> \<and>
    tx_list c = tx_list (comm a) @ [m] \<and> mtype m = MSG_TYPE_NORMAL \<and>
    sint (ts_ns m) = universal a + q)"
proof -
  note n = pair_node[OF p]
  from s obtain t m where t: "get_universal_virtual_time a = Inr t"
    and m: "create_message buf n MSG_TYPE_NORMAL (t + wwt_latencyns (wwt a)) = (Inr m :: (node, message) res)"
    and e: "pdes_engine_send m a = Inr (i, a')"
    by (auto simp: wwt_send_def Let_def elim!: bindE_InrE)
  obtain c where a': "a' = a\<lparr>comm := c\<rparr>" and c: "comm_wf c"
    "tx_list c = tx_list (comm a) @ [m]" "rx_list c = rx_list (comm a)"
    using engine_send_returns[OF e n(2,5)] by blast
  note st = packet_stamp[OF n(1) t n(4)]
  have l: "unat n \<le> MAX_MSG_SIZE" and md: "mtype m = MSG_TYPE_NORMAL"
    "ts_ns m = t + wwt_latencyns (wwt a)" "len m = ucast n"
    using m by (simp_all add: create_message_Inr_iff)
  then have "chan_ok q k sa [m] sa"
    using st unat_ucast_u32[OF l] by (simp add: packet_time_def length_ok_def msg_type_defs)
  from pair_append[OF p c _ this n(4)] md have "pair_ok q k a' b ra rb sa sb"
    unfolding a' by simp
  then show ?thesis using a' c md st by (auto simp: same_phase_def)
qed

section \<open>The SYNC of a finished quantum\<close>

lemma send_sync_pair:
  assumes p: "pair_ok q k a b ra rb sa sb" and s: "send_sync a = Inr a'"
    and f: "finished_quantum (wwt a)" "sa = round_of a"
  shows "pair_ok q k a' b ra rb (Suc sa) sb \<and> same_phase a a' \<and> (\<exists>c. a' = a\<lparr>comm := c\<rparr>)"
proof -
  note n = pair_node[OF p]
  let ?r = "current_quantum_round (wwt a)"
  from s obtain t m i where
    m: "create_message (le_bytes SIZEOF_ROUND ?r) 8 MSG_TYPE_SYNC t = (Inr m :: (node, message) res)"
    and e: "pdes_engine_send m a = Inr (i, a')"
    by (auto simp: send_sync_def Let_def elim!: bindE_InrE)
  obtain c where a': "a' = a\<lparr>comm := c\<rparr>" and c: "comm_wf c"
    "tx_list c = tx_list (comm a) @ [m]" "rx_list c = rx_list (comm a)"
    using engine_send_returns[OF e n(2,5)] by blast
  have md: "mtype m = MSG_TYPE_SYNC" "len m = 8" "take SIZEOF_ROUND (data m) = le_bytes 8 ?r"
    using m by (simp_all add: create_message_Inr_iff SIZEOF_ROUND_def)
  then have "sync_round_of m = of_nat sa"
    using f(2) by (simp add: sync_round_of_def SIZEOF_ROUND_def round_of_def)
  then have "chan_ok q k sa [m] (Suc sa)" using md by (simp add: length_ok_def MAX_MSG_SIZE_def msg_type_defs)
  from pair_append[OF p c _ this] md f have "pair_ok q k a' b ra rb (Suc sa) sb"
    unfolding a' by (simp add: finished_bit_def)
  then show ?thesis using a' by (auto simp: same_phase_def)
qed


section \<open>A quantum ends\<close>

text \<open>The quantum timer fires exactly at the end of the quantum.\<close>

lemma quantum_timer_due:
  assumes n: "node_ok q k a ra" and nf: "\<not> finished_quantum (wwt a)"
    and t: "quantum_timer (wwt a) = Armed t" "sint t \<le> sint (virt a)"
  shows "universal a = int (round_of a) * q"
proof -
  have "armed_for_round q a" using n nf by (simp add: node_ok_def)
  then have "int (round_of a) * q \<le> universal a"
    using t n by (cases "round_of a = 0") (auto simp: armed_for_round_def universal_def node_ok_def)
  then show ?thesis using n by (simp add: node_ok_def)
qed

lemma quanta_begin_pair:
  assumes p: "pair_ok q k a b ra rb sa sb" and nf: "\<not> finished_quantum (wwt a)"
    and t: "quantum_timer (wwt a) = Armed t" "sint t \<le> sint (virt a)"
    and s: "quanta_begin (a\<lparr>wwt := (wwt a)\<lparr>quantum_timer := Idle\<rparr>\<rparr>) = Inr a'"
  shows "pair_ok q k a' b ra rb sa sb \<and> finished_quantum (wwt a') \<and> round_of a' = round_of a \<and>
    sync_check_timer (wwt a') = No_Timer \<and> sa = round_of a"
proof -
  let ?w = "(wwt a)\<lparr>quantum_timer := Idle, finished_quantum := True\<rparr>"
  let ?a1 = "a\<lparr>wwt := ?w\<rparr>"
  let ?a0 = "a\<lparr>wwt := ?w, eng := (eng a)\<lparr>paused := True\<rparr>\<rparr>"
  have n: "node_ok q k a ra" using p by (simp add: pair_ok_def)
  note u = quantum_timer_due[OF n nf t]
  have r: "round_of ?a0 = round_of a" "finished_bit ?a0 = 1" "universal ?a0 = universal a"
    "context_ok ?a0 = context_ok a"
    by (simp_all add: round_of_def finished_bit_def universal_def context_ok_def fun_eq_iff)
  have "node_ok q k ?a0 ra" using n u r by (simp add: node_ok_def)
  moreover have "sync_check_timer (wwt a) = No_Timer" and sa: "sa = round_of a"
    using p nf by (auto simp: pair_ok_def node_ok_def finished_bit_def)
  moreover have "exit_ok ?a0 b (tx_list (comm a)) (rx_list (comm a))"
    using p by (simp add: pair_ok_def exit_ok_def exit_flags_def exit_dir_def one_end_def)
  ultimately have p0: "pair_ok q k ?a0 b ra rb sa sb" and tm: "sync_check_timer (wwt ?a0) = No_Timer"
    using p r by (auto simp: pair_ok_def)
  have "should_sync (wwt a)" using n by (simp add: node_ok_def)
  then have "pdes_pause ?a1 = Inr a'" using s by (simp add: quanta_begin_def)
  then have "quiet (?a1\<lparr>eng := (eng ?a1)\<lparr>paused := True\<rparr>\<rparr>) a'" by (rule quiet_resD[OF quiet_pause])
  then have qu: "quiet ?a0 a'" by simp
  then show ?thesis
    using pair_quiet[OF p0 qu] r tm sa by (auto simp: quiet_def same_barrier_def round_of_def)
qed

lemma same_phaseD:
  assumes "same_phase a a'"
  shows "round_of a' = round_of a" and "finished_quantum (wwt a') = finished_quantum (wwt a)"
    and "sync_check_timer (wwt a) = No_Timer \<Longrightarrow> sync_check_timer (wwt a') = No_Timer"
  using assms by (auto simp: same_phase_def finished_bit_def split: if_splits)

lemma quanta_rest_pair:
  assumes p: "pair_ok q k a b ra rb sa sb" and f: "finished_quantum (wwt a)" "sa = round_of a"
    and s: "quanta_rest a = Inr a'"
  shows "\<exists>ra'. pair_ok q k a' b ra' rb (Suc sa) sb \<and> finished_quantum (wwt a') \<and>
    round_of a' = round_of a"
proof -
  from s obtain a1 a2 a3 where a1: "poll a = Inr a1" and a2: "notify_if_needed a1 = Inr a2"
    and a3: "(if should_sync (wwt a2) then send_sync a2 else Inr a2) = Inr a3"
    and a': "a' = a3\<lparr>wwt := (wwt a3)\<lparr>sync_check_timer := Armed (realtime a3 + 1)\<rparr>\<rparr>"
    unfolding quanta_rest_def by (elim bindE_InrE) auto
  from poll_pair(2)[OF p a1] obtain ra' where p1: "pair_ok q k a1 b ra' rb sa sb" ..
  note q2 = quiet_resD[OF quiet_notify_if_needed a2]
  note p2 = pair_quiet[OF p1 q2]
  have ph: "same_phase a a2"
    using poll_pair(4)[OF p a1] quiet_same_phase[OF q2] by (rule same_phase_trans)
  have "send_sync a2 = Inr a3" using a3 p2 by (simp add: pair_ok_def node_ok_def)
  from send_sync_pair[OF p2 this] same_phaseD[OF ph] f
  have p3: "pair_ok q k a3 b ra' rb (Suc sa) sb" and ph3: "same_phase a2 a3" by simp_all
  have fin: "finished_quantum (wwt a3)" "round_of a3 = round_of a"
    using same_phaseD[OF ph] same_phaseD[OF ph3] f by simp_all
  have "exit_ok a' b (tx_list (comm a3)) (rx_list (comm a3))"
    using p3 exit_ok_eng[of a3 b _ _ a'] by (simp add: pair_ok_def a')
  then have "pair_ok q k a' b ra' rb (Suc sa) sb"
    using p3 fin by (simp add: pair_ok_def node_ok_def a')
  then show ?thesis using fin by (auto simp: a')
qed


section \<open>The barrier is passed\<close>

lemma count_reached:
  assumes n: "node_ok q k a ra"
  shows "sint (sync_count_get (sync_counts (wwt a)) (current_quantum_round (wwt a))) < 1 \<longleftrightarrow>
    ra \<le> round_of a"
proof -
  have "round_of a < 4294967296" using n by (simp add: node_ok_def)
  then show ?thesis
    using received_table_get[of "current_quantum_round (wwt a)" ra] n
    by (simp add: node_ok_def round_of_def)
qed

lemma is_waiting_pair:
  assumes p: "pair_ok q k a b ra rb sa sb" and s: "is_waiting_for_quanta a = Inr (w, a')"
  shows "\<exists>ra'. pair_ok q k a' b ra' rb sa sb \<and> same_phase a a' \<and> (w \<longleftrightarrow> ra' \<le> round_of a)"
proof -
  from s have a': "poll a = Inr a'" and w: "w \<longleftrightarrow>
      sint (sync_count_get (sync_counts (wwt a')) (current_quantum_round (wwt a'))) < 1 \<and> should_sync (wwt a')"
    by (auto simp: is_waiting_for_quanta_def Let_def elim!: bindE_InrE)
  from poll_pair(2)[OF p a'] obtain ra' where p': "pair_ok q k a' b ra' rb sa sb" ..
  then have n: "node_ok q k a' ra'" by (simp add: pair_ok_def)
  note ph = poll_pair(4)[OF p a']
  have "w \<longleftrightarrow> ra' \<le> round_of a"
    using w count_reached[OF n] n same_phaseD(1)[OF ph] by (simp add: node_ok_def)
  with p' ph show ?thesis by blast
qed

text \<open>The next deadline in local time, without overflow.\<close>

lemma next_deadline:
  assumes n: "node_ok q k a ra" and r: "Suc (round_of a) \<le> k"
  shows "unat (current_quantum_round (wwt a) + 1) = Suc (round_of a) \<and>
    sint ((current_quantum_round (wwt a) + 1) * quantum_ns (wwt a) + first_sync_virtual_time (eng a)) =
      int (Suc (round_of a)) * q + sint (first_sync_virtual_time (eng a))"
proof -
  let ?c = "current_quantum_round (wwt a)" and ?f = "sint (first_sync_virtual_time (eng a))"
  have b: "0 \<le> ?f" "?f + (int k + 2) * q < 9223372036854775808" "k + 1 < 4294967296" "0 < q"
    "quantum_ns (wwt a) = word_of_int q"
    using n unfolding node_ok_def by (elim conjE, assumption | simp)+
  have "unat ?c + 1 < 18446744073709551616" using b(3) r by (simp add: round_of_def)
  then have u: "unat (?c + 1) = Suc (round_of a)"
    by (simp add: round_of_def unat_word_ariths)
  have "int (Suc (round_of a)) * q \<le> (int k + 2) * q"
    using r b(4) by (intro mult_right_mono) auto
  moreover have "0 \<le> int (Suc (round_of a)) * q" using b(4) by simp
  ultimately have "in_i64 (int (unat (?c + 1)) * q + ?f)"
    using b(1,2) unfolding u in_i64_def by linarith
  then show ?thesis using sint_round_time[of "?c + 1" q] u b(5) by simp
qed

lemma start_next_round:
  assumes "start_next_quantum a = Inr a'" and "round_of a < 4294967296"
  shows "round_of a' = Suc (round_of a)"
proof -
  let ?c = "current_quantum_round (wwt a)"
  from assms(1) obtain t where "(if should_sync (wwt a) then pdes_play (a\<lparr>wwt := (wwt a)\<lparr>
      number_of_neighbors_finished := number_of_neighbors_finished (wwt a) - number_of_neighbors (wwt a),
      current_quantum_round := ?c + 1, finished_quantum := False, quantum_timer := t\<rparr>\<rparr>)
    else Inr (a\<lparr>wwt := (wwt a)\<lparr>
      number_of_neighbors_finished := number_of_neighbors_finished (wwt a) - number_of_neighbors (wwt a),
      current_quantum_round := ?c + 1, finished_quantum := False, quantum_timer := t\<rparr>\<rparr>)) = Inr a'"
    by (auto simp: start_next_quantum_def Let_def elim!: bindE_InrE)
  then have "current_quantum_round (wwt a') = ?c + 1"
    using quiet_resD[OF quiet_play] by (auto simp: quiet_def same_barrier_def split: if_splits)
  moreover have "unat ?c + 1 < 18446744073709551616" using assms(2) by (simp add: round_of_def)
  ultimately show ?thesis by (simp add: round_of_def unat_word_ariths)
qed

lemma start_next_pair:
  assumes p: "pair_ok q k a b ra rb sa sb" and f: "finished_quantum (wwt a)" "sa = Suc (round_of a)"
    and r: "round_of a < ra" "Suc (round_of a) \<le> k" and tm: "sync_check_timer (wwt a) = No_Timer"
    and s: "start_next_quantum a = Inr a'"
  shows "pair_ok q k a' b ra rb sa sb \<and> round_of a' = Suc (round_of a) \<and>
    \<not> finished_quantum (wwt a') \<and> sync_check_timer (wwt a') = No_Timer"
proof -
  have n: "node_ok q k a ra" using p by (simp add: pair_ok_def)
  let ?c = "current_quantum_round (wwt a) + 1"
  let ?t = "?c * quantum_ns (wwt a) + first_sync_virtual_time (eng a)"
  let ?w = "(wwt a)\<lparr>number_of_neighbors_finished :=
      number_of_neighbors_finished (wwt a) - number_of_neighbors (wwt a),
      current_quantum_round := ?c, finished_quantum := False, quantum_timer := Armed ?t\<rparr>"
  let ?a1 = "a\<lparr>wwt := ?w\<rparr>"
  let ?a0 = "a\<lparr>wwt := ?w, eng := (eng a)\<lparr>paused := False\<rparr>\<rparr>"
  note d = next_deadline[OF n r(2)]
  have m: "round_of ?a0 = Suc (round_of a)" "finished_bit ?a0 = 0" "universal ?a0 = universal a"
    "context_ok ?a0 = context_ok a" "armed_for_round q ?a0"
    using d by (simp_all add: round_of_def finished_bit_def universal_def context_ok_def
        fun_eq_iff armed_for_round_def)
  have u: "universal a = int (round_of a) * q" using n f(1) by (simp add: node_ok_def)
  have "universal a \<le> int (Suc (round_of a)) * q"
    unfolding u using n by (intro mult_right_mono) (auto simp: node_ok_def)
  then have "node_ok q k ?a0 ra" using n m u r tm by (simp add: node_ok_def)
  moreover have "exit_ok ?a0 b (tx_list (comm a)) (rx_list (comm a))"
    using p by (simp add: pair_ok_def exit_ok_def exit_flags_def exit_dir_def one_end_def)
  ultimately have p0: "pair_ok q k ?a0 b ra rb sa sb"
    using p m f by (simp add: pair_ok_def)
  have "pdes_play ?a1 = Inr a'"
    using s n by (auto simp: start_next_quantum_def Let_def timer_mod_def node_ok_def
        elim!: bindE_InrE split: timer.splits)
  then have "quiet (?a1\<lparr>eng := (eng ?a1)\<lparr>paused := False\<rparr>\<rparr>) a'" by (rule quiet_resD[OF quiet_play])
  then have qu: "quiet ?a0 a'" by simp
  note ph = quiet_same_phase[OF qu]
  have "\<not> finished_quantum (wwt ?a0)" "sync_check_timer (wwt ?a0) = No_Timer" using tm by simp_all
  then show ?thesis
    using pair_quiet[OF p0 qu] same_phaseD[OF ph] m by simp
qed

lemma pass_barrier_pair:
  assumes p: "pair_ok q k a b ra rb sa sb" and f: "finished_quantum (wwt a)" "sa = Suc (round_of a)"
    and r: "round_of a < ra" and s: "pass_barrier a = Inr a'" and k: "round_of a' \<le> k"
  shows "pair_ok q k a' b ra rb sa sb \<and>
    (same_phase a a' \<or> round_of a' = Suc (round_of a) \<and> \<not> finished_quantum (wwt a') \<and>
      sync_check_timer (wwt a') = No_Timer)"
proof -
  let ?a0 = "a\<lparr>eng := (eng a)\<lparr>skip_boundry_check_after_checkpoint := False\<rparr>\<rparr>"
  have q0: "quiet a ?a0" by (rule quiet_local) (simp_all add: same_barrier_def)
  obtain again a1 where c: "sync_checkpoint_check ?a0 = Inr (again, a1)"
    and d: "(if again then Inr a1 else bindE (grant_permission (a1\<lparr>wwt :=
      (wwt a1)\<lparr>sync_check_timer := No_Timer\<rparr>\<rparr>)) start_next_quantum) = Inr a'"
  proof (rule bindE_InrE[OF s[unfolded pass_barrier_def]])
    fix x
    assume x: "sync_checkpoint_check ?a0 = Inr x" and y: "(case x of (again, n1) \<Rightarrow> if again then Inr n1
      else bindE (grant_permission (n1\<lparr>wwt := (wwt n1)\<lparr>sync_check_timer := No_Timer\<rparr>\<rparr>))
        start_next_quantum) = Inr a'"
    obtain g n1 where "x = (g, n1)" by (cases x)
    with x y that[of g n1] show thesis by simp
  qed
  have q1: "quiet a a1" using q0 quiet_checkpoint_check[OF c] by (rule quiet_trans)
  show ?thesis
  proof (cases again)
    case True
    then have "a' = a1" using d by simp
    then show ?thesis using pair_quiet[OF p q1] quiet_same_phase[OF q1] by simp
  next
    case False
    let ?a2 = "a1\<lparr>wwt := (wwt a1)\<lparr>sync_check_timer := No_Timer\<rparr>\<rparr>"
    from False d have "bindE (grant_permission ?a2) start_next_quantum = Inr a'" by simp
    then obtain a3 where g: "grant_permission ?a2 = Inr a3"
      and nx: "start_next_quantum a3 = Inr a'" by (elim bindE_InrE)
    have "quiet a1 ?a2" by (rule quiet_local) (simp_all add: same_barrier_def)
    then have q3: "quiet a a3"
      using quiet_trans[OF q1] quiet_resD[OF quiet_grant_permission g] quiet_trans by blast
    have t3: "sync_check_timer (wwt a3) = No_Timer"
      using quiet_resD[OF quiet_grant_permission g] by (auto simp: quiet_def same_barrier_def)
    note ph = same_phaseD[OF quiet_same_phase[OF q3]]
    have "round_of a' = Suc (round_of a3)"
      by (rule start_next_round[OF nx]) (use ph p in \<open>simp add: pair_ok_def node_ok_def\<close>)
    then show ?thesis
      using start_next_pair[OF pair_quiet[OF p q3] _ _ _ _ t3 nx] ph f r k by simp
  qed
qed

end
