(* ===== verification/System.thy ===== *)
theory System
  imports Barrier_Moves Ring_Interleave
begin

text \<open>
  Two processes and the two rings between them. A process is a node and the place its main
  thread has reached: in the main loop, between the halves of \<open>quanta_sync\<close>, or in the waiting
  loop of \<open>wwt_sync_check\<close>. Timers and bottom halves run from the main loop, \<open>can_stop\<close> and the
  checkpoint request also while it waits, and a poll may be cut between any two messages, so
  that the peer can send at every point where the code looks at the ring.
\<close>

section \<open>One process\<close>

datatype place = Main_Loop | Quantum_Ending | Waiting | Rechecking | Exited

text \<open>What becomes of a process after a handler: it returns to the main loop or has exited.\<close>

fun outcome :: "(node, node) res \<Rightarrow> (place \<times> node) option" where
  "outcome (Inr n) = Some (Main_Loop, n)"
| "outcome (Inl (Exit_Process i n)) = Some (Exited, n)"
| "outcome (Inl _) = None"

text \<open>
  \<open>save\<close> is QEMU's \<open>save_snapshot\<close>. The virtual clock is QEMU's, not the program's; the model gives it
  the behaviour the protocol counts on. It passes never beyond the deadline of an armed
  virtual-clock timer, as in icount mode, a timer fires from the main loop when its deadline is
  reached, and it stands from \<open>pdes_pause\<close> (which stops the virtual CPU) to \<open>pdes_play\<close>. Between
  \<open>pdes_pause\<close> and the bottom half that calls \<open>vm_stop\<close> a real clock may still move; comments
  in the code report such drifts. What is said of reachable states holds for runs without them;
  \<open>packet_lookahead\<close> in \<open>System_Props\<close> says what a drift leads to.
\<close>

inductive proc_step ::
  "(string \<Rightarrow> u32 \<Rightarrow> node \<Rightarrow> (node, node) res) \<Rightarrow> place \<times> node \<Rightarrow> place \<times> node \<Rightarrow> bool"
  for save where
  time: "\<not> paused (eng n) \<Longrightarrow> sint (virt n) \<le> sint v \<Longrightarrow>
    (\<And>t. quantum_timer (wwt n) = Armed t \<Longrightarrow> sint v \<le> sint t) \<Longrightarrow>
    (\<And>c t. c \<in> set (contexts n) \<Longrightarrow> one_time_poll_timer c = Armed t \<Longrightarrow> sint v \<le> sint t) \<Longrightarrow>
    proc_step save (Main_Loop, n) (Main_Loop, n\<lparr>virt := v\<rparr>)"
| clocks: "proc_step save (p, n) (p, n\<lparr>host := h, realtime := t, current_cpu := c\<rparr>)"
| receive: "p \<noteq> Exited \<Longrightarrow>
    (pdes_comm_recv (comm n) True :: (node, int \<times> message option \<times> comm option) res) =
      Inr (i, Some m, c) \<Longrightarrow> 0 \<le> i \<Longrightarrow>
    process_message wwt_recivied_callback m (n\<lparr>comm := c\<rparr>) = Inr n' \<Longrightarrow>
    proc_step save (p, n) (p, n')"
| poll_timer: "msg_rec_poll_timer (eng n) = Armed t \<Longrightarrow> sint t \<le> sint (host n) \<Longrightarrow>
    poll (n\<lparr>eng := (eng n)\<lparr>msg_rec_poll_timer := Idle\<rparr>\<rparr>) = Inr n' \<Longrightarrow>
    proc_step save (Main_Loop, n) (Main_Loop, n')"
| packet: "pdes_net_receive buf n_bytes n = Inr (i, n') \<Longrightarrow>
    proc_step save (Main_Loop, n) (Main_Loop, n')"
| deliver: "c \<in> set (contexts n) \<Longrightarrow> one_time_poll_timer c = Armed t \<Longrightarrow> sint t \<le> sint (virt n) \<Longrightarrow>
    process_message_at_virtual_time pdes_recv_callback c n = Inr n' \<Longrightarrow>
    proc_step save (Main_Loop, n) (Main_Loop, n')"
| quantum: "quantum_timer (wwt n) = Armed t \<Longrightarrow> sint t \<le> sint (virt n) \<Longrightarrow>
    quanta_begin (n\<lparr>wwt := (wwt n)\<lparr>quantum_timer := Idle\<rparr>\<rparr>) = Inr n' \<Longrightarrow>
    proc_step save (Main_Loop, n) (Quantum_Ending, n')"
| quantum_rest: "quanta_rest n = Inr n' \<Longrightarrow>
    proc_step save (Quantum_Ending, n) (Main_Loop, n')"
| check_wait: "sync_check_timer (wwt n) = Armed t \<Longrightarrow> sint t \<le> sint (realtime n) \<Longrightarrow>
    is_waiting_for_quanta (n\<lparr>wwt := (wwt n)\<lparr>sync_check_timer := Idle\<rparr>\<rparr>) = Inr (True, n') \<Longrightarrow>
    proc_step save (Main_Loop, n) (Waiting, n')"
| check_pass: "sync_check_timer (wwt n) = Armed t \<Longrightarrow> sint t \<le> sint (realtime n) \<Longrightarrow>
    is_waiting_for_quanta (n\<lparr>wwt := (wwt n)\<lparr>sync_check_timer := Idle\<rparr>\<rparr>) = Inr (False, n1) \<Longrightarrow>
    pass_barrier n1 = Inr n' \<Longrightarrow>
    proc_step save (Main_Loop, n) (Main_Loop, n')"
| turn: "poll n = Inr n' \<Longrightarrow> \<not> pair_has_finished (eng n') \<Longrightarrow>
    proc_step save (Waiting, n) (Rechecking, n')"
| turn_finished: "poll n = Inr n1 \<Longrightarrow> pair_has_finished (eng n1) \<Longrightarrow>
    outcome (bindE (peer_has_finished n1) (\<lambda>(_, n2). Inr n2)) = Some (p, n') \<Longrightarrow>
    proc_step save (Waiting, n) (p, n')"
| recheck_wait: "is_waiting_for_quanta n = Inr (True, n') \<Longrightarrow>
    proc_step save (Rechecking, n) (Waiting, n')"
| recheck_pass: "is_waiting_for_quanta n = Inr (False, n1) \<Longrightarrow> pass_barrier n1 = Inr n' \<Longrightarrow>
    proc_step save (Rechecking, n) (Main_Loop, n')"
| stop_query: "p \<noteq> Exited \<Longrightarrow> can_stop n = Inr (b, n') \<Longrightarrow> proc_step save (p, n) (p, n')"
| initiate: "p \<noteq> Exited \<Longrightarrow> finish_initiate_checkpoint n = Inr n' \<Longrightarrow> proc_step save (p, n) (p, n')"
| pause: "pause_bh (eng n) \<Longrightarrow> proc_step save (Main_Loop, n) (Main_Loop, pdes_pause_bh n)"
| boundary: "boundry_checkpoint_bh (eng n) = Some exit_after \<Longrightarrow> boundry_scheduled (eng n) \<Longrightarrow>
    outcome (create_checkpoint_bh save exit_after
      (n\<lparr>eng := (eng n)\<lparr>boundry_scheduled := False\<rparr>\<rparr>)) = Some (p, n') \<Longrightarrow>
    proc_step save (Main_Loop, n) (p, n')"
| destroy: "outcome (pdes_engine_destroy n) = Some (p, n') \<Longrightarrow>
    proc_step save (Main_Loop, n) (p, n')"

inductive_cases proc_stepE [consumes 1, case_names time clocks receive poll_timer packet deliver
    quantum quantum_rest check_wait check_pass turn turn_finished recheck_wait recheck_pass
    stop_query initiate pause boundary destroy]: "proc_step save (p, n) (p', n')"

section \<open>Two processes\<close>

record system =
  place_a :: place
  node_a :: node
  place_b :: place
  node_b :: node

text \<open>The rings are shared: what one end calls its sending ring is the other's receiving ring.\<close>

definition peer_view :: "comm option \<Rightarrow> comm option \<Rightarrow> comm option" where
  "peer_view mine yours = (case (mine, yours) of
     (Some c, Some d) \<Rightarrow> Some (d\<lparr>ring_send := ring_recv c, ring_recv := ring_send c\<rparr>)
   | _ \<Rightarrow> yours)"

inductive sys_step ::
  "(string \<Rightarrow> u32 \<Rightarrow> node \<Rightarrow> (node, node) res) \<Rightarrow> system \<Rightarrow> system \<Rightarrow> bool" for save where
  step_a: "proc_step save (place_a s, node_a s) (p, n) \<Longrightarrow>
    sys_step save s (s\<lparr>place_a := p, node_a := n,
      node_b := (node_b s)\<lparr>comm := peer_view (comm n) (comm (node_b s))\<rparr>\<rparr>)"
| step_b: "proc_step save (place_b s, node_b s) (p, n) \<Longrightarrow>
    sys_step save s (s\<lparr>place_b := p, node_b := n,
      node_a := (node_a s)\<lparr>comm := peer_view (comm n) (comm (node_a s))\<rparr>\<rparr>)"

text \<open>
  A node after \<open>pdes_engine_wwt_create\<close> and \<open>setup_wwt\<close>, for a quantum of \<open>q\<close> nanoseconds, in a
  process that has no packet to deliver yet. A run
  is followed for at most \<open>K\<close> rounds, over which neither the 64-bit times nor the 32-bit keys of
  the SYNC counts overflow: at a quantum of a microsecond the keys last for more than an hour,
  the times for centuries.
\<close>

definition node_started :: "int \<Rightarrow> nat \<Rightarrow> comm option \<Rightarrow> bool \<Rightarrow> node \<Rightarrow> bool" where
  "node_started q K c is_master n \<longleftrightarrow> (\<exists>n0 n1. contexts n0 = [] \<and> inflight n0 = no_inflight \<and> 0 \<le> sint (virt n0) \<and>
     sint (virt n0) + (int K + 2) * q < 9223372036854775808 \<and>
     pdes_engine_wwt_create False False c True (word_of_int q) is_master n0 = Inr n1 \<and>
     setup_wwt n1 = Inr n)"

definition sys_init :: "int \<Rightarrow> nat \<Rightarrow> system \<Rightarrow> bool" where
  "sys_init q K s \<longleftrightarrow> 0 < q \<and> K + 1 < 4294967296 \<and>
     place_a s = Main_Loop \<and> place_b s = Main_Loop \<and>
     (\<exists>ca cb is_master. node_started q K (Some ca) is_master (node_a s) \<and>
        node_started q K (Some cb) (\<not> is_master) (node_b s) \<and>
        ring_send ca = Some (ring_init zero_message) \<and> ring_recv ca = Some (ring_init zero_message) \<and>
        ring_send cb = Some (ring_init zero_message) \<and> ring_recv cb = Some (ring_init zero_message))"

inductive sys_reach ::
  "(string \<Rightarrow> u32 \<Rightarrow> node \<Rightarrow> (node, node) res) \<Rightarrow> int \<Rightarrow> nat \<Rightarrow> system \<Rightarrow> bool"
  for save q K where
  init: "sys_init q K s \<Longrightarrow> sys_reach save q K s"
| step: "sys_reach save q K s \<Longrightarrow> sys_step save s t \<Longrightarrow>
    round_of (node_a t) \<le> K \<Longrightarrow> round_of (node_b t) \<le> K \<Longrightarrow> sys_reach save q K t"

text \<open>
  What is asked of \<open>save_snapshot\<close>: it leaves the clock and the barrier of the stopped machine
  alone and sends at most control messages (its hook \<open>pdes_drain\<close> sends one).
\<close>

definition save_keeps :: "(string \<Rightarrow> u32 \<Rightarrow> node \<Rightarrow> (node, node) res) \<Rightarrow> bool" where
  "save_keeps save \<longleftrightarrow>
     (\<forall>name fmt n. quiet_res n (save name fmt n) \<and> quiet_exit n (save name fmt n))"

definition demo_save :: "string \<Rightarrow> u32 \<Rightarrow> node \<Rightarrow> (node, node) res" where
  "demo_save name fmt n = bindE (pdes_drain name fmt n) (\<lambda>(_, n1). Inr (out_call (Save_Snapshot name fmt) n1))"

lemma save_keepsD:
  assumes "save_keeps save"
  shows "quiet_res n (save name fmt n)" and "quiet_exit n (save name fmt n)"
  using assms by (simp_all add: save_keeps_def)

end
