(* ===== verification/Gate.thy ===== *)
theory Gate
  imports Main
begin

text \<open>
  The abstract specification of the quantum barrier: two parties, each running in a round or
  finished with it, and a gate into the next round that opens for a party when its peer has
  finished that round too. The phases of a party form a chain, so they are given the library's
  order, and every turn goes up in it. The locale \<open>gated\<close> is the contract a system keeps when its
  steps move the parties in this way or not at all; what follows for runs of any such system is
  proved in it once.
\<close>

section \<open>Phases\<close>

datatype phase = Running nat | Finished nat

fun round_in :: "phase \<Rightarrow> nat" where
  "round_in (Running r) = r"
| "round_in (Finished r) = r"

fun rounds_done :: "phase \<Rightarrow> nat" where
  "rounds_done (Running r) = r"
| "rounds_done (Finished r) = Suc r"

fun position :: "phase \<Rightarrow> nat" where
  "position (Running r) = 2 * r"
| "position (Finished r) = Suc (2 * r)"

lemma position_inj: "position p = position q \<Longrightarrow> p = q"
  by (cases p; cases q; simp; presburger)

instantiation phase :: linorder
begin

definition less_eq_phase :: "phase \<Rightarrow> phase \<Rightarrow> bool" where
  "less_eq_phase p q \<longleftrightarrow> position p \<le> position q"

definition less_phase :: "phase \<Rightarrow> phase \<Rightarrow> bool" where
  "less_phase p q \<longleftrightarrow> position p < position q"

instance
  by standard (auto simp: less_eq_phase_def less_phase_def intro: position_inj)

end

lemma phase_order [simp]:
  "Running r \<le> Running r' \<longleftrightarrow> r \<le> r'" "Finished r \<le> Finished r' \<longleftrightarrow> r \<le> r'"
  "Running r \<le> Finished r' \<longleftrightarrow> r \<le> r'" "Finished r \<le> Running r' \<longleftrightarrow> r < r'"
  by (auto simp: less_eq_phase_def)

lemma round_in_mono: "p \<le> q \<Longrightarrow> round_in p \<le> round_in q"
  by (cases p; cases q) auto

section \<open>The gate\<close>

inductive gate_turn :: "phase \<Rightarrow> phase \<Rightarrow> phase \<Rightarrow> bool" where
  finish: "gate_turn (Running r) peer (Finished r)"
| enter: "r < rounds_done peer \<Longrightarrow> gate_turn (Finished r) peer (Running (Suc r))"

inductive_simps gate_turn_running [simp]: "gate_turn (Running r) peer p"
inductive_simps gate_turn_finished [simp]: "gate_turn (Finished r) peer p"

definition moved :: "phase \<Rightarrow> phase \<Rightarrow> phase \<Rightarrow> bool" where
  "moved p peer p' \<longleftrightarrow> p' = p \<or> gate_turn p peer p'"

inductive gate_step :: "phase \<times> phase \<Rightarrow> phase \<times> phase \<Rightarrow> bool" where
  left: "gate_turn a b a' \<Longrightarrow> gate_step (a, b) (a', b)"
| right: "gate_turn b a b' \<Longrightarrow> gate_step (a, b) (a, b')"

inductive gate_reach :: "phase \<times> phase \<Rightarrow> bool" where
  start: "gate_reach (Running 0, Running 0)"
| step: "gate_reach s \<Longrightarrow> gate_step s t \<Longrightarrow> gate_reach t"

lemma gate_turn_up: "gate_turn p peer p' \<Longrightarrow> p < p'"
  by (induction rule: gate_turn.induct) (simp_all add: less_phase_def)

lemma moved_up: "moved p peer p' \<Longrightarrow> p \<le> p'"
  by (auto simp: moved_def dest: gate_turn_up)

lemma moved_rounds:
  assumes "moved p peer p'" and "round_in p < round_in p'"
  shows "p = Finished (round_in p)" and "p' = Running (Suc (round_in p))" and "round_in p < rounds_done peer"
  using assms by (cases p; auto simp: moved_def)+

section \<open>The parties stay in step\<close>

definition in_step :: "phase \<times> phase \<Rightarrow> bool" where
  "in_step s \<longleftrightarrow> round_in (fst s) \<le> rounds_done (snd s) \<and> round_in (snd s) \<le> rounds_done (fst s)"

lemma gate_turn_in_step:
  assumes "gate_turn a b a'" and "in_step (a, b)"
  shows "in_step (a', b)"
  using assms by cases (auto simp: in_step_def)

lemma in_step_swap: "in_step (a, b) \<longleftrightarrow> in_step (b, a)"
  by (auto simp: in_step_def)

lemma gate_step_in_step: "gate_step s t \<Longrightarrow> in_step s \<Longrightarrow> in_step t"
  by (induction rule: gate_step.induct) (metis gate_turn_in_step in_step_swap)+

lemma gate_reach_in_step: "gate_reach s \<Longrightarrow> in_step s"
  by (induction rule: gate_reach.induct) (auto simp: in_step_def dest: gate_step_in_step)

text \<open>The abstract barrier is never stuck: one party or the other can always move.\<close>

lemma gate_not_stuck:
  assumes "in_step s"
  shows "\<exists>t. gate_step s t"
proof -
  obtain a b where s: "s = (a, b)" by (cases s)
  have "\<exists>p. gate_turn a b p \<or> gate_turn b a p"
  proof (cases a)
    case (Running r)
    then show ?thesis by auto
  next
    case a: (Finished r)
    show ?thesis
    proof (cases b)
      case (Running r')
      then show ?thesis by auto
    next
      case (Finished r')
      then show ?thesis using a by (cases "r \<le> r'") auto
    qed
  qed
  then show ?thesis unfolding s by (blast intro: gate_step.intros)
qed

section \<open>Systems with such a gate\<close>

locale gated =
  fixes init :: "'s \<Rightarrow> bool" and step :: "'s \<Rightarrow> 's \<Rightarrow> bool"
    and here :: "'s \<Rightarrow> phase" and there :: "'s \<Rightarrow> phase"
  assumes init_phases: "init s \<Longrightarrow> here s = Running 0 \<and> there s = Running 0"
    and step_moves: "step s t \<Longrightarrow>
      moved (here s) (there s) (here t) \<and> there t = there s \<or>
      moved (there s) (here s) (there t) \<and> here t = here s"
begin

lemma step_refines:
  "step s t \<Longrightarrow> (here t, there t) = (here s, there s) \<or> gate_step (here s, there s) (here t, there t)"
  using step_moves[of s t] gate_step.left gate_step.right unfolding moved_def by metis

lemma run_refines:
  assumes "init s" and "step\<^sup>*\<^sup>* s t"
  shows "gate_reach (here t, there t)"
  using assms(2)
proof induction
  case base
  then show ?case using init_phases[OF assms(1)] by (simp add: gate_reach.start)
next
  case (step t u)
  then show ?case using step_refines[of t u] by (auto intro: gate_reach.step)
qed

lemma run_in_step:
  assumes "init s" and "step\<^sup>*\<^sup>* s t"
  shows "in_step (here t, there t)"
  by (rule gate_reach_in_step[OF run_refines[OF assms]])

lemma run_monotone: "step\<^sup>*\<^sup>* s t \<Longrightarrow> here s \<le> here t \<and> there s \<le> there t"
proof (induction rule: rtranclp_induct)
  case (step t u)
  have "here t \<le> here u \<and> there t \<le> there u"
    using step_moves[OF step.hyps(2)] moved_up by auto
  with step.IH show ?case by auto
qed simp

text \<open>A round is entered one at a time, and only after the peer has finished the one before.\<close>

lemma enter_after_peer:
  assumes "step s t" and "round_in (here s) < round_in (here t)"
  shows "here t = Running (Suc (round_in (here s))) \<and> round_in (here s) < rounds_done (there s)"
proof -
  have "moved (here s) (there s) (here t)" using step_moves[OF assms(1)] assms(2) by auto
  from moved_rounds(2,3)[OF this assms(2)] show ?thesis ..
qed

end

end
