(* ===== verification/System_Inv.thy ===== *)
theory System_Inv
  imports System Gate
begin

text \<open>
  Every step of a process keeps the pair invariant, and the invariant is symmetric, so every
  reachable state of the two processes has it.
\<close>

section \<open>The place of the main thread and the SYNCs sent\<close>

definition place_ok :: "place \<Rightarrow> node \<Rightarrow> nat \<Rightarrow> bool" where
  "place_ok p n s \<longleftrightarrow>
     (sync_check_timer (wwt n) \<noteq> No_Timer \<longrightarrow> s = Suc (round_of n)) \<and>
     (p = Quantum_Ending \<longrightarrow>
        finished_quantum (wwt n) \<and> s = round_of n \<and> sync_check_timer (wwt n) = No_Timer) \<and>
     (p = Waiting \<or> p = Rechecking \<longrightarrow> finished_quantum (wwt n) \<and> s = Suc (round_of n))"

lemma place_ok_phase:
  assumes "place_ok p n s" and "same_phase n n'"
  shows "place_ok p n' s"
  using assms(1) same_phaseD[OF assms(2)] by (auto simp: place_ok_def)

lemma place_ok_idle: "place_ok p n s \<Longrightarrow> p' = Main_Loop \<or> p' = Exited \<Longrightarrow> place_ok p' n s"
  by (auto simp: place_ok_def)

section \<open>One process\<close>

text \<open>A node as a party of the abstract barrier.\<close>

definition phase_of :: "node \<Rightarrow> phase" where
  "phase_of n = (if finished_quantum (wwt n) then Finished (round_of n) else Running (round_of n))"

lemma rounds_done_phase [simp]: "rounds_done (phase_of n) = round_of n + finished_bit n"
  by (simp add: phase_of_def finished_bit_def)

lemma round_in_phase [simp]: "round_in (phase_of n) = round_of n"
  by (simp add: phase_of_def)

lemma phase_of_comm [simp]: "phase_of (n\<lparr>comm := c\<rparr>) = phase_of n"
  by (simp add: phase_of_def)

lemma same_phase_phase: "same_phase a a' \<Longrightarrow> phase_of a' = phase_of a"
  by (simp add: phase_of_def same_phaseD)

lemma moved_same [simp]: "moved p b p"
  by (simp add: moved_def)

text \<open>
  The conclusion all step lemmas share: from \<open>a\<close> the process went to \<open>a'\<close>, the pair is in order,
  and \<open>a\<close> moved, if at all, as a party of the barrier may.
\<close>

definition keeps :: "int \<Rightarrow> nat \<Rightarrow> node \<Rightarrow> node \<Rightarrow> nat \<Rightarrow> nat \<Rightarrow> place \<Rightarrow> node \<Rightarrow> bool" where
  "keeps q k a b rb sb p a' \<longleftrightarrow> (\<exists>ra sa. pair_ok q k a' b ra rb sa sb \<and> place_ok p a' sa) \<and>
     moved (phase_of a) (phase_of b) (phase_of a')"

lemma keepsI: "pair_ok q k a' b ra rb sa sb \<Longrightarrow> place_ok p a' sa \<Longrightarrow>
    moved (phase_of a) (phase_of b) (phase_of a') \<Longrightarrow> keeps q k a b rb sb p a'"
  by (auto simp: keeps_def)

lemma keeps_same: "pair_ok q k a' b ra rb sa sb \<Longrightarrow> place_ok p a' sa \<Longrightarrow> same_phase a a' \<Longrightarrow>
    keeps q k a b rb sb p a'"
  by (rule keepsI) (simp_all add: same_phase_phase)

lemma keeps_from: "same_phase a0 a \<Longrightarrow> keeps q k a b rb sb p a' \<Longrightarrow> keeps q k a0 b rb sb p a'"
  by (simp add: keeps_def same_phase_phase)

lemma keeps_quiet:
  assumes "pair_ok q k a b ra rb sa sb" and "place_ok p a sa" and "quiet a a'"
  shows "keeps q k a b rb sb p a'"
  using pair_quiet[OF assms(1,3)] place_ok_phase[OF assms(2) quiet_same_phase[OF assms(3)]]
    quiet_same_phase[OF assms(3)]
  by (rule keeps_same)

lemma keeps_quiet_idle:
  assumes "pair_ok q k a b ra rb sa sb" and "place_ok p a sa" and "quiet a a'"
    and "p' = Main_Loop \<or> p' = Exited"
  shows "keeps q k a b rb sb p' a'"
  using keeps_quiet[OF assms(1) place_ok_idle[OF assms(2,4)] assms(3)] .

lemma outcome_quiet:
  assumes "outcome r = Some (p, n')" and "quiet_res n r" and "quiet_exit n r"
  shows "quiet n n' \<and> (p = Main_Loop \<or> p = Exited)"
  using assms by (cases r rule: outcome.cases) (auto simp: quiet_exit_def quiet_res_def)

lemma time_keeps:
  assumes p: "pair_ok q k a b ra rb sa sb" and l: "place_ok Main_Loop a sa"
    and r: "\<not> paused (eng a)" and v: "sint (virt a) \<le> sint v"
    and qt: "\<And>t. quantum_timer (wwt a) = Armed t \<Longrightarrow> sint v \<le> sint t"
    and ct: "\<And>c t. c \<in> set (contexts a) \<Longrightarrow> one_time_poll_timer c = Armed t \<Longrightarrow> sint v \<le> sint t"
  shows "keeps q k a b rb sb Main_Loop (a\<lparr>virt := v\<rparr>)"
proof -
  let ?a = "a\<lparr>virt := v\<rparr>"
  have n: "node_ok q k a ra" using p by (simp add: pair_ok_def)
  then have nf: "\<not> finished_quantum (wwt a)" using r by (auto simp: node_ok_def)
  with n have arm: "armed_for_round q a" by (simp add: node_ok_def)
  have m: "round_of ?a = round_of a" "finished_bit ?a = finished_bit a"
    "armed_for_round q ?a = armed_for_round q a"
    by (simp_all add: round_of_def finished_bit_def armed_for_round_def)
  have lo: "universal a \<le> universal ?a" using v by (simp add: universal_def)
  have hi: "universal ?a \<le> int (round_of a) * q"
  proof (cases "round_of a = 0")
    case True
    then have "sint v \<le> 0" using arm qt by (auto simp: armed_for_round_def)
    then show ?thesis using True n by (simp add: universal_def node_ok_def)
  next
    case False
    then obtain t where "quantum_timer (wwt a) = Armed t"
      "sint t = int (round_of a) * q + sint (first_sync_virtual_time (eng a))"
      using arm by (auto simp: armed_for_round_def)
    with qt[of t] show ?thesis by (simp add: universal_def)
  qed
  have "context_ok ?a c" if "c \<in> set (contexts a)" for c
    using ct[OF that] n that by (simp add: context_ok_def node_ok_def)
  then have "node_ok q k ?a ra"
    using n lo hi nf m by (simp add: node_ok_def)
  moreover have "exit_ok ?a b (tx_list (comm a)) (rx_list (comm a))"
    using p exit_ok_eng[of a b _ _ ?a] by (simp add: pair_ok_def)
  ultimately have "pair_ok q k ?a b ra rb sa sb"
    using p m by (simp add: pair_ok_def)
  moreover have "place_ok Main_Loop ?a sa"
    using l m by (simp add: place_ok_def)
  moreover have "same_phase a ?a" using m by (simp add: same_phase_def)
  ultimately show ?thesis by (rule keeps_same)
qed

lemma deliver_keeps:
  assumes p: "pair_ok q k a b ra rb sa sb" and l: "place_ok Main_Loop a sa"
    and d: "process_message_at_virtual_time pdes_recv_callback c a = Inr a'"
  shows "keeps q k a b rb sb Main_Loop a'"
proof -
  obtain cl where a': "a' = a\<lparr>calls := cl, contexts := remove1 c (contexts a)\<rparr>"
    using d by (auto simp: process_message_at_virtual_time_def Let_def pdes_recv_callback_def
        out_call_def split: if_splits)
  have m: "round_of a' = round_of a" "finished_bit a' = finished_bit a" "universal a' = universal a"
    "armed_for_round q a' = armed_for_round q a" "context_ok a' = context_ok a"
    by (simp_all add: a' round_of_def finished_bit_def armed_for_round_def universal_def
        context_ok_def fun_eq_iff)
  have "set (contexts a') \<subseteq> set (contexts a)" by (simp add: a' set_remove1_subset)
  then have "node_ok q k a' ra"
    using p m by (auto simp: node_ok_def pair_ok_def a')
  moreover have "exit_ok a' b (tx_list (comm a)) (rx_list (comm a))"
    using p exit_ok_eng[of a b _ _ a'] by (simp add: pair_ok_def a')
  ultimately have "pair_ok q k a' b ra rb sa sb"
    using p m by (simp add: pair_ok_def a')
  moreover have "place_ok Main_Loop a' sa"
    using l m by (simp add: place_ok_def a')
  moreover have "same_phase a a'" using m by (simp add: same_phase_def a')
  ultimately show ?thesis by (rule keeps_same)
qed


lemma receive_keeps:
  assumes p: "pair_ok q k a b ra rb sa sb" and l: "place_ok pl a sa"
    and rc: "(pdes_comm_recv (comm a) True :: (node, int \<times> message option \<times> comm option) res) =
      Inr (i, Some m, c)"
    and d: "process_message wwt_recivied_callback m (a\<lparr>comm := c\<rparr>) = Inr a'"
  shows "keeps q k a b rb sb pl a'"
proof -
  have w: "comm_wf (comm a)" using p by (simp add: pair_ok_def)
  show ?thesis
  proof (cases "rx_list (comm a)")
    case Nil
    have "(pdes_comm_recv (comm a) True :: (node, int \<times> message option \<times> comm option) res) =
        Inr (NO_MESSAGE, None, comm a)"
      using recv_none[OF w Nil] by simp
    then show ?thesis using rc by simp
  next
    case (Cons m' ms)
    obtain c' where "(pdes_comm_recv (comm a) True :: (node, int \<times> message option \<times> comm option) res) =
        Inr (sint (len m'), Some m', c')"
      and c: "comm_wf c'" "rx_list c' = ms" "tx_list c' = tx_list (comm a)"
      using recv_some[OF w Cons, where ?'a = node] by blast
    with rc have "m' = m" "c' = c" by simp_all
    with pair_receive[OF p Cons c] d obtain ra' where "pair_ok q k a' b ra' rb sa sb"
      and "same_phase a a'" by blast
    then show ?thesis using place_ok_phase[OF l] by (intro keeps_same)
  qed
qed

lemma poll_keeps:
  assumes p: "pair_ok q k a b ra rb sa sb" and l: "place_ok pl a sa" and d: "poll a = Inr a'"
  shows "\<exists>ra'. pair_ok q k a' b ra' rb sa sb \<and> place_ok pl a' sa \<and> same_phase a a'"
  using poll_pair(2)[OF p d] place_ok_phase[OF l poll_pair(4)[OF p d]] poll_pair(4)[OF p d] by blast

text \<open>The waiting loop's test, and the passage it allows.\<close>

lemma waiting_keeps:
  assumes p: "pair_ok q k a b ra rb sa sb" and l: "place_ok pl a sa"
    and d: "is_waiting_for_quanta a = Inr (w, a')"
  shows "\<exists>ra'. pair_ok q k a' b ra' rb sa sb \<and> place_ok pl a' sa \<and> same_phase a a' \<and>
    (w \<longleftrightarrow> ra' \<le> round_of a')"
  using is_waiting_pair[OF p d] place_ok_phase[OF l] same_phaseD(1) by fastforce

lemma pass_keeps:
  assumes p: "pair_ok q k a b ra rb sa sb" and l: "place_ok pl a sa"
    and f: "finished_quantum (wwt a)" "sa = Suc (round_of a)" and r: "round_of a < ra"
    and d: "pass_barrier a = Inr a'" and k: "round_of a' \<le> k"
  shows "keeps q k a b rb sb Main_Loop a'"
proof -
  note c = pass_barrier_pair[OF p f r d k]
  have "place_ok Main_Loop a sa" using l by (auto simp: place_ok_def)
  then have "place_ok Main_Loop a' sa"
    using c place_ok_phase[of Main_Loop a sa a'] by (auto simp: place_ok_def)
  moreover have "round_of a < rounds_done (phase_of b)"
    using r pair_rounds(3)[OF p] p by (simp add: pair_ok_def)
  then have "moved (phase_of a) (phase_of b) (phase_of a')"
    using c f(1) same_phase_phase[of a a'] by (auto simp: moved_def phase_of_def)
  ultimately show ?thesis using c by (blast intro: keepsI)
qed

lemma wait_keeps:
  assumes p: "pair_ok q k a b ra rb sa sb" and f: "finished_quantum (wwt a)" "sa = Suc (round_of a)"
    and l: "place_ok pl a sa"
    and d: "is_waiting_for_quanta a = Inr (w, a1)"
  shows "w \<Longrightarrow> keeps q k a b rb sb Waiting a1"
    and "\<not> w \<Longrightarrow> pass_barrier a1 = Inr a' \<Longrightarrow> round_of a' \<le> k \<Longrightarrow> keeps q k a b rb sb Main_Loop a'"
proof -
  obtain ra' where p1: "pair_ok q k a1 b ra' rb sa sb" and l1: "place_ok pl a1 sa"
    and ph: "same_phase a a1" and w: "w \<longleftrightarrow> ra' \<le> round_of a1"
    using waiting_keeps[OF p l d] by blast
  note e = same_phaseD[OF ph]
  have f1: "finished_quantum (wwt a1)" "sa = Suc (round_of a1)" using e f by simp_all
  show "keeps q k a b rb sb Waiting a1" if w
    using p1 l1 f1 ph by (auto intro!: keeps_same simp: place_ok_def)
  show "keeps q k a b rb sb Main_Loop a'" if "\<not> w" "pass_barrier a1 = Inr a'" "round_of a' \<le> k"
    using keeps_from[OF ph pass_keeps[OF p1 l1 f1 _ that(2,3)]] w that(1) by simp
qed

lemma check_fired:
  assumes p: "pair_ok q k a b ra rb sa sb" and l: "place_ok pl a sa"
    and t: "sync_check_timer (wwt a) = Armed t"
    and a1: "a1 = a\<lparr>wwt := (wwt a)\<lparr>sync_check_timer := Idle\<rparr>\<rparr>"
  shows "pair_ok q k a1 b ra rb sa sb" and "place_ok pl a1 sa"
    and "finished_quantum (wwt a1)" and "sa = Suc (round_of a1)" and "same_phase a a1"
proof -
  have u: "quiet a a1" by (rule quiet_local) (simp_all add: same_barrier_def t a1)
  show "pair_ok q k a1 b ra rb sa sb" by (rule pair_quiet[OF p u])
  show "place_ok pl a1 sa" by (rule place_ok_phase[OF l quiet_same_phase[OF u]])
  show "finished_quantum (wwt a1)" using p t by (simp add: pair_ok_def node_ok_def a1)
  show "sa = Suc (round_of a1)" using l t by (simp add: place_ok_def a1)
  show "same_phase a a1" by (rule quiet_same_phase[OF u])
qed

lemma proc_step_keeps:
  assumes "proc_step save (p, a) (p', a')" and save: "save_keeps save"
    and i: "pair_ok q k a b ra rb sa sb" and l: "place_ok p a sa" and k: "round_of a' \<le> k"
  shows "keeps q k a b rb sb p' a'"
  using assms(1)
proof (cases rule: proc_stepE)
  case (time v)
  then show ?thesis using time_keeps[OF i] l by simp
next
  case (clocks c t h)
  have "quiet a a'" unfolding clocks(2) by (rule quiet_local) (simp_all add: same_barrier_def)
  with keeps_quiet[OF i l] clocks show ?thesis by simp
next
  case (receive j m c)
  then show ?thesis using receive_keeps[OF i l] by blast
next
  case (poll_timer t)
  let ?a = "a\<lparr>eng := (eng a)\<lparr>msg_rec_poll_timer := Idle\<rparr>\<rparr>"
  have u: "quiet a ?a" by (rule quiet_local) (simp_all add: same_barrier_def)
  note ph = quiet_same_phase[OF u]
  from poll_keeps[OF pair_quiet[OF i u] place_ok_phase[OF l ph]] poll_timer
  show ?thesis by (auto intro: keeps_same same_phase_trans[OF ph])
next
  case (packet buf nb j)
  then obtain j where "wwt_send buf nb a = Inr (j, a')"
    by (auto simp: pdes_net_receive_def elim!: bindE_InrE)
  from wwt_send_pair[OF i this] l packet(1,2) show ?thesis
    using place_ok_phase[of p a sa a'] by (auto intro: keeps_same)
next
  case (deliver c t)
  then show ?thesis using deliver_keeps[OF i] l by simp
next
  case (quantum t)
  have nf: "\<not> finished_quantum (wwt a)" using i quantum(3) by (auto simp: pair_ok_def node_ok_def)
  from quanta_begin_pair[OF i nf quantum(3,4,5)] quantum(1,2) nf show ?thesis
    by (auto intro!: keepsI simp: place_ok_def phase_of_def moved_def)
next
  case quantum_rest
  then have f: "finished_quantum (wwt a)" "sa = round_of a" using l by (simp_all add: place_ok_def)
  from quanta_rest_pair[OF i f] quantum_rest f show ?thesis
    by (auto intro!: keepsI simp: place_ok_def phase_of_def)
next
  case (check_wait t)
  note c = check_fired[OF i l check_wait(3) refl]
  show ?thesis
    using keeps_from[OF c(5) wait_keeps(1)[OF c(1,3,4,2) check_wait(5)]] check_wait(2) by simp
next
  case (check_pass t n1)
  note c = check_fired[OF i l check_pass(3) refl]
  show ?thesis
    using keeps_from[OF c(5) wait_keeps(2)[OF c(1,3,4,2) check_pass(5) _ check_pass(6) k]] check_pass(2) by simp
next
  case turn
  from poll_keeps[OF i l turn(3)] turn show ?thesis
    by (auto intro!: keeps_same simp: place_ok_def)
next
  case (turn_finished n1)
  let ?r = "bindE (peer_has_finished n1) (\<lambda>(_, n2). Inr n2)"
  from poll_keeps[OF i l turn_finished(2)] obtain ra' where p1: "pair_ok q k n1 b ra' rb sa sb"
    and l1: "place_ok p n1 sa" and ph: "same_phase a n1" by blast
  have "quiet_res n1 ?r"
    by (rule quiet_resI) (auto elim!: bindE_InrE dest: quiet_peer_finished)
  moreover have "quiet_exit n1 ?r"
    by (rule quiet_exit_bind[OF quiet_exit_peer_finished]) auto
  ultimately show ?thesis
    using outcome_quiet[OF turn_finished(4)] keeps_from[OF ph keeps_quiet_idle[OF p1 l1]] by blast
next
  case recheck_wait
  then show ?thesis using wait_keeps(1)[OF i _ _ l recheck_wait(3)] l by (simp add: place_ok_def)
next
  case (recheck_pass n1)
  then show ?thesis using wait_keeps(2)[OF i _ _ l recheck_pass(3) _ recheck_pass(4) k] l
    by (simp add: place_ok_def)
next
  case (stop_query c)
  then show ?thesis using keeps_quiet[OF i l quiet_can_stop] by blast
next
  case initiate
  then show ?thesis using keeps_quiet[OF i l quiet_resD[OF quiet_finish_initiate]] by simp
next
  case pause
  then show ?thesis using keeps_quiet[OF i l quiet_pause_bh] by simp
next
  case (boundary x)
  let ?a = "a\<lparr>eng := (eng a)\<lparr>boundry_scheduled := False\<rparr>\<rparr>"
  have u: "quiet a ?a" by (rule quiet_local) (simp_all add: same_barrier_def)
  note q = quiet_checkpoint_bh[where save = save, OF save_keepsD(1)[OF save]]
    quiet_exit_checkpoint_bh[where save = save, OF save_keepsD[OF save]]
  from outcome_quiet[OF boundary(4) q] u have "quiet a a'" "p' = Main_Loop \<or> p' = Exited"
    using quiet_trans by blast+
  then show ?thesis using keeps_quiet_idle[OF i l] by blast
next
  case destroy
  then show ?thesis
    using outcome_quiet[OF destroy(2) quiet_destroy quiet_exit_destroy] keeps_quiet_idle[OF i l] by blast
qed


section \<open>The pair\<close>

definition linked :: "comm option \<Rightarrow> comm option \<Rightarrow> bool" where
  "linked c d \<longleftrightarrow> (\<exists>x y. c = Some x \<and> d = Some y \<and> ring_send y = ring_recv x \<and> ring_recv y = ring_send x)"

lemma linked_sym: "linked c d \<Longrightarrow> linked d c"
  by (auto simp: linked_def)

lemma linked_lists:
  assumes "linked c d"
  shows "tx_list d = rx_list c" and "rx_list d = tx_list c" and "comm_wf d \<longleftrightarrow> comm_wf c"
proof -
  from assms obtain x y where e: "c = Some x" "d = Some y" "ring_send y = ring_recv x"
    "ring_recv y = ring_send x" by (auto simp: linked_def)
  then show "tx_list d = rx_list c" "rx_list d = tx_list c"
    by (simp_all add: tx_list_def rx_list_def)
  show "comm_wf d \<longleftrightarrow> comm_wf c" using e by (simp add: comm_wf_def) blast
qed

lemma linked_peer_view:
  assumes "comm_wf c" and "d \<noteq> None"
  shows "linked c (peer_view c d)"
  using assms by (auto simp: linked_def peer_view_def comm_wf_def)

lemma pair_flip:
  assumes "pair_ok q k a b ra rb sa sb" and "linked (comm a) (comm b)"
  shows "pair_ok q k b a rb ra sb sa"
  using assms(1) linked_lists[OF assms(2)] by (auto simp: pair_ok_def exit_ok_def exit_flags_def)

lemma pair_peer_comm:
  assumes "pair_ok q k a b ra rb sa sb"
  shows "pair_ok q k a (b\<lparr>comm := c\<rparr>) ra rb sa sb"
  using assms by (simp add: pair_ok_def node_ok_def exit_ok_def exit_flags_def exit_dir_def one_end_def)

lemma place_ok_comm [simp]: "place_ok p (n\<lparr>comm := c\<rparr>) s = place_ok p n s"
  by (simp add: place_ok_def)

definition sys_inv :: "int \<Rightarrow> nat \<Rightarrow> system \<Rightarrow> bool" where
  "sys_inv q K s \<longleftrightarrow> linked (comm (node_a s)) (comm (node_b s)) \<and>
     (\<exists>ra rb sa sb. pair_ok q K (node_a s) (node_b s) ra rb sa sb \<and>
        place_ok (place_a s) (node_a s) sa \<and> place_ok (place_b s) (node_b s) sb)"

definition swap_nodes :: "system \<Rightarrow> system" where
  "swap_nodes s = \<lparr>place_a = place_b s, node_a = node_b s, place_b = place_a s, node_b = node_a s\<rparr>"

lemma swap_swap [simp]: "swap_nodes (swap_nodes s) = (s :: system)"
  by (simp add: swap_nodes_def)

lemma sys_inv_swap: "sys_inv q K s \<Longrightarrow> sys_inv q K (swap_nodes s)"
  using linked_sym pair_flip by (fastforce simp: sys_inv_def swap_nodes_def)

lemma sys_inv_step_a:
  assumes i: "sys_inv q K s" and d: "proc_step save (place_a s, node_a s) (p, n)"
    and save: "save_keeps save" and k: "round_of n \<le> K"
  shows "sys_inv q K (s\<lparr>place_a := p, node_a := n,
    node_b := (node_b s)\<lparr>comm := peer_view (comm n) (comm (node_b s))\<rparr>\<rparr>)"
proof -
  from i obtain ra rb sa sb where l: "linked (comm (node_a s)) (comm (node_b s))"
    and p: "pair_ok q K (node_a s) (node_b s) ra rb sa sb"
    and la: "place_ok (place_a s) (node_a s) sa" and lb: "place_ok (place_b s) (node_b s) sb"
    by (auto simp: sys_inv_def)
  from proc_step_keeps[OF d save p la k] obtain ra' sa' where
    p': "pair_ok q K n (node_b s) ra' rb sa' sb" and la': "place_ok p n sa'"
    by (auto simp: keeps_def)
  have "comm (node_b s) \<noteq> None" using l by (auto simp: linked_def)
  then have "linked (comm n) (peer_view (comm n) (comm (node_b s)))"
    using p' linked_peer_view by (simp add: pair_ok_def)
  then show ?thesis
    using pair_peer_comm[OF p', of "peer_view (comm n) (comm (node_b s))"] la' lb
    by (simp add: sys_inv_def) (metis place_ok_comm)
qed

lemma sys_inv_step:
  assumes "sys_step save s t" and i: "sys_inv q K s" and save: "save_keeps save"
    and k: "round_of (node_a t) \<le> K" "round_of (node_b t) \<le> K"
  shows "sys_inv q K t"
  using assms(1)
proof cases
  case (step_a p n)
  then show ?thesis using sys_inv_step_a[OF i step_a(2) save] k by simp
next
  case (step_b p n)
  let ?s = "swap_nodes s"
  have "proc_step save (place_a ?s, node_a ?s) (p, n)" using step_b(2) by (simp add: swap_nodes_def)
  from sys_inv_step_a[OF sys_inv_swap[OF i] this save] k(2) step_b(1)
  have "sys_inv q K (swap_nodes t)" by (simp add: swap_nodes_def)
  from sys_inv_swap[OF this] show ?thesis by simp
qed

lemma started_node_ok:
  assumes "node_started q K c m n" and "0 < q" and "K + 1 < 4294967296"
  shows "node_ok q K n 0 \<and> round_of n = 0 \<and> finished_bit n = 0 \<and> comm n = c \<and> master (eng n) = m \<and>
    sync_check_timer (wwt n) = No_Timer \<and> \<not> permitted_to_exit (eng n) \<and>
    \<not> pair_has_finished (eng n) \<and> \<not> end_message_sent (eng n) \<and> universal n = 0"
proof -
  from assms(1) obtain n0 n1 where b: "contexts n0 = []" "0 \<le> sint (virt n0)"
      "sint (virt n0) + (int K + 2) * q < 9223372036854775808"
    and c: "pdes_engine_wwt_create False False c True (word_of_int q) m n0 = Inr n1"
    and s: "setup_wwt n1 = Inr n"
    by (auto simp: node_started_def)
  have v: "virt n0 \<noteq> -1" using b(2) by auto
  have n: "contexts n = []" "virt n = virt n0" "first_sync_virtual_time (eng n) = virt n0"
    "first_sync_time (eng n) = virt n0" "current_quantum_round (wwt n) = 0"
    "quantum_timer (wwt n) = Armed 0" "\<not> finished_quantum (wwt n)" "should_sync (wwt n)"
    "quantum_ns (wwt n) = word_of_int q" "wwt_latencyns (wwt n) = word_of_int q"
    "sync_counts (wwt n) = (\<lambda>_. None)" "sync_check_timer (wwt n) = No_Timer"
    "\<not> pair_has_finished (eng n)" "\<not> end_message_sent (eng n)" "\<not> permitted_to_exit (eng n)" "comm n = c" "master (eng n) = m"
    using c s b(1)
    by (auto simp: pdes_engine_wwt_create_def pdes_engine_create_def setup_wwt_def Let_def
        zero_wwt_def zero_engine_def out_call_def assertE_Inr_iff elim!: bindE_InrE)
  have u: "universal n = 0" "round_of n = 0" by (simp_all add: universal_def round_of_def n)
  moreover have "received_table 0 = (\<lambda>_. None)" by (simp add: received_table_def)
  ultimately show ?thesis
    using n b v assms(2,3)
    by (simp add: node_ok_def armed_for_round_def finished_bit_def add.commute)
qed

lemma sys_inv_init:
  assumes "sys_init q K s"
  shows "sys_inv q K s"
proof -
  from assms obtain ca cb m where q: "0 < q" "K + 1 < 4294967296"
    and pl: "place_a s = Main_Loop" "place_b s = Main_Loop"
    and a: "node_started q K (Some ca) m (node_a s)"
    and b: "node_started q K (Some cb) (\<not> m) (node_b s)"
    and r: "ring_send ca = Some (ring_init zero_message)" "ring_recv ca = Some (ring_init zero_message)"
      "ring_send cb = Some (ring_init zero_message)" "ring_recv cb = Some (ring_init zero_message)"
    by (auto simp: sys_init_def)
  note na = started_node_ok[OF a q] and nb = started_node_ok[OF b q]
  have e: "tx_list (Some ca) = []" "rx_list (Some ca) = []" "comm_wf (Some ca)"
    using r by (simp_all add: tx_list_def rx_list_def comm_wf_def)
  have "linked (Some ca) (Some cb)" using r by (simp add: linked_def)
  moreover have "exit_ok (node_a s) (node_b s) [] []"
    using na nb by (auto simp: exit_ok_def exit_flags_def exit_dir_def one_end_def)
  then have "pair_ok q K (node_a s) (node_b s) 0 0 0 0"
    using na nb e by (simp add: pair_ok_def)
  ultimately show ?thesis
    using na nb pl by (auto simp: sys_inv_def place_ok_def)
qed

lemma reach_inv:
  assumes "sys_reach save q K s" and "save_keeps save"
  shows "sys_inv q K s"
  using assms(1)
proof induction
  case (init s)
  then show ?case by (rule sys_inv_init)
next
  case (step s t)
  then show ?case using sys_inv_step[OF step.hyps(2) step.IH assms(2)] by blast
qed

end
