(* ===== verification/System_Refine.thy ===== *)
theory System_Refine
  imports System_Inv
begin

text \<open>
  The two processes refine the abstract barrier of \<open>Gate\<close>: a process is in the round
  \<open>current_quantum_round\<close>, which it has finished when \<open>finished_quantum\<close> is set, and every step
  of the system moves the two parties as the abstract barrier allows, or not at all.
\<close>

definition gate_of :: "system \<Rightarrow> phase \<times> phase" where
  "gate_of s = (phase_of (node_a s), phase_of (node_b s))"

lemma step_a_moves:
  assumes i: "sys_inv q K s" and d: "proc_step save (place_a s, node_a s) (p, n)"
    and save: "save_keeps save" and k: "round_of n \<le> K"
  shows "moved (phase_of (node_a s)) (phase_of (node_b s)) (phase_of n)"
proof -
  from i obtain ra rb sa sb where "pair_ok q K (node_a s) (node_b s) ra rb sa sb"
    and "place_ok (place_a s) (node_a s) sa"
    by (auto simp: sys_inv_def)
  from proc_step_keeps[OF d save this k] show ?thesis by (simp add: keeps_def)
qed

lemma sys_step_moves:
  assumes "sys_step save s t" and i: "sys_inv q K s" and save: "save_keeps save"
    and k: "round_of (node_a t) \<le> K" "round_of (node_b t) \<le> K"
  shows "moved (phase_of (node_a s)) (phase_of (node_b s)) (phase_of (node_a t)) \<and>
      phase_of (node_b t) = phase_of (node_b s) \<or>
    moved (phase_of (node_b s)) (phase_of (node_a s)) (phase_of (node_b t)) \<and>
      phase_of (node_a t) = phase_of (node_a s)"
  using assms(1)
proof cases
  case (step_a p n)
  then show ?thesis using step_a_moves[OF i step_a(2) save] k by simp
next
  case (step_b p n)
  let ?s = "swap_nodes s"
  have "proc_step save (place_a ?s, node_a ?s) (p, n)" using step_b(2) by (simp add: swap_nodes_def)
  from step_a_moves[OF sys_inv_swap[OF i] this save] step_b(1) k show ?thesis
    by (simp add: swap_nodes_def)
qed

text \<open>A step of the reachable system inside the horizon of \<open>K\<close> rounds.\<close>

definition run_step ::
  "(string \<Rightarrow> u32 \<Rightarrow> node \<Rightarrow> (node, node) res) \<Rightarrow> int \<Rightarrow> nat \<Rightarrow> system \<Rightarrow> system \<Rightarrow> bool" where
  "run_step save q K s t \<longleftrightarrow> sys_reach save q K s \<and> save_keeps save \<and> sys_step save s t \<and>
     round_of (node_a t) \<le> K \<and> round_of (node_b t) \<le> K"

interpretation qemu_gate: gated "sys_init q K" "run_step save q K"
  "\<lambda>s. phase_of (node_a s)" "\<lambda>s. phase_of (node_b s)" for save q K
proof unfold_locales
  fix s t
  show "phase_of (node_a s) = Running 0 \<and> phase_of (node_b s) = Running 0" if i: "sys_init q K s"
  proof -
    from i obtain ca cb m where q: "0 < q" "K + 1 < 4294967296"
      and a: "node_started q K (Some ca) m (node_a s)"
      and b: "node_started q K (Some cb) (\<not> m) (node_b s)"
      by (auto simp: sys_init_def)
    from started_node_ok[OF a q] started_node_ok[OF b q] show ?thesis
      by (simp add: phase_of_def finished_bit_def split: if_splits)
  qed
  assume r: "run_step save q K s t"
  then have "sys_inv q K s" unfolding run_step_def using reach_inv by blast
  with r show "moved (phase_of (node_a s)) (phase_of (node_b s)) (phase_of (node_a t)) \<and>
      phase_of (node_b t) = phase_of (node_b s) \<or>
    moved (phase_of (node_b s)) (phase_of (node_a s)) (phase_of (node_b t)) \<and>
      phase_of (node_a t) = phase_of (node_a s)"
    unfolding run_step_def using sys_step_moves by blast
qed

lemma reach_run:
  assumes "sys_reach save q K s" and "save_keeps save"
  obtains s0 where "sys_init q K s0" and "(run_step save q K)\<^sup>*\<^sup>* s0 s"
proof -
  have "\<exists>s0. sys_init q K s0 \<and> (run_step save q K)\<^sup>*\<^sup>* s0 s"
    using assms(1)
  proof induction
    case (step s t)
    then have "run_step save q K s t" using assms(2) by (simp add: run_step_def)
    with step.IH show ?case by (meson rtranclp.rtrancl_into_rtrancl)
  qed blast
  with that show thesis by blast
qed

lemma reach_gate:
  assumes "sys_reach save q K s" and "save_keeps save"
  shows "gate_reach (gate_of s)"
  using reach_run[OF assms] qemu_gate.run_refines unfolding gate_of_def by metis

lemma step_gate:
  assumes "sys_reach save q K s" and "save_keeps save" and "sys_step save s t"
    and "round_of (node_a t) \<le> K" and "round_of (node_b t) \<le> K"
  shows "gate_of t = gate_of s \<or> gate_step (gate_of s) (gate_of t)"
  using qemu_gate.step_refines[of save q K s t] assms by (simp add: run_step_def gate_of_def)

lemma reach_in_step:
  assumes "sys_reach save q K s" and "save_keeps save"
  shows "in_step (gate_of s)"
  by (rule gate_reach_in_step[OF reach_gate[OF assms]])

end
