(* ===== verification/System_Props.thy ===== *)
theory System_Props
  imports System_Refine
begin

text \<open>
  What the invariant gives for every reachable state of the two processes: rounds in step,
  packets on time, the lookahead of the protocol, no assertion of the protocol violated, the barrier opening, and the exit
  handshake.
\<close>

section \<open>Both processes at once\<close>

text \<open>A process with the peer it runs against; each of the two is one.\<close>

definition processes :: "system \<Rightarrow> (place \<times> node \<times> node) set" where
  "processes s = {(place_a s, node_a s, node_b s), (place_b s, node_b s, node_a s)}"

lemma process_inv:
  assumes "sys_reach save q K s" and "save_keeps save" and "(p, n, m) \<in> processes s"
  obtains rn rm sn sm pm where "pair_ok q K n m rn rm sn sm" and "place_ok p n sn"
    and "place_ok pm m sm" and "(pm, m, n) \<in> processes s"
proof -
  have i: "sys_inv q K s" by (rule reach_inv[OF assms(1,2)])
  show thesis
  proof (cases "(p, n, m) = (place_a s, node_a s, node_b s)")
    case True
    with i that[of _ _ _ _ "place_b s"] show thesis by (auto simp: sys_inv_def processes_def)
  next
    case False
    with assms(3) have "(p, n, m) = (place_b s, node_b s, node_a s)" by (auto simp: processes_def)
    with sys_inv_swap[OF i] that[of _ _ _ _ "place_a s"] show thesis
      by (auto simp: sys_inv_def processes_def swap_nodes_def)
  qed
qed

lemma universal_range:
  assumes "node_ok q k n r"
  shows "(int (round_of n) - 1) * q \<le> universal n" and "universal n \<le> int (round_of n) * q"
    and "0 < q" and "finished_quantum (wwt n) \<Longrightarrow> universal n = int (round_of n) * q"
  using assms unfolding node_ok_def by (elim conjE, simp)+

section \<open>A concrete pair\<close>

definition demo_started :: "bool \<Rightarrow> node" where
  "demo_started is_master =
     (case bindE (pdes_engine_wwt_create False False demo_comm True 1000 is_master (demo_node is_master 5))
             setup_wwt of
        Inr n \<Rightarrow> n | Inl _ \<Rightarrow> demo_node is_master 5)"

definition demo_system :: system where
  "demo_system = \<lparr>place_a = Main_Loop, node_a = demo_started True,
     place_b = Main_Loop, node_b = demo_started False\<rparr>"

lemma demo_create:
  "bindE (pdes_engine_wwt_create False False demo_comm True 1000 m (demo_node m 5)) setup_wwt =
     Inr (demo_started m)"
  by (simp add: demo_started_def pdes_engine_wwt_create_def pdes_engine_create_def setup_wwt_def
      demo_node_def zero_engine_def zero_wwt_def out_call_def get_universal_virtual_time_def
      timer_mod_def Let_def)

lemma demo_node_started: "node_started 1000 5 demo_comm m (demo_started m)"
proof -
  obtain n1 where "pdes_engine_wwt_create False False demo_comm True 1000 m (demo_node m 5) = Inr n1"
    and "setup_wwt n1 = Inr (demo_started m)"
    using demo_create[of m] by (elim bindE_InrE)
  then show ?thesis
    unfolding node_started_def by (intro exI[of _ "demo_node m 5"] exI[of _ n1])
      (simp add: demo_node_def)
qed

lemma demo_init: "sys_init 1000 5 demo_system"
  unfolding sys_init_def
  by (simp add: demo_system_def, intro exI[of _ "the demo_comm"] exI[of _ True])
    (use demo_node_started[of True] demo_node_started[of False] in \<open>simp add: demo_comm_def\<close>)

lemma demo_save_keeps: "save_keeps demo_save"
proof -
  have "quiet_res n (demo_save name fmt n)" for name fmt n
    by (rule quiet_resI)
      (auto simp: demo_save_def elim!: bindE_InrE intro: quiet_trans[OF quiet_drain quiet_out_call])
  moreover have "quiet_exit n (demo_save name fmt n)" for name fmt n
    unfolding demo_save_def pdes_drain_def by (intro quiet_exit_bind) (auto intro: quiet_exit_bind)
  ultimately show ?thesis by (simp add: save_keeps_def)
qed

lemma demo_reach: "sys_reach demo_save 1000 5 demo_system"
  by (rule sys_reach.init[OF demo_init])

lemma demo_process: "(Main_Loop, demo_started True, demo_started False) \<in> processes demo_system"
  by (simp add: processes_def demo_system_def)


section \<open>Well-typed states\<close>

text \<open>
  C22. Every reachable state is well typed: the two rings of a process are mapped, their indices stay
  inside the 8192 slots, so no send or receive leaves the array or dereferences NULL, and every
  message in them is no longer than its array, a DRAIN_START long enough to hold its fields.
\<close>

theorem reachable_rings_typed:
  assumes "sys_reach save q K s" and "save_keeps save" and "(p, n, m) \<in> processes s"
  shows "\<exists>c rs rr. comm n = Some c \<and> ring_send c = Some rs \<and> ring_recv c = Some rr \<and>
    (\<forall>r \<in> {rs, rr}. unat (write_idx r) < 8192 \<and> unat (read_idx r) < 8192 \<and>
      (\<forall>x \<in> set (ring_list r). unat (len x) \<le> MAX_MSG_SIZE \<and> (mtype x = DRAIN_START \<longrightarrow> 12 \<le> unat (len x))))"
proof -
  obtain rn rm sn sm where i: "pair_ok q K n m rn rm sn sm"
    by (rule process_inv[OF assms])
  then have w: "comm_wf (comm n)" by (simp add: pair_ok_def)
  obtain c rs rr where c: "comm n = Some c" "ring_send c = Some rs" "ring_recv c = Some rr"
    and r: "ring_wf rs" "ring_wf rr" using comm_wfE[OF w] by blast
  have "chan_ok q K rm (ring_list rs) sn" "chan_ok q K rn (ring_list rr) sm"
    using i c by (simp_all add: pair_ok_def tx_list_def rx_list_def)
  then have "\<forall>x \<in> set (ring_list rs) \<union> set (ring_list rr). length_ok x"
    using chan_ok_length_ok by blast
  then show ?thesis using c r by (auto simp: ring_wf_def length_ok_def)
qed

theorem reachable_rings_typed_witness:
  "\<exists>c rs. comm (demo_started True) = Some c \<and> ring_send c = Some rs \<and> unat (write_idx rs) < 8192"
  using reachable_rings_typed[OF demo_reach demo_save_keeps demo_process] by blast

section \<open>Rounds and clocks\<close>

text \<open>
  C1. The two processes refine the abstract barrier: the rounds of a reachable state are those of a
  reachable state of the abstract machine, and every step of the system is a turn of the
  abstract machine (a party finishes its round, or enters the next one through a gate its
  peer's finished round holds open) or leaves the abstract state as it is.
\<close>

theorem barrier_refines:
  assumes "sys_reach save q K s" and "save_keeps save" and "sys_step save s t"
    and "round_of (node_a t) \<le> K" and "round_of (node_b t) \<le> K"
  shows "gate_reach (gate_of s) \<and> (gate_of t = gate_of s \<or> gate_step (gate_of s) (gate_of t))"
  using reach_gate[OF assms(1,2)] step_gate[OF assms] ..

text \<open>
  C7. In every reachable state neither process is more than one round ahead of the other, and it is
  ahead only of a peer that has finished its quantum: no process enters round \<open>r + 1\<close> before
  its peer has reached the end of round \<open>r\<close>.
\<close>

theorem rounds_in_step:
  assumes "sys_reach save q K s" and "save_keeps save" and "(p, n, m) \<in> processes s"
  shows "round_of n \<le> round_of m + 1 \<and> (round_of m < round_of n \<longrightarrow> finished_quantum (wwt m))"
proof -
  have "round_in (phase_of n) \<le> rounds_done (phase_of m)"
    using reach_in_step[OF assms(1,2)] assms(3) by (auto simp: in_step_def gate_of_def processes_def)
  then show ?thesis by (auto simp: finished_bit_def split: if_splits)
qed

section \<open>Packets\<close>

text \<open>
  C21. A packet the guest hands to the backend is queued for the peer with the time stamp of its
  delivery: the sender's universal time plus one quantum (the link's latency).
\<close>

theorem packet_stamped:
  assumes "sys_reach save q K s" and "save_keeps save" and "(p, n, m) \<in> processes s"
    and "pdes_net_receive buf n_bytes n = Inr (i, n')"
  shows "\<exists>x. tx_list (comm n') = tx_list (comm n) @ [x] \<and> mtype x = MSG_TYPE_NORMAL \<and>
    sint (ts_ns x) = universal n + q"
proof -
  obtain rn rm sn sm where i: "pair_ok q K n m rn rm sn sm"
    by (rule process_inv[OF assms(1-3)])
  obtain j where "wwt_send buf n_bytes n = Inr (j, n')"
    using assms(4) by (auto simp: pdes_net_receive_def elim!: bindE_InrE)
  from wwt_send_pair[OF i this] show ?thesis by auto
qed

text \<open>
  C3. The lookahead of the protocol is one quantum: a packet sent while the sender's clock shows \<open>u\<close>
  is taken by a receiver whose clock shows \<open>v\<close> exactly if the receiver's universal time is at
  most a quantum ahead of the sender's; if it is further ahead the assertion on messages in the
  past fails. This holds whatever has moved the two clocks.
\<close>

theorem packet_lookahead:
  assumes "sys_reach save q K s" and "save_keeps save" and "(p, n, m) \<in> processes s"
    and "0 \<le> sint u" and "sint u + q < 9223372036854775808" and "0 \<le> sint v"
    and "pdes_net_receive buf n_bytes (n\<lparr>virt := u\<rparr>) = Inr (i, n')"
  shows "\<exists>x. tx_list (comm n') = tx_list (comm n) @ [x] \<and>
    (wwt_recivied_callback x (m\<lparr>virt := v\<rparr>) = Inl (Assert_Failed Message_In_Past) \<longleftrightarrow>
      universal (n\<lparr>virt := u\<rparr>) + q < universal (m\<lparr>virt := v\<rparr>)) \<and>
    ((\<exists>m'. wwt_recivied_callback x (m\<lparr>virt := v\<rparr>) = Inr m') \<longleftrightarrow>
      universal (m\<lparr>virt := v\<rparr>) \<le> universal (n\<lparr>virt := u\<rparr>) + q)"
proof -
  obtain rn rm sn sm where i: "pair_ok q K n m rn rm sn sm"
    by (rule process_inv[OF assms(1-3)])
  then have n: "node_ok q K n rn" and m: "node_ok q K m rm" and w: "comm_wf (comm n)"
    by (simp_all add: pair_ok_def)
  let ?f = "first_sync_virtual_time (eng n)" and ?g = "first_sync_virtual_time (eng m)"
  have f: "0 \<le> sint ?f" "0 < q" "first_sync_time (eng n) \<noteq> -1" "wwt_latencyns (wwt n) = word_of_int q"
    using n by (simp_all add: node_ok_def)
  have g: "0 \<le> sint ?g" "should_sync (wwt m)" using m by (simp_all add: node_ok_def)
  have nz: "?f \<noteq> -1" "?g \<noteq> -1" using f(1) g(1) by auto
  let ?t = "u - ?f + word_of_int q"
  have lf: "sint ?f < 9223372036854775808" "sint ?g < 9223372036854775808" "sint v < 9223372036854775808"
    using sint_lt[of ?f] sint_lt[of ?g] sint_lt[of v] by simp_all
  have du: "sint (u - ?f) = sint u - sint ?f"
    using assms(4,5) f(1,2) lf(1) by (intro sint_diff_i64) (simp add: in_i64_def)
  have dv: "sint (v - ?g) = sint v - sint ?g"
    using assms(6) g(1) lf by (intro sint_diff_i64) (simp add: in_i64_def)
  have "q < 9223372036854775808" using assms(4,5) by linarith
  then have sq: "sint (word_of_int q :: i64) = q" using f(2) by (simp add: in_i64_def)
  have dt: "sint ?t = universal (n\<lparr>virt := u\<rparr>) + q"
    using assms(4,5) f(1,2) lf(1) sint_add_i64[of "u - ?f" "word_of_int q"]
    by (simp add: du sq in_i64_def universal_def)
  from assms(7) obtain x j where x: "create_message buf n_bytes MSG_TYPE_NORMAL ?t = (Inr x :: (node, message) res)"
    and s: "pdes_engine_send x (n\<lparr>virt := u\<rparr>) = Inr (j, n')"
    using nz f(4)
    by (auto simp: pdes_net_receive_def wwt_send_def get_universal_virtual_time_def Let_def elim!: bindE_InrE)
  have xs: "ts_ns x = ?t" "mtype x = MSG_TYPE_NORMAL" using x by (simp_all add: create_message_Inr_iff)
  have "tx_list (comm n') = tx_list (comm n) @ [x]"
    using s w f(3) comm_send_returns[of x "n\<lparr>virt := u\<rparr>"] by (auto simp: pdes_engine_send_def)
  moreover have "wwt_recivied_callback x (m\<lparr>virt := v\<rparr>) =
      bindE (assertE Message_In_Past (universal (m\<lparr>virt := v\<rparr>) \<le> universal (n\<lparr>virt := u\<rparr>) + q))
        (\<lambda>_. Inr (m\<lparr>virt := v, contexts := contexts m @ [\<lparr>has_recv_cb = True, ctx_msg = x,
          one_time_poll_timer = Armed (?t + ?g), timestamp_ns = ?t + ?g\<rparr>]\<rparr>))"
    using xs nz g(2)
    by (simp add: wwt_recivied_callback_def get_universal_virtual_time_def receive_normal_def dt dv
        universal_def msg_type_defs bindE_assoc not_less Let_def)
  ultimately show ?thesis by (intro exI[of _ x]) (auto simp: assertE_def)
qed

text \<open>
  C2. Every packet waiting in a process is due at the stamp its sender gave it, at a time that has
  not passed; so when its timer fires it is delivered at exactly that universal time.
\<close>

theorem packets_on_time:
  assumes "sys_reach save q K s" and "save_keeps save" and "(p, n, m) \<in> processes s"
    and "c \<in> set (contexts n)"
  shows "\<exists>t. one_time_poll_timer c = Armed t \<and> sint (virt n) \<le> sint t \<and>
    (sint t \<le> sint (virt n) \<longrightarrow> universal n = sint (ts_ns (ctx_msg c)))"
proof -
  obtain rn rm sn sm where i: "pair_ok q K n m rn rm sn sm"
    by (rule process_inv[OF assms(1-3)])
  then have "context_ok n c" using assms(4) by (simp add: pair_ok_def node_ok_def)
  then show ?thesis by (auto simp: context_ok_def universal_def)
qed

section \<open>The assertions of the protocol\<close>

lemma peer_finished_safe:
  assumes "pair_has_finished (eng n) \<longrightarrow> permitted_to_exit (eng n)" and "pair_has_finished (eng n)"
  shows "safe_res (peer_has_finished n)"
  using assms by (auto simp: peer_has_finished_def intro!: safe_bind)

lemma wait_loop_safe:
  assumes "pair_ok q k n m rn rm sn sm"
  shows "safe_res (sync_wait_loop [id] n)"
proof -
  have "safe_res (if pair_has_finished (eng n1) then peer_has_finished n1
      else bindE (is_waiting_for_quanta n1) (\<lambda>(waiting, n2).
        if waiting then sync_wait_loop [] n2 else Inr (False, n2)))" if pl: "poll n = Inr n1" for n1
  proof -
    obtain r where p: "pair_ok q k n1 m r rm sn sm" using poll_pair(2)[OF assms pl] ..
    have "safe_res (is_waiting_for_quanta n1)"
      using poll_pair(1)[OF p] by (auto simp: is_waiting_for_quanta_def Let_def intro!: safe_bind)
    then have "safe_res (bindE (is_waiting_for_quanta n1) (\<lambda>(waiting, n2).
        if waiting then sync_wait_loop [] n2 else Inr (False, n2)))"
      by (rule safe_bind) auto
    moreover have "pair_has_finished (eng n1) \<Longrightarrow> safe_res (peer_has_finished n1)"
      using p by (intro peer_finished_safe) (simp_all add: pair_ok_def node_ok_def)
    ultimately show ?thesis by simp
  qed
  then show ?thesis using poll_pair(1)[OF assms] by (auto intro!: safe_bind)
qed

lemma quanta_rest_safe:
  assumes "pair_ok q k n m rn rm sn sm" and "sync_check_timer (wwt n) = No_Timer"
  shows "safe_res (quanta_rest n)"
proof -
  have "sync_check_timer (wwt n5) = No_Timer"
    if a: "poll n = Inr n3" "notify_if_needed n3 = Inr n4"
      "(if should_sync (wwt n4) then send_sync n4 else Inr n4) = Inr n5" for n3 n4 n5
  proof -
    have "sync_check_timer (wwt n4) = No_Timer"
      using same_phaseD(3)[OF poll_pair(4)[OF assms(1) a(1)]] assms(2)
        same_phaseD(3)[OF quiet_same_phase[OF quiet_resD[OF quiet_notify_if_needed a(2)]]] by simp
    moreover have "wwt n5 = wwt n4"
      using a(3) by (auto simp: send_sync_def Let_def pdes_engine_send_def comm_send_def
          elim!: bindE_InrE split: if_splits)
    ultimately show ?thesis by simp
  qed
  then show ?thesis
    unfolding quanta_rest_def by (intro safe_bind poll_pair(1)[OF assms(1)]) (auto intro!: safe_bind)
qed

text \<open>
  C4. In no reachable state does a handler trip an assertion of the barrier or of the exit
  handshake: polling never meets a SYNC of a wrong round, a packet stamped in the past or an END
  before permission; the end of a quantum never finds the check timer set; and the waiting loop
  never finds its peer finished without permission to exit.
\<close>

theorem protocol_assertions_hold:
  assumes "sys_reach save q K s" and "save_keeps save" and "(p, n, m) \<in> processes s"
  shows "safe_res (poll n) \<and>
    (p = Quantum_Ending \<longrightarrow> safe_res (quanta_rest n)) \<and>
    (\<forall>t. quantum_timer (wwt n) = Armed t \<and> sint t \<le> sint (virt n) \<longrightarrow>
      safe_res (quanta_sync (n\<lparr>wwt := (wwt n)\<lparr>quantum_timer := Idle\<rparr>\<rparr>))) \<and>
    safe_res (wwt_sync_check [id] n) \<and> safe_res (wait_and_pass [id] n)"
proof -
  obtain rn rm sn sm pm where i: "pair_ok q K n m rn rm sn sm" and l: "place_ok p n sn"
    by (rule process_inv[OF assms])
  have w: "safe_res (wait_and_pass [id] n')" if "pair_ok q K n' m r rm sn sm" for n' r
    using wait_loop_safe[OF that] by (auto simp: wait_and_pass_def intro!: safe_bind)
  have c: "safe_res (wwt_sync_check [id] n)"
    unfolding wwt_sync_check_def
  proof (rule safe_bind)
    show "safe_res (is_waiting_for_quanta n)"
      using poll_pair(1)[OF i] by (auto simp: is_waiting_for_quanta_def Let_def intro!: safe_bind)
    fix x assume x: "is_waiting_for_quanta n = Inr x"
    obtain b n1 where "x = (b, n1)" by (cases x)
    with is_waiting_pair[OF i, of b n1] x w
    show "safe_res (case x of (waiting, n1) \<Rightarrow>
        if waiting then wait_and_pass [id] n1 else pass_barrier n1)" by auto
  qed
  have q: "safe_res (quanta_sync (n\<lparr>wwt := (wwt n)\<lparr>quantum_timer := Idle\<rparr>\<rparr>))"
    if t: "quantum_timer (wwt n) = Armed t" "sint t \<le> sint (virt n)" for t
    unfolding quanta_sync_halves
  proof (rule safe_bind)
    let ?n = "n\<lparr>wwt := (wwt n)\<lparr>quantum_timer := Idle\<rparr>\<rparr>"
    show "safe_res (quanta_begin ?n)" by (simp add: quanta_begin_def Let_def)
    fix n' assume b: "quanta_begin ?n = Inr n'"
    have nf: "\<not> finished_quantum (wwt n)" using i t(1) by (auto simp: pair_ok_def node_ok_def)
    from quanta_begin_pair[OF i nf t b] show "safe_res (quanta_rest n')"
      using quanta_rest_safe by blast
  qed
  have r: "p = Quantum_Ending \<longrightarrow> safe_res (quanta_rest n)"
    using quanta_rest_safe[OF i] l by (simp add: place_ok_def)
  from poll_pair(1)[OF i] r q c w[OF i] show ?thesis by blast
qed

theorem protocol_assertions_hold_witness:
  "safe_res (poll (demo_started True)) \<and> safe_res (wwt_sync_check [id] (demo_started True))"
  using protocol_assertions_hold[OF demo_reach demo_save_keeps demo_process] by blast

section \<open>The barrier opens\<close>

text \<open>A look at the ring, when the peer has sent the SYNC of the round.\<close>

lemma barrier_look:
  assumes i: "pair_ok q K n m rn rm sn sm" and "room n" and sm: "round_of n < sm"
  shows "\<exists>n' r. is_waiting_for_quanta n = Inr (False, n') \<and> poll n = Inr n' \<and> round_of n' = round_of n \<and>
    pair_ok q K n' m r rm sn sm \<and> round_of n < r"
proof -
  obtain n' where n': "poll n = Inr n'"
    using poll_returns[OF i assms(2)] by blast
  obtain r where p': "pair_ok q K n' m r rm sn sm" using poll_pair(2)[OF i n'] ..
  have e: "rx_list (comm n') = []" "round_of n' = round_of n"
    using poll_pair(3)[OF i n'] same_phaseD(1)[OF poll_pair(4)[OF i n']] by simp_all
  then have "r = sm" using p' by (simp add: pair_ok_def)
  moreover have "node_ok q K n' r" using p' by (simp add: pair_ok_def)
  ultimately have "\<not> sint (sync_count_get (sync_counts (wwt n')) (current_quantum_round (wwt n'))) < 1"
    using count_reached sm e(2) by simp
  then show ?thesis using n' e(2) p' sm \<open>r = sm\<close> by (auto simp: is_waiting_for_quanta_def)
qed

lemma sync_sent:
  assumes "pair_ok q K n m rn rm sn sm" and "place_ok pm m sm"
    and "round_of n < round_of m \<or> round_of n = round_of m \<and> sync_check_timer (wwt m) \<noteq> No_Timer"
  shows "round_of n < sm"
  using assms by (auto simp: place_ok_def pair_ok_def)

text \<open>
  C8. Once the peer has sent the SYNC of a process's round (it has a check timer running for that
  round, or is in a later one) the process does not wait any longer: with one free slot in its
  sending ring the next look at the ring ends the waiting loop, and the fuel of the poll is
  enough for it.
\<close>

theorem barrier_opens:
  assumes "sys_reach save q K s" and "save_keeps save" and "(p, n, m) \<in> processes s"
    and "round_of n < round_of m \<or> round_of n = round_of m \<and> sync_check_timer (wwt m) \<noteq> No_Timer"
    and "length (tx_list (comm n)) < 8191"
  shows "\<exists>n'. is_waiting_for_quanta n = Inr (False, n') \<and> round_of n' = round_of n"
proof -
  obtain rn rm sn sm pm where i: "pair_ok q K n m rn rm sn sm" and l: "place_ok pm m sm"
    by (rule process_inv[OF assms(1-3)])
  have "room n" using assms(5) by (simp add: room_def)
  from barrier_look[OF i this sync_sent[OF i l assms(4)]] show ?thesis by blast
qed

text \<open>
  C6. The barrier does not deadlock: when both processes have sent the SYNC of their rounds and
  wait, each with a free slot in its sending ring, the next look at the ring ends the waiting of
  one of them.
\<close>

theorem barrier_no_deadlock:
  assumes "sys_reach save q K s" and "save_keeps save"
    and "sync_check_timer (wwt (node_a s)) \<noteq> No_Timer" and "sync_check_timer (wwt (node_b s)) \<noteq> No_Timer"
    and "length (tx_list (comm (node_a s))) < 8191" and "length (tx_list (comm (node_b s))) < 8191"
  shows "\<exists>p n m n'. (p, n, m) \<in> processes s \<and> is_waiting_for_quanta n = Inr (False, n')"
proof -
  have open_for: "\<exists>n'. is_waiting_for_quanta n = Inr (False, n')"
    if pr: "(p, n, m) \<in> processes s" and le: "round_of n \<le> round_of m"
      and t: "sync_check_timer (wwt m) \<noteq> No_Timer" and rm: "room n" for p n m
  proof -
    obtain rn rm sn sm pm where i: "pair_ok q K n m rn rm sn sm" and l: "place_ok pm m sm"
      by (rule process_inv[OF assms(1,2) pr])
    have "round_of n < sm" using sync_sent[OF i l] le t by linarith
    from barrier_look[OF i rm this] show ?thesis by blast
  qed
  have a: "(place_a s, node_a s, node_b s) \<in> processes s" and b: "(place_b s, node_b s, node_a s) \<in> processes s"
    by (simp_all add: processes_def)
  have "room (node_a s)" "room (node_b s)" using assms(5,6) by (simp_all add: room_def)
  then show ?thesis
    using open_for[OF a _ assms(4)] open_for[OF b _ assms(3)] a b by (meson nat_le_linear)
qed

section \<open>Leaving together\<close>

text \<open>
  C12. \<open>can_stop\<close> tells Flexus to stop only when both processes are permitted to exit: the master has
  granted permission and the follower has received it.
\<close>

theorem exit_together:
  assumes "sys_reach save q K s" and "save_keeps save" and "(p, n, m) \<in> processes s"
    and "can_stop n = Inr (True, n')"
  shows "permitted_to_exit (eng n') \<and> permitted_to_exit (eng m) \<and> pair_has_finished (eng n)"
proof -
  obtain rn rm sn sm where i: "pair_ok q K n m rn rm sn sm"
    by (rule process_inv[OF assms(1-3)])
  have q: "quiet n n'" by (rule quiet_can_stop[OF assms(4)])
  have f: "permitted_to_exit (eng n') \<and> pair_has_finished (eng n')"
    using assms(4) by (auto simp: can_stop_def Let_def elim!: bindE_InrE)
  then have h: "pair_has_finished (eng n)"
    using q i by (auto simp: quiet_def sends_control_def pair_ok_def)
  have "exit_ok n m (tx_list (comm n)) (rx_list (comm n))" using i by (simp add: pair_ok_def)
  then have "permitted_to_exit (eng m)" using h by (auto simp: exit_ok_def exit_flags_def exit_dir_def)
  with f h show ?thesis by blast
qed

text \<open>
  C11. END is sent exactly once: an END that a process has marked as sent is in its sending ring or
  has been seen by its peer, never both and never twice, no END exists that was not marked, and
  none is sent before its sender is permitted to exit.
\<close>

theorem end_exactly_once:
  assumes "sys_reach save q K s" and "save_keeps save" and "(p, n, m) \<in> processes s"
  shows "of_bool (end_message_sent (eng n)) =
      length (filter (\<lambda>x. mtype x = END_OF_EMULATION) (tx_list (comm n))) +
      of_bool (pair_has_finished (eng m)) \<and>
    (end_message_sent (eng n) \<longrightarrow> permitted_to_exit (eng n))"
proof -
  obtain rn rm sn sm where "pair_ok q K n m rn rm sn sm"
    by (rule process_inv[OF assms])
  then have "exit_ok n m (tx_list (comm n)) (rx_list (comm n))" by (simp add: pair_ok_def)
  then have f: "exit_flags n m (tx_list (comm n)) (rx_list (comm n))" and e: "one_end n m (tx_list (comm n))"
    by (simp_all add: exit_ok_def)
  have "end_message_sent (eng n) \<longrightarrow> has_end (tx_list (comm n)) \<or> pair_has_finished (eng m)"
    using e by (auto simp: one_end_def has_end_count)
  then have "end_message_sent (eng n) \<longrightarrow> permitted_to_exit (eng n)"
    using f by (auto simp: exit_flags_def exit_dir_def)
  then show ?thesis using e by (simp add: one_end_def sent_ends_def)
qed

end
