(* ===== verification/System_Runs.thy ===== *)
theory System_Runs
  imports System_Props
begin

text \<open>
  Runs of one concrete pair, quantum 1000 ns, both nodes at virtual time 5: a packet crosses the
  link, the follower ends its first quantum, the two shake hands and exit. They show that the
  hypotheses of the theorems about reachable states can be met beyond the initial state.
\<close>

section \<open>Runs of the concrete pair\<close>

lemma demo_started_eq:
  "demo_started m = (demo_node m 5)\<lparr>
     eng := zero_engine\<lparr>needs_sync := True, latencyns := 1000, first_sync_virtual_time := 5,
       master := m, msg_rec_poll_timer := Armed 500000000, first_sync_time := 5\<rparr>,
     wwt := zero_wwt\<lparr>quantum_ns := 1000, wwt_latencyns := 1000, number_of_neighbors := 1,
       should_sync := True, setup_timer := Armed 5, quantum_timer := Armed 0\<rparr>,
     comm := demo_comm, calls := [Icount_Set_Sleep False]\<rparr>"
  using demo_create[of m]
  by (simp add: pdes_engine_wwt_create_def pdes_engine_create_def setup_wwt_def
      demo_node_def zero_engine_def zero_wwt_def out_call_def get_universal_virtual_time_def
      timer_mod_def Let_def)

lemma demo_fields [simp]:
  "virt (demo_started m) = 5" "comm (demo_started m) = demo_comm" "contexts (demo_started m) = []"
  "first_sync_virtual_time (eng (demo_started m)) = 5" "first_sync_time (eng (demo_started m)) = 5"
  "master (eng (demo_started m)) = m" "\<not> permitted_to_exit (eng (demo_started m))"
  "\<not> pair_has_finished (eng (demo_started m))" "\<not> intent_sent (eng (demo_started m))"
  "\<not> end_message_sent (eng (demo_started m))" "\<not> needs_to_checkpoint (eng (demo_started m))"
  "ready_to_exit_neighbors (eng (demo_started m)) = 0" "\<not> pause_bh (eng (demo_started m))"
  "wwt_latencyns (wwt (demo_started m)) = 1000" "should_sync (wwt (demo_started m))"
  "current_quantum_round (wwt (demo_started m)) = 0" "quantum_timer (wwt (demo_started m)) = Armed 0"
  "sync_check_timer (wwt (demo_started m)) = No_Timer" "platform (demo_started m) = demo_platform"
  by (simp_all add: demo_started_eq demo_node_def zero_engine_def zero_wwt_def)

lemma demo_round [simp]: "current_quantum_round (wwt n) = 0 \<Longrightarrow> round_of n = 0"
  by (simp add: round_of_def)

lemma peer_view_lists:
  assumes "comm_wf c" and "d \<noteq> None"
  shows "comm_wf (peer_view c d)" and "rx_list (peer_view c d) = tx_list c"
    and "tx_list (peer_view c d) = rx_list c" and "peer_view c d \<noteq> None"
  using linked_lists[OF linked_peer_view[OF assms]] assms by (auto simp: peer_view_def comm_wf_def)

lemma run_a:
  assumes "sys_reach demo_save 1000 5 s" and "proc_step demo_save (place_a s, node_a s) (p, n)"
    and "round_of n \<le> 5" and "round_of (node_b s) \<le> 5"
  shows "sys_reach demo_save 1000 5 (s\<lparr>place_a := p, node_a := n,
      node_b := (node_b s)\<lparr>comm := peer_view (comm n) (comm (node_b s))\<rparr>\<rparr>)"
  using sys_reach.step[OF assms(1) sys_step.step_a[OF assms(2)]] assms(3,4) by simp

lemma run_b:
  assumes "sys_reach demo_save 1000 5 s" and "proc_step demo_save (place_b s, node_b s) (p, n)"
    and "round_of n \<le> 5" and "round_of (node_a s) \<le> 5"
  shows "sys_reach demo_save 1000 5 (s\<lparr>place_b := p, node_b := n,
      node_a := (node_a s)\<lparr>comm := peer_view (comm n) (comm (node_a s))\<rparr>\<rparr>)"
  using sys_reach.step[OF assms(1) sys_step.step_b[OF assms(2)]] assms(3,4) by simp

lemma recv_step:
  assumes "comm_wf (comm n)" and "rx_list (comm n) = m # ms" and "unat (len m) \<le> MAX_MSG_SIZE"
    and "p \<noteq> Exited"
    and "\<And>c. comm_wf c \<Longrightarrow> rx_list c = ms \<Longrightarrow> tx_list c = tx_list (comm n) \<Longrightarrow>
      process_message wwt_recivied_callback m (n\<lparr>comm := c\<rparr>) = Inr (f c)"
  shows "\<exists>c. comm_wf c \<and> rx_list c = ms \<and> tx_list c = tx_list (comm n) \<and> proc_step save (p, n) (p, f c)"
proof -
  obtain c where "(pdes_comm_recv (comm n) True :: (node, int \<times> message option \<times> comm option) res) =
      Inr (sint (len m), Some m, c)"
    and c: "comm_wf c" "rx_list c = ms" "tx_list c = tx_list (comm n)"
    using recv_some[OF assms(1,2), where ?'a = node] by blast
  then have "proc_step save (p, n) (p, f c)"
    using proc_step.receive[OF assms(4)] sint_len_nonneg[OF assms(3)] assms(5) by blast
  with c show ?thesis by blast
qed

text \<open>The master sends three bytes at time 0; the follower schedules them for time 1000.\<close>

definition demo_packet :: message where
  "demo_packet = \<lparr>ts_ns = 1000, len = 3, data = [1, 2, 3] @ replicate (MAX_MSG_SIZE - 3) 0,
     mtype = MSG_TYPE_NORMAL\<rparr>"

lemma demo_sends_packet:
  "\<exists>c. pdes_net_receive [1, 2, 3] 3 (demo_started True) = Inr (3, (demo_started True)\<lparr>comm := c\<rparr>) \<and>
    comm_wf c \<and> tx_list c = [demo_packet] \<and> rx_list c = []"
proof -
  have "(create_message [1, 2, 3] 3 MSG_TYPE_NORMAL 1000 :: (node, message) res) = Inr demo_packet"
    by (simp add: create_message_def demo_packet_def MAX_MSG_SIZE_def)
  moreover obtain c where "comm_send demo_packet (demo_started True) =
      Inr (0, (demo_started True)\<lparr>comm := c\<rparr>)" "comm_wf c" "tx_list c = [demo_packet]" "rx_list c = []"
    using comm_send_returns_iff[of "demo_started True" demo_packet] by auto
  ultimately show ?thesis
    by (auto simp: pdes_net_receive_def wwt_send_def get_universal_virtual_time_def pdes_engine_send_def)
qed

definition demo_waiting :: receive_context where
  "demo_waiting = \<lparr>has_recv_cb = True, ctx_msg = demo_packet, one_time_poll_timer = Armed 1005,
     timestamp_ns = 1005\<rparr>"

lemma demo_packet_queued:
  "\<exists>c d. sys_reach demo_save 1000 5 (demo_system\<lparr>node_a := (demo_started True)\<lparr>comm := c\<rparr>,
      node_b := (demo_started False)\<lparr>comm := d\<rparr>\<rparr>) \<and>
    comm_wf d \<and> rx_list d = [demo_packet] \<and> tx_list d = []"
proof -
  obtain c where send: "pdes_net_receive [1, 2, 3] 3 (demo_started True) =
      Inr (3, (demo_started True)\<lparr>comm := c\<rparr>)"
    and c: "comm_wf c" "tx_list c = [demo_packet]" "rx_list c = []"
    using demo_sends_packet by blast
  have "demo_comm \<noteq> None" by (simp add: demo_comm_def)
  note v = peer_view_lists[OF c(1) this]
  have "sys_reach demo_save 1000 5 (demo_system\<lparr>node_a := (demo_started True)\<lparr>comm := c\<rparr>,
      node_b := (demo_started False)\<lparr>comm := peer_view c demo_comm\<rparr>\<rparr>)"
    using run_a[OF demo_reach, of Main_Loop "(demo_started True)\<lparr>comm := c\<rparr>"] proc_step.packet[OF send]
    by (simp add: demo_system_def)
  then show ?thesis using v c by auto
qed

lemma demo_packet_taken:
  "process_message wwt_recivied_callback demo_packet ((demo_started False)\<lparr>comm := d\<rparr>) =
    Inr ((demo_started False)\<lparr>comm := d, contexts := [demo_waiting]\<rparr>)"
  by (simp add: process_message_def wwt_recivied_callback_def get_universal_virtual_time_def
      receive_normal_def process_control_def demo_packet_def demo_waiting_def msg_type_defs Let_def)

lemma demo_packet_run:
  "\<exists>s b. sys_reach demo_save 1000 5 s \<and> (Main_Loop, b, node_a s) \<in> processes s \<and> virt b = 5 \<and>
    \<not> master (eng b) \<and> platform b = demo_platform \<and> contexts b = [demo_waiting]"
proof -
  obtain c d where s: "sys_reach demo_save 1000 5 (demo_system\<lparr>node_a := (demo_started True)\<lparr>comm := c\<rparr>,
      node_b := (demo_started False)\<lparr>comm := d\<rparr>\<rparr>)" (is "sys_reach _ _ _ ?s")
    and d: "comm_wf d" "rx_list d = [demo_packet]"
    using demo_packet_queued by blast
  let ?f = "\<lambda>e. (demo_started False)\<lparr>comm := e, contexts := [demo_waiting]\<rparr>"
  obtain e where "proc_step demo_save (Main_Loop, (demo_started False)\<lparr>comm := d\<rparr>) (Main_Loop, ?f e)"
    using recv_step[of "(demo_started False)\<lparr>comm := d\<rparr>" demo_packet "[]" Main_Loop ?f demo_save] d
      demo_packet_taken by (auto simp: demo_packet_def MAX_MSG_SIZE_def)
  from run_b[OF s, of Main_Loop "?f e"] this
  have "sys_reach demo_save 1000 5 (?s\<lparr>node_b := ?f e,
      node_a := (demo_started True)\<lparr>comm := peer_view e c\<rparr>\<rparr>)"
    by (simp add: demo_system_def)
  then show ?thesis
    by (intro exI[of _ "?s\<lparr>node_b := ?f e, node_a := (demo_started True)\<lparr>comm := peer_view e c\<rparr>\<rparr>"]
        exI[of _ "?f e"]) (simp add: processes_def demo_system_def)
qed

theorem packet_lookahead_witness:
  "wwt_recivied_callback demo_packet ((demo_started False)\<lparr>virt := 1006\<rparr>) = Inl (Assert_Failed Message_In_Past) \<and>
    (\<exists>m'. wwt_recivied_callback demo_packet ((demo_started False)\<lparr>virt := 1005\<rparr>) = Inr m')"
proof -
  obtain c where send: "pdes_net_receive [1, 2, 3] 3 (demo_started True) =
      Inr (3, (demo_started True)\<lparr>comm := c\<rparr>)" and c: "tx_list c = [demo_packet]"
    using demo_sends_packet by blast
  have v: "(demo_started True)\<lparr>virt := 5\<rparr> = demo_started True" by (simp add: demo_started_eq demo_node_def)
  have s: "pdes_net_receive [1, 2, 3] 3 ((demo_started True)\<lparr>virt := 5\<rparr>) =
      Inr (3, (demo_started True)\<lparr>comm := c\<rparr>)" unfolding v by (rule send)
  show ?thesis
    using packet_lookahead[OF demo_reach demo_save_keeps demo_process _ _ _ s, of 1006]
      packet_lookahead[OF demo_reach demo_save_keeps demo_process _ _ _ s, of 1005] c
    by (simp add: universal_def)
qed

theorem packet_stamped_witness:
  "\<exists>n' x. pdes_net_receive [1, 2, 3] 3 (demo_started True) = Inr (3, n') \<and>
    tx_list (comm n') = [x] \<and> mtype x = MSG_TYPE_NORMAL \<and> sint (ts_ns x) = 1000"
proof -
  obtain c where send: "pdes_net_receive [1, 2, 3] 3 (demo_started True) =
      Inr (3, (demo_started True)\<lparr>comm := c\<rparr>)"
    using demo_sends_packet by blast
  from packet_stamped[OF demo_reach demo_save_keeps demo_process send] send show ?thesis
    by (auto simp: universal_def)
qed

theorem packets_on_time_witness:
  "\<exists>s b c. sys_reach demo_save 1000 5 s \<and> (Main_Loop, b, node_a s) \<in> processes s \<and>
    contexts b = [c] \<and> one_time_poll_timer c = Armed 1005 \<and> sint (virt b) \<le> 1005"
proof -
  obtain s b where s: "sys_reach demo_save 1000 5 s" "(Main_Loop, b, node_a s) \<in> processes s"
    and c: "contexts b = [demo_waiting]"
    using demo_packet_run by blast
  have "sint (virt b) \<le> 1005"
    using packets_on_time[OF s(1) demo_save_keeps s(2), of "hd (contexts b)"] c by (auto simp: demo_waiting_def)
  then show ?thesis
    by (intro exI[of _ s] exI[of _ b] exI[of _ "hd (contexts b)"] conjI s) (simp_all add: c demo_waiting_def)
qed


section \<open>The follower ends its first quantum\<close>

lemma poll_empty:
  assumes "comm_wf (comm n)" and "rx_list (comm n) = []"
  shows "poll n = Inr n"
  unfolding poll_def by (rule engine_poll_nothing[OF assms])

lemma poll_one:
  assumes "comm_wf (comm n)" and "rx_list (comm n) = [x]" and "unat (len x) \<le> MAX_MSG_SIZE"
    and "\<And>d. process_message wwt_recivied_callback x (n\<lparr>comm := d\<rparr>) = Inr (f d) \<and> comm (f d) = d"
  shows "\<exists>d. poll n = Inr (f d) \<and> comm_wf d \<and> rx_list d = [] \<and> tx_list d = tx_list (comm n)"
proof -
  obtain d where r: "(pdes_comm_recv (comm n) True :: (node, int \<times> message option \<times> comm option) res) =
      Inr (sint (len x), Some x, d)"
    and d: "comm_wf d" "rx_list d = []" "tx_list d = tx_list (comm n)"
    using recv_some[OF assms(1,2), where ?'a = node] by blast
  have "0 \<le> sint (len x)" using assms(3) by (rule sint_len_nonneg)
  then have "poll_loop (Suc (Suc k)) wwt_recivied_callback n = poll_loop (Suc k) wwt_recivied_callback (f d)" for k
    using r assms(4)[of d] by (simp add: NO_MESSAGE_def)
  moreover have "poll_loop (Suc k) wwt_recivied_callback (f d) = Inr (f d)" for k
    by (rule poll_loop_nothing) (use assms(4)[of d] d in simp_all)
  ultimately have "poll_loop (Suc (Suc k)) wwt_recivied_callback n = Inr (f d)" for k by simp
  from this[of 8190] d show ?thesis by (auto simp: poll_def pdes_engine_poll_def)
qed

text \<open>
  A node of the pair that has finished quantum 0 at time 5: its counts, its check timer, its
  engine, its communicator and the real time.
\<close>

definition demo_at ::
  "bool \<Rightarrow> (u32 \<Rightarrow> i32 option) \<Rightarrow> timer \<Rightarrow> engine \<Rightarrow> comm option \<Rightarrow> i64 \<Rightarrow> node" where
  "demo_at m counts chk e c rt = (demo_started m)\<lparr>
     wwt := (wwt (demo_started m))\<lparr>quantum_timer := Idle, finished_quantum := True,
       sync_counts := counts, sync_check_timer := chk\<rparr>,
     eng := e, comm := c, realtime := rt,
     paused_cpu := Some 0, cpu_stop := (cpu_stop (demo_started m))(0 := True)\<rparr>"

lemma demo_at_fields [simp]:
  "virt (demo_at m t k e c rt) = 5" "comm (demo_at m t k e c rt) = c" "eng (demo_at m t k e c rt) = e"
  "current_quantum_round (wwt (demo_at m t k e c rt)) = 0" "should_sync (wwt (demo_at m t k e c rt))"
  "quantum_timer (wwt (demo_at m t k e c rt)) = Idle" "sync_check_timer (wwt (demo_at m t k e c rt)) = k"
  "sync_counts (wwt (demo_at m t k e c rt)) = t" "realtime (demo_at m t k e c rt) = rt"
  "platform (demo_at m t k e c rt) = demo_platform" "finished_quantum (wwt (demo_at m t k e c rt))"
  "round_of (demo_at m t k e c rt) = 0" "quantum_ns (wwt (demo_at m t k e c rt)) = 1000"
  by (simp_all add: demo_at_def) (simp add: demo_started_eq)

lemma demo_at_updates [simp]:
  "(demo_at m t k e c rt)\<lparr>comm := d\<rparr> = demo_at m t k e d rt"
  "(demo_at m t k e c rt)\<lparr>eng := f\<rparr> = demo_at m t k f c rt"
  "(demo_at m t k e c rt)\<lparr>wwt := (wwt (demo_at m t k e' c' rt'))\<lparr>sync_check_timer := j\<rparr>\<rparr> = demo_at m t j e c rt"
  "(demo_at m t k e c rt)\<lparr>wwt := (wwt (demo_at m t k e c rt))\<lparr>sync_counts := u\<rparr>\<rparr> = demo_at m u k e c rt"
  by (cases "demo_started m"; simp add: demo_at_def)+

definition ended_eng :: "bool \<Rightarrow> engine" where
  "ended_eng m = (eng (demo_started m))\<lparr>paused := True, pause_bh := True\<rparr>"

lemma ended_eng_fields [simp]:
  "first_sync_virtual_time (ended_eng m) = 5" "first_sync_time (ended_eng m) = 5"
  "\<not> needs_to_checkpoint (ended_eng m)" "master (ended_eng m) = m" "\<not> end_message_sent (ended_eng m)"
  "\<not> permitted_to_exit (ended_eng m)" "\<not> pair_has_finished (ended_eng m)"
  "ready_to_exit_neighbors (ended_eng m) = 0"
  by (simp_all add: ended_eng_def)

definition demo_ending :: node where
  "demo_ending = demo_at False (\<lambda>_. None) No_Timer (ended_eng False) demo_comm 0"

lemma demo_begins_at:
  "quanta_begin ((demo_started m)\<lparr>comm := c, wwt := (wwt (demo_started m))\<lparr>quantum_timer := Idle\<rparr>\<rparr>) =
    Inr (demo_at m (\<lambda>_. None) No_Timer (ended_eng m) c 0)"
  by (simp add: quanta_begin_def pdes_pause_def demo_at_def ended_eng_def Let_def demo_platform_def
      demo_started_eq demo_node_def zero_engine_def zero_wwt_def)

definition demo_sync :: message where
  "demo_sync = \<lparr>ts_ns = 0, len = 8, data = le_bytes 8 (0 :: u64) @ replicate (MAX_MSG_SIZE - 8) 0,
     mtype = MSG_TYPE_SYNC\<rparr>"

lemma demo_begins: "quanta_begin ((demo_started False)\<lparr>wwt :=
    (wwt (demo_started False))\<lparr>quantum_timer := Idle\<rparr>\<rparr>) = Inr demo_ending"
proof -
  have "(demo_started False)\<lparr>comm := demo_comm, wwt := w\<rparr> = (demo_started False)\<lparr>wwt := w\<rparr>" for w
    by (simp add: demo_started_eq)
  with demo_begins_at[of False demo_comm] show ?thesis by (simp add: demo_ending_def)
qed

text \<open>The follower reaches the end of quantum 0: a turn of the abstract barrier.\<close>

definition demo_turn :: system where
  "demo_turn = demo_system\<lparr>place_b := Quantum_Ending, node_b := demo_ending,
     node_a := (demo_started True)\<lparr>comm := peer_view (comm demo_ending) demo_comm\<rparr>\<rparr>"

lemma demo_turn_step: "sys_step demo_save demo_system demo_turn"
proof -
  have q: "quantum_timer (wwt (demo_started False)) = Armed 0"
    "sint (0 :: i64) \<le> sint (virt (demo_started False))" by simp_all
  from sys_step.step_b[of demo_save demo_system Quantum_Ending demo_ending]
    proc_step.quantum[OF q demo_begins]
  show ?thesis by (simp add: demo_system_def demo_turn_def)
qed

lemma demo_ending_round [simp]: "round_of demo_ending = 0"
  by (simp add: demo_ending_def)

lemma demo_send_sync:
  assumes "first_sync_virtual_time e = 5" and "first_sync_time e = 5"
    and "comm_wf d" and "length (tx_list d) < 8191"
  shows "\<exists>f. send_sync (demo_at m u k e d rt) = Inr (demo_at m u k e f rt) \<and>
    comm_wf f \<and> tx_list f = tx_list d @ [demo_sync] \<and> rx_list f = rx_list d"
proof -
  let ?n = "demo_at m u k e d rt"
  have x: "(create_message (le_bytes SIZEOF_ROUND (0 :: u64)) 8 MSG_TYPE_SYNC 0 :: (node, message) res) =
      Inr demo_sync"
    by (simp add: create_message_def demo_sync_def MAX_MSG_SIZE_def SIZEOF_ROUND_def)
  obtain f where "comm_send demo_sync ?n = Inr (0, demo_at m u k e f rt)"
    and "comm_wf f" "tx_list f = tx_list d @ [demo_sync]" "rx_list f = rx_list d"
    using comm_send_returns_iff[of ?n demo_sync] assms(3,4) by auto
  then show ?thesis
    using x assms(1,2) by (auto simp: send_sync_def get_current_virtual_for_sync_message_def
        get_universal_virtual_time_def pdes_engine_send_def Let_def)
qed

text \<open>Once the ring is empty the SYNC of round 0 goes out and the check is armed.\<close>

lemma demo_rest:
  assumes "poll (demo_at m t No_Timer (ended_eng m) c rt) = Inr (demo_at m u No_Timer (ended_eng m) d rt)"
    and "comm_wf d" and "length (tx_list d) < 8191"
  shows "\<exists>f. quanta_rest (demo_at m t No_Timer (ended_eng m) c rt) =
      Inr (demo_at m u (Armed (rt + 1)) (ended_eng m) f rt) \<and>
    comm_wf f \<and> tx_list f = tx_list d @ [demo_sync] \<and> rx_list f = rx_list d"
  using demo_send_sync[of "ended_eng m" d m u No_Timer rt] assms
  by (auto simp: quanta_rest_def notify_if_needed_def)

lemma demo_ends:
  "\<exists>c. quanta_rest demo_ending = Inr (demo_at False (\<lambda>_. None) (Armed 1) (ended_eng False) c 0) \<and>
    comm_wf c \<and> tx_list c = [demo_sync] \<and> rx_list c = []"
proof -
  have "poll demo_ending = Inr demo_ending" by (intro poll_empty) (simp_all add: demo_ending_def)
  then show ?thesis
    using demo_rest[of False "\<lambda>_. None" demo_comm 0 "\<lambda>_. None" demo_comm] by (simp add: demo_ending_def)
qed

theorem barrier_refines_witness:
  "gate_reach (gate_of demo_system) \<and> gate_step (gate_of demo_system) (gate_of demo_turn) \<and>
    gate_of demo_turn = (Running 0, Finished 0)"
proof -
  have g: "gate_of demo_system = (Running 0, Running 0)" "gate_of demo_turn = (Running 0, Finished 0)"
    by (simp_all add: gate_of_def phase_of_def demo_system_def demo_turn_def demo_started_eq demo_ending_def
        zero_wwt_def)
  have "gate_reach (gate_of demo_system) \<and>
      (gate_of demo_turn = gate_of demo_system \<or> gate_step (gate_of demo_system) (gate_of demo_turn))"
    by (rule barrier_refines[OF demo_reach demo_save_keeps demo_turn_step])
      (simp_all add: demo_turn_def demo_system_def)
  with g show ?thesis by auto
qed

lemma demo_quantum_run:
  "\<exists>s m. sys_reach demo_save 1000 5 s \<and> (Main_Loop, node_a s, m) \<in> processes s \<and>
    round_of (node_a s) = 0 \<and> round_of m = 0 \<and> sync_check_timer (wwt m) = Armed 1 \<and>
    tx_list (comm (node_a s)) = [] \<and> rx_list (comm (node_a s)) = [demo_sync] \<and>
    place_a s = Main_Loop \<and> place_b s = Main_Loop \<and> node_b s = m \<and>
    (\<exists>c. node_a s = (demo_started True)\<lparr>comm := c\<rparr> \<and> comm_wf c) \<and>
    (\<exists>c. m = demo_at False (\<lambda>_. None) (Armed 1) (ended_eng False) c 0)"
proof -
  let ?a = "(demo_started True)\<lparr>comm := peer_view (comm demo_ending) demo_comm\<rparr>"
  let ?s1 = "demo_system\<lparr>place_b := Quantum_Ending, node_b := demo_ending, node_a := ?a\<rparr>"
  note r = demo_ending_round
  have s1: "sys_reach demo_save 1000 5 ?s1"
    using sys_reach.step[OF demo_reach demo_turn_step] by (simp add: demo_turn_def demo_system_def)
  obtain c where d: "quanta_rest demo_ending =
      Inr (demo_at False (\<lambda>_. None) (Armed 1) (ended_eng False) c 0)"
    and c: "comm_wf c" "tx_list c = [demo_sync]" "rx_list c = []"
    using demo_ends by blast
  let ?b = "demo_at False (\<lambda>_. None) (Armed 1) (ended_eng False) c 0"
  let ?s2 = "?s1\<lparr>place_b := Main_Loop, node_b := ?b,
    node_a := ?a\<lparr>comm := peer_view c (comm ?a)\<rparr>\<rparr>"
  have s2: "sys_reach demo_save 1000 5 ?s2"
    using run_b[OF s1, of Main_Loop ?b] proc_step.quantum_rest[OF d] r
    by (simp add: demo_system_def)
  have "comm ?a \<noteq> None" by (simp add: peer_view_def demo_ending_def demo_comm_def)
  note v = peer_view_lists[OF c(1) this]
  show ?thesis
    by (intro exI[of _ ?s2] exI[of _ ?b] conjI s2)
      (use v c r in \<open>auto simp: processes_def demo_system_def\<close>)
qed

theorem barrier_opens_witness:
  "\<exists>s n'. sys_reach demo_save 1000 5 s \<and> rx_list (comm (node_a s)) = [demo_sync] \<and>
    is_waiting_for_quanta (node_a s) = Inr (False, n') \<and> round_of n' = 0"
proof -
  obtain s m where s: "sys_reach demo_save 1000 5 s" "(Main_Loop, node_a s, m) \<in> processes s"
    and f: "round_of (node_a s) = 0" "round_of m = 0" "sync_check_timer (wwt m) = Armed 1"
      "tx_list (comm (node_a s)) = []" "rx_list (comm (node_a s)) = [demo_sync]"
    using demo_quantum_run by blast
  from barrier_opens[OF s(1) demo_save_keeps s(2)] f s(1) show ?thesis by auto
qed


section \<open>The two shake hands\<close>

definition demo_control :: "u8 \<Rightarrow> message" where
  "demo_control ty = \<lparr>ts_ns = 0, len = 0, data = replicate MAX_MSG_SIZE 0, mtype = ty\<rparr>"

lemma demo_control_simps [simp]: "len (demo_control ty) = 0" "mtype (demo_control ty) = ty"
  by (simp_all add: demo_control_def)

text \<open>A node of the pair with some engine and some communicator, still at time 5.\<close>

definition with_eng :: "bool \<Rightarrow> engine \<Rightarrow> comm option \<Rightarrow> node" where
  "with_eng m e c = (demo_started m)\<lparr>eng := e, comm := c\<rparr>"

lemma with_eng_simps [simp]:
  "eng (with_eng m e c) = e" "comm (with_eng m e c) = c" "virt (with_eng m e c) = 5"
  "wwt (with_eng m e c) = wwt (demo_started m)"
  by (simp_all add: with_eng_def)

lemma with_eng_updates [simp]:
  "(with_eng m e c)\<lparr>eng := e'\<rparr> = with_eng m e' c" "(with_eng m e c)\<lparr>comm := d\<rparr> = with_eng m e d"
  by (cases "demo_started m", simp add: with_eng_def)+

lemma demo_sends_control:
  assumes "first_sync_virtual_time e = 5" and "comm_wf c" and "length (tx_list c) < 8191"
  shows "\<exists>d. send_control ty (with_eng m e c) = Inr (with_eng m e d) \<and> comm_wf d \<and>
    tx_list d = tx_list c @ [demo_control ty] \<and> rx_list d = rx_list c"
proof -
  obtain d where "comm_send (demo_control ty) (with_eng m e c) = Inr (0, with_eng m e d)" "comm_wf d"
    "tx_list d = tx_list c @ [demo_control ty]" "rx_list d = rx_list c"
    using comm_send_returns_iff[of "with_eng m e c" "demo_control ty"] assms by auto
  then show ?thesis
    using assms by (auto simp: send_control_def get_universal_virtual_time_def create_message_empty
        demo_control_def)
qed

lemma demo_receives_control:
  assumes "first_sync_virtual_time e = 5" and "ty \<noteq> MSG_TYPE_SYNC" and "ty \<noteq> MSG_TYPE_NORMAL"
    and "comm_wf c" and "rx_list c = demo_control ty # ms"
    and "\<And>d. comm_wf d \<Longrightarrow> rx_list d = ms \<Longrightarrow> tx_list d = tx_list c \<Longrightarrow>
      \<exists>n'. process_control (demo_control ty) (with_eng m e d) = Inr n' \<and> Q n'"
  shows "\<exists>n'. proc_step demo_save (Main_Loop, with_eng m e c) (Main_Loop, n') \<and> Q n'"
proof -
  obtain d where d: "(pdes_comm_recv c True :: (node, int \<times> message option \<times> comm option) res) =
      Inr (0, Some (demo_control ty), d)" "comm_wf d" "rx_list d = ms" "tx_list d = tx_list c"
    using recv_some[OF assms(4,5), where ?'a = node] by auto
  from assms(6)[OF d(2-4)] obtain n' where
    n': "process_control (demo_control ty) (with_eng m e d) = Inr n'" "Q n'" by blast
  then have "process_message wwt_recivied_callback (demo_control ty) ((with_eng m e c)\<lparr>comm := d\<rparr>) = Inr n'"
    using assms(1-3) by (simp add: process_message_def wwt_recivied_callback_def
        get_universal_virtual_time_def)
  then have "proc_step demo_save (Main_Loop, with_eng m e c) (Main_Loop, n')"
    by (intro proc_step.receive[where i = 0 and m = "demo_control ty" and c = d]) (use d(1) in simp_all)
  with n'(2) show ?thesis by blast
qed

text \<open>The engines on the way: the follower announces itself, the master grants, both finish.\<close>

definition start_eng :: "bool \<Rightarrow> engine" where "start_eng m = eng (demo_started m)"

lemma start_eng_simps [simp]:
  "first_sync_virtual_time (start_eng m) = 5" "master (start_eng m) = m"
  "\<not> permitted_to_exit (start_eng m)" "\<not> intent_sent (start_eng m)" "\<not> end_message_sent (start_eng m)"
  "\<not> pair_has_finished (start_eng m)" "ready_to_exit_neighbors (start_eng m) = 0"
  by (simp_all add: start_eng_def)

lemma with_eng_start: "demo_started m = with_eng m (start_eng m) demo_comm"
  by (cases "demo_started m") (simp add: start_eng_def with_eng_def, metis demo_fields(2) node.select_convs(7))

definition asked :: engine where
  "asked = (start_eng False)\<lparr>intent_sent := True, ready_to_exit := True\<rparr>"

definition heard :: engine where
  "heard = (start_eng True)\<lparr>ready_to_exit_neighbors := 1\<rparr>"

definition granted :: engine where
  "granted = heard\<lparr>permitted_to_exit := True, end_message_sent := True, ready_to_exit := True\<rparr>"

definition allowed :: engine where
  "allowed = asked\<lparr>permitted_to_exit := True, end_message_sent := True\<rparr>"

lemmas demo_engines = asked_def heard_def granted_def allowed_def

lemma follower_asks:
  "\<exists>c. can_stop (demo_started False) = Inr (False, with_eng False asked c) \<and> comm_wf c \<and>
    tx_list c = [demo_control INTENT_TO_END_EMULATION] \<and> rx_list c = []"
proof -
  have e: "demo_started False = with_eng False (start_eng False) demo_comm"
    by (rule with_eng_start)
  obtain c where "send_control INTENT_TO_END_EMULATION (demo_started False) =
      Inr (with_eng False (start_eng False) c)" and c: "comm_wf c"
    "tx_list c = [demo_control INTENT_TO_END_EMULATION]" "rx_list c = []"
    using demo_sends_control[of "start_eng False" demo_comm INTENT_TO_END_EMULATION False] e by auto
  then have "can_stop (with_eng False (start_eng False) demo_comm) = Inr (False, with_eng False asked c)"
    unfolding e by (simp add: can_stop_def asked_def Let_def)
  then show ?thesis using c unfolding e by blast
qed

lemma master_hears:
  assumes "comm_wf c" and "rx_list c = [demo_control INTENT_TO_END_EMULATION]" and "tx_list c = []"
  shows "\<exists>d. proc_step demo_save (Main_Loop, with_eng True (start_eng True) c) (Main_Loop, with_eng True heard d) \<and>
    comm_wf d \<and> rx_list d = [] \<and> tx_list d = []"
proof -
  have "process_control (demo_control INTENT_TO_END_EMULATION) (with_eng True (start_eng True) d) =
      Inr (with_eng True heard d)" for d
    by (simp add: process_control_def process_intent_def heard_def msg_type_defs)
  then show ?thesis
    using demo_receives_control[of "start_eng True" INTENT_TO_END_EMULATION c "[]" True
        "\<lambda>n'. \<exists>d. n' = with_eng True heard d \<and> comm_wf d \<and> rx_list d = [] \<and> tx_list d = []"] assms
    by (auto simp: msg_type_defs)
qed

lemma master_grants:
  assumes "comm_wf c" and "rx_list c = []" and "tx_list c = []"
  shows "\<exists>d. can_stop (with_eng True heard c) = Inr (False, with_eng True granted d) \<and> comm_wf d \<and>
    tx_list d = [demo_control PERMISSION_TO_END_EMULATION, demo_control END_OF_EMULATION] \<and> rx_list d = []"
proof -
  let ?p = "heard\<lparr>permitted_to_exit := True\<rparr>"
  obtain d1 where d1: "send_control PERMISSION_TO_END_EMULATION (with_eng True ?p c) = Inr (with_eng True ?p d1)"
    "comm_wf d1" "tx_list d1 = [demo_control PERMISSION_TO_END_EMULATION]" "rx_list d1 = []"
    using demo_sends_control[of ?p c PERMISSION_TO_END_EMULATION True] assms by (auto simp: heard_def)
  let ?e = "?p\<lparr>end_message_sent := True\<rparr>"
  obtain d where "send_control END_OF_EMULATION (with_eng True ?e d1) = Inr (with_eng True ?e d)"
    "comm_wf d" "tx_list d = [demo_control PERMISSION_TO_END_EMULATION, demo_control END_OF_EMULATION]"
    "rx_list d = []"
    using demo_sends_control[of ?e d1 END_OF_EMULATION True] d1 by (auto simp: heard_def)
  then show ?thesis
    using d1 by (auto simp: can_stop_def send_end_if_handshake_complete_def Let_def granted_def heard_def)
qed


lemma follower_allowed:
  assumes "comm_wf c" and "tx_list c = []"
    and "rx_list c = [demo_control PERMISSION_TO_END_EMULATION, demo_control END_OF_EMULATION]"
  shows "\<exists>d. proc_step demo_save (Main_Loop, with_eng False asked c) (Main_Loop, with_eng False allowed d) \<and>
    comm_wf d \<and> rx_list d = [demo_control END_OF_EMULATION] \<and> tx_list d = [demo_control END_OF_EMULATION]"
proof -
  have "\<exists>n'. process_control (demo_control PERMISSION_TO_END_EMULATION) (with_eng False asked d) = Inr n' \<and>
      (\<exists>d'. n' = with_eng False allowed d' \<and> comm_wf d' \<and> rx_list d' = [demo_control END_OF_EMULATION] \<and>
        tx_list d' = [demo_control END_OF_EMULATION])"
    if d: "comm_wf d" "rx_list d = [demo_control END_OF_EMULATION]" "tx_list d = tx_list c" for d
  proof -
    obtain d' where "send_control END_OF_EMULATION (with_eng False allowed d) = Inr (with_eng False allowed d')"
      "comm_wf d'" "tx_list d' = [demo_control END_OF_EMULATION]" "rx_list d' = rx_list d"
      using demo_sends_control[of allowed d END_OF_EMULATION False] d assms(2) by (auto simp: demo_engines)
    moreover from this have "process_control (demo_control PERMISSION_TO_END_EMULATION) (with_eng False asked d) =
        Inr (with_eng False allowed d')"
      by (simp add: process_control_def process_permission_def msg_type_defs
          send_end_if_handshake_complete_def demo_engines)
    ultimately show ?thesis using d by auto
  qed
  then have "\<exists>n'. proc_step demo_save (Main_Loop, with_eng False asked c) (Main_Loop, n') \<and>
      (\<exists>d. n' = with_eng False allowed d \<and> comm_wf d \<and> rx_list d = [demo_control END_OF_EMULATION] \<and>
        tx_list d = [demo_control END_OF_EMULATION])"
    by (intro demo_receives_control[OF _ _ _ assms(1,3)]) (simp_all add: demo_engines msg_type_defs)
  then show ?thesis by blast
qed

lemma end_received:
  assumes "comm_wf c" and "rx_list c = demo_control END_OF_EMULATION # ms" and "permitted_to_exit e"
    and "first_sync_virtual_time e = 5"
  shows "\<exists>d. proc_step demo_save (Main_Loop, with_eng m e c)
      (Main_Loop, with_eng m (e\<lparr>pair_has_finished := True\<rparr>) d) \<and>
    comm_wf d \<and> rx_list d = ms \<and> tx_list d = tx_list c"
proof -
  have "\<exists>n'. process_control (demo_control END_OF_EMULATION) (with_eng m e d) = Inr n' \<and>
      (\<exists>d'. n' = with_eng m (e\<lparr>pair_has_finished := True\<rparr>) d' \<and> comm_wf d' \<and> rx_list d' = ms \<and>
        tx_list d' = tx_list c)"
    if "comm_wf d" "rx_list d = ms" "tx_list d = tx_list c" for d
    using that assms(3) by (auto simp: process_control_def process_end_def msg_type_defs)
  then have "\<exists>n'. proc_step demo_save (Main_Loop, with_eng m e c) (Main_Loop, n') \<and>
      (\<exists>d. n' = with_eng m (e\<lparr>pair_has_finished := True\<rparr>) d \<and> comm_wf d \<and> rx_list d = ms \<and>
        tx_list d = tx_list c)"
    by (intro demo_receives_control[OF assms(4) _ _ assms(1,2)]) (simp_all add: msg_type_defs)
  then show ?thesis by blast
qed

lemma can_stop_finished:
  assumes "master e" and "permitted_to_exit e" and "pair_has_finished e"
  shows "can_stop (with_eng m e c) = Inr (True, with_eng m (e\<lparr>ready_to_exit := True\<rparr>) c)"
  using assms by (simp add: can_stop_def Let_def)

text \<open>The system with the two in the main loop.\<close>

definition demo_pair :: "engine \<Rightarrow> comm option \<Rightarrow> engine \<Rightarrow> comm option \<Rightarrow> system" where
  "demo_pair ea ca eb cb = \<lparr>place_a = Main_Loop, node_a = with_eng True ea ca,
     place_b = Main_Loop, node_b = with_eng False eb cb\<rparr>"

lemma round_with_eng [simp]: "round_of (with_eng m e c) = 0"
  by simp

lemma pair_run_a:
  assumes "sys_reach demo_save 1000 5 (demo_pair ea ca eb cb)"
    and "proc_step demo_save (Main_Loop, with_eng True ea ca) (Main_Loop, with_eng True ea' c)"
  shows "sys_reach demo_save 1000 5 (demo_pair ea' c eb (peer_view c cb))"
  using run_a[OF assms(1), of Main_Loop "with_eng True ea' c"] assms(2) by (simp add: demo_pair_def)

lemma pair_run_b:
  assumes "sys_reach demo_save 1000 5 (demo_pair ea ca eb cb)"
    and "proc_step demo_save (Main_Loop, with_eng False eb cb) (Main_Loop, with_eng False eb' c)"
  shows "sys_reach demo_save 1000 5 (demo_pair ea (peer_view c ca) eb' c)"
  using run_b[OF assms(1), of Main_Loop "with_eng False eb' c"] assms(2) by (simp add: demo_pair_def)

lemma demo_handshake:
  "\<exists>ca cb. sys_reach demo_save 1000 5 (demo_pair (granted\<lparr>pair_has_finished := True\<rparr>) ca
      (allowed\<lparr>pair_has_finished := True\<rparr>) cb)"
proof -
  have nn: "demo_comm \<noteq> None" by (simp add: demo_comm_def)
  have s0: "sys_reach demo_save 1000 5 (demo_pair (start_eng True) demo_comm (start_eng False) demo_comm)"
    using demo_reach by (simp add: demo_system_def demo_pair_def flip: with_eng_start)
  obtain c1 where 1: "can_stop (demo_started False) = Inr (False, with_eng False asked c1)" "comm_wf c1"
    "tx_list c1 = [demo_control INTENT_TO_END_EMULATION]" "rx_list c1 = []"
    using follower_asks by blast
  have "proc_step demo_save (Main_Loop, with_eng False (start_eng False) demo_comm)
      (Main_Loop, with_eng False asked c1)"
    by (rule proc_step.stop_query[where b = False]) (use 1 in \<open>simp_all flip: with_eng_start\<close>)
  note s1 = pair_run_b[OF s0 this] and v1 = peer_view_lists[OF 1(2) nn, unfolded 1(3,4)]
  obtain c2 where 2: "proc_step demo_save (Main_Loop, with_eng True (start_eng True) (peer_view c1 demo_comm))
      (Main_Loop, with_eng True heard c2)" "comm_wf c2" "rx_list c2 = []" "tx_list c2 = []"
    using master_hears[OF v1(1,2,3)] by blast
  have n1: "c1 \<noteq> None" using 1(2) by (auto simp: comm_wf_def)
  note s2 = pair_run_a[OF s1 2(1)] and v2 = peer_view_lists[OF 2(2) n1, unfolded 2(3,4)]
  obtain c3 where 3: "can_stop (with_eng True heard c2) = Inr (False, with_eng True granted c3)" "comm_wf c3"
    "tx_list c3 = [demo_control PERMISSION_TO_END_EMULATION, demo_control END_OF_EMULATION]" "rx_list c3 = []"
    using master_grants[OF 2(2,3,4)] by blast
  have "proc_step demo_save (Main_Loop, with_eng True heard c2) (Main_Loop, with_eng True granted c3)"
    by (rule proc_step.stop_query[where b = False]) (use 3 in simp_all)
  note s3 = pair_run_a[OF s2 this] and v3 = peer_view_lists[OF 3(2) v2(4), unfolded 3(3,4)]
  obtain c4 where 4: "proc_step demo_save (Main_Loop, with_eng False asked (peer_view c3 (peer_view c2 c1)))
      (Main_Loop, with_eng False allowed c4)" "comm_wf c4"
    "rx_list c4 = [demo_control END_OF_EMULATION]" "tx_list c4 = [demo_control END_OF_EMULATION]"
    using follower_allowed[OF v3(1,3,2)] by blast
  have n3: "c3 \<noteq> None" using 3(2) by (auto simp: comm_wf_def)
  note s4 = pair_run_b[OF s3 4(1)] and v4 = peer_view_lists[OF 4(2) n3, unfolded 4(3,4)]
  have p: "permitted_to_exit allowed" "first_sync_virtual_time allowed = 5"
    "permitted_to_exit granted" "first_sync_virtual_time granted = 5" by (simp_all add: demo_engines)
  obtain c5 where 5: "proc_step demo_save (Main_Loop, with_eng False allowed c4)
      (Main_Loop, with_eng False (allowed\<lparr>pair_has_finished := True\<rparr>) c5)" "comm_wf c5"
    "rx_list c5 = []" "tx_list c5 = [demo_control END_OF_EMULATION]"
    using end_received[OF 4(2,3) p(1,2)] 4(4) by auto
  note s5 = pair_run_b[OF s4 5(1)] and v5 = peer_view_lists[OF 5(2) v4(4), unfolded 5(3,4)]
  obtain c6 where "proc_step demo_save (Main_Loop, with_eng True granted (peer_view c5 (peer_view c4 c3)))
      (Main_Loop, with_eng True (granted\<lparr>pair_has_finished := True\<rparr>) c6)"
    using end_received[OF v5(1,2) p(3,4)] by blast
  from pair_run_a[OF s5 this] show ?thesis by blast
qed

theorem exit_together_witness:
  "\<exists>s n'. sys_reach demo_save 1000 5 s \<and> can_stop (node_a s) = Inr (True, n') \<and>
    permitted_to_exit (eng n') \<and> permitted_to_exit (eng (node_b s)) \<and> pair_has_finished (eng (node_a s))"
proof -
  let ?e = "granted\<lparr>pair_has_finished := True\<rparr>"
  obtain ca cb where s: "sys_reach demo_save 1000 5 (demo_pair ?e ca (allowed\<lparr>pair_has_finished := True\<rparr>) cb)"
      (is "sys_reach _ _ _ ?s")
    using demo_handshake by blast
  have c: "can_stop (node_a ?s) = Inr (True, with_eng True (?e\<lparr>ready_to_exit := True\<rparr>) ca)"
    unfolding demo_pair_def by (simp add: can_stop_finished demo_engines)
  have "(Main_Loop, node_a ?s, node_b ?s) \<in> processes ?s" by (simp add: processes_def demo_pair_def)
  from exit_together[OF s demo_save_keeps this c] s c show ?thesis by blast
qed

theorem end_exactly_once_witness:
  "\<exists>s. sys_reach demo_save 1000 5 s \<and> end_message_sent (eng (node_a s)) \<and>
    filter (\<lambda>x. mtype x = END_OF_EMULATION) (tx_list (comm (node_a s))) = []"
proof -
  obtain ca cb where s: "sys_reach demo_save 1000 5 (demo_pair (granted\<lparr>pair_has_finished := True\<rparr>) ca
      (allowed\<lparr>pair_has_finished := True\<rparr>) cb)" (is "sys_reach _ _ _ ?s")
    using demo_handshake by blast
  have "(Main_Loop, node_a ?s, node_b ?s) \<in> processes ?s" by (simp add: processes_def demo_pair_def)
  from end_exactly_once[OF s demo_save_keeps this] s show ?thesis
    by (intro exI[of _ ?s]) (simp add: demo_pair_def demo_engines)
qed

end
