(* ===== verification/Barrier_Live.thy ===== *)
theory Barrier_Live
  imports Barrier_Moves
begin

text \<open>
  The barrier handlers return. Outside a checkpoint a node sends at most one message of its own
  accord while it polls (the END that answers PERMISSION), so a few free slots in its sending
  ring are enough for the end of a quantum to complete and for the barrier to be passed.
\<close>

section \<open>Nodes without a checkpoint on their way\<close>

definition no_checkpoint :: "node \<Rightarrow> bool" where
  "no_checkpoint n \<longleftrightarrow> \<not> needs_to_checkpoint (eng n) \<and>
     (\<forall>m \<in> set (rx_list (comm n)). mtype m \<noteq> DRAIN_START \<and> mtype m \<noteq> CHECKPOINT_INIT_STEP)"

text \<open>The slots of the sending ring in use, the END still to be sent counted in.\<close>

definition slots :: "node \<Rightarrow> nat" where
  "slots n = length (tx_list (comm n)) + (if end_message_sent (eng n) then 0 else 1)"

definition calm :: "nat \<Rightarrow> platform \<Rightarrow> node \<Rightarrow> bool" where
  "calm j p n \<longleftrightarrow> no_checkpoint n \<and> slots n \<le> j \<and> j \<le> 8191 \<and> platform n = p"

lemma calm_room: "calm j p n \<Longrightarrow> room n"
  by (auto simp: calm_def slots_def room_def split: if_splits)

lemma calm_length: "calm j p n \<Longrightarrow> j < 8191 \<Longrightarrow> length (tx_list (comm n)) < 8191"
  by (auto simp: calm_def slots_def split: if_splits)

text \<open>Flexus, where it is built in, offers both entries or neither.\<close>

definition can_pause :: "platform \<Rightarrow> bool" where
  "can_pause p \<longleftrightarrow> libqflex p \<longrightarrow> api_pause p \<or> \<not> api_stop p"

definition can_play :: "platform \<Rightarrow> bool" where
  "can_play p \<longleftrightarrow> libqflex p \<longrightarrow> api_resume p \<or> \<not> api_stop p"

section \<open>Polling stays calm\<close>

lemma send_end_slots:
  assumes "send_end_if_handshake_complete n = Inr n'" and "comm_wf (comm n)"
  shows "slots n' = slots n \<and> needs_to_checkpoint (eng n') = needs_to_checkpoint (eng n) \<and>
    rx_list (comm n') = rx_list (comm n) \<and> platform n' = platform n"
proof (cases "permitted_to_exit (eng n) \<and> \<not> end_message_sent (eng n)")
  case True
  let ?n = "n\<lparr>eng := (eng n)\<lparr>end_message_sent := True\<rparr>\<rparr>"
  from True assms(1) obtain t m i where "comm_send m ?n = Inr (i, n')"
    by (auto simp: send_end_if_handshake_complete_def send_control_def elim!: bindE_InrE)
  from comm_send_returns[OF this] assms(2) True show ?thesis by (auto simp: slots_def)
next
  case False
  then have "n' = n" using assms(1) by (auto simp: send_end_if_handshake_complete_def split: if_splits)
  then show ?thesis by simp
qed

lemma control_slots:
  assumes c: "process_control m n = Inr n'" and w: "comm_wf (comm n)"
    and t: "mtype m \<noteq> DRAIN_START" "mtype m \<noteq> CHECKPOINT_INIT_STEP"
  shows "slots n' = slots n \<and> needs_to_checkpoint (eng n') = needs_to_checkpoint (eng n) \<and>
    rx_list (comm n') = rx_list (comm n) \<and> platform n' = platform n"
proof (cases "mtype m = PERMISSION_TO_END_EMULATION")
  case True
  let ?n = "n\<lparr>eng := (eng n)\<lparr>permitted_to_exit := True\<rparr>\<rparr>"
  have "send_end_if_handshake_complete ?n = Inr n'"
    using c True by (simp add: process_control_def process_permission_def msg_type_defs)
  from send_end_slots[OF this] w show ?thesis by (simp add: slots_def)
next
  case False
  then have "\<exists>e. n' = n\<lparr>eng := e\<rparr> \<and> end_message_sent e = end_message_sent (eng n) \<and>
      needs_to_checkpoint e = needs_to_checkpoint (eng n)"
    using c t
    by (auto simp: process_control_def process_intent_def process_end_def process_drain_end_def
        msg_type_defs assertE_def split: if_splits intro: exI[of _ "eng n"])
  then show ?thesis by (auto simp: slots_def)
qed

lemma receive_calm:
  assumes p: "pair_ok q k a b ra rb sa sb" and rx: "rx_list (comm a) = m # ms" and j: "calm j pf a"
    and c: "comm_wf c" "rx_list c = ms" "tx_list c = tx_list (comm a)"
    and r: "process_message wwt_recivied_callback m (a\<lparr>comm := c\<rparr>) = Inr a'"
  shows "calm j pf a'"
proof -
  from callback_step[OF p rx, of c] obtain a1 where cb: "wwt_recivied_callback m (a\<lparr>comm := c\<rparr>) = Inr a1"
    and e: "eng a1 = eng a" "comm a1 = c" "platform a1 = platform a" by blast
  have t: "mtype m \<noteq> DRAIN_START" "mtype m \<noteq> CHECKPOINT_INIT_STEP"
    using j rx by (simp_all add: calm_def no_checkpoint_def)
  have "process_control m a1 = Inr a'" using r cb by (simp add: process_message_def)
  from control_slots[OF this _ t] e c j rx show ?thesis
    by (simp add: calm_def no_checkpoint_def slots_def)
qed

interpretation calm_poll: poll_client_total wwt_recivied_callback
  "\<lambda>a. polling q k b rb sa sb a0 a \<and> calm j pf a" "\<lambda>e. \<not> protocol_fault e" for q k b rb sa sb a0 j pf
proof unfold_locales
  fix n m ms c n' e
  assume i: "polling q k b rb sa sb a0 n \<and> calm j pf n"
  then have i': "polling q k b rb sa sb a0 n \<and> room n" using calm_room by blast
  show "comm_wf (comm n)" by (rule wwt_poll.inv_comm[OF conjunct1[OF i]])
  show "unat (len m) \<le> MAX_MSG_SIZE" if "m \<in> set (rx_list (comm n))"
    by (rule wwt_poll.inv_length[OF conjunct1[OF i] that])
  assume rx: "rx_list (comm n) = m # ms" and c: "comm_wf c" "rx_list c = ms" "tx_list c = tx_list (comm n)"
  note a = wwt_poll_total.message_returns[OF i' rx c]
  then show "\<exists>n'. process_message wwt_recivied_callback m (n\<lparr>comm := c\<rparr>) = Inr n'" .
  show "\<not> protocol_fault e" if "process_message wwt_recivied_callback m (n\<lparr>comm := c\<rparr>) = Inl e"
    using a that by simp
  show "(polling q k b rb sa sb a0 n' \<and> calm j pf n') \<and> rx_list (comm n') = ms"
    if r: "process_message wwt_recivied_callback m (n\<lparr>comm := c\<rparr>) = Inr n'"
    using wwt_poll.message_keeps[OF conjunct1[OF i] rx c r] receive_calm[OF _ rx conjunct2[OF i] c r] i
    by (auto simp: polling_def)
qed

lemma poll_calm:
  assumes "pair_ok q k a b ra rb sa sb" and "calm j pf a"
  shows "\<exists>a'. poll a = Inr a' \<and> calm j pf a'"
  using calm_poll.engine_poll_returns[OF conjI[OF pollingI[OF assms(1)] assms(2)]]
  unfolding poll_def by blast

section \<open>The end of a quantum\<close>

lemma send_sync_returns:
  assumes "node_ok q k a ra" and "comm_wf (comm a)" and "length (tx_list (comm a)) < 8191"
  shows "\<exists>c x. send_sync a = Inr (a\<lparr>comm := c\<rparr>) \<and> tx_list c = tx_list (comm a) @ [x] \<and>
    rx_list c = rx_list (comm a) \<and> mtype x = MSG_TYPE_SYNC \<and> sync_round_of x = current_quantum_round (wwt a)"
proof -
  let ?r = "current_quantum_round (wwt a)"
  have f: "first_sync_time (eng a) \<noteq> -1" "first_sync_virtual_time (eng a) \<noteq> -1"
    using assms(1) by (auto simp: node_ok_def)
  let ?x = "\<lparr>ts_ns = virt a - first_sync_virtual_time (eng a), len = 8,
    data = le_bytes SIZEOF_ROUND ?r @ replicate (MAX_MSG_SIZE - 8) 0, mtype = MSG_TYPE_SYNC\<rparr>"
  obtain c where c: "comm_send ?x a = Inr (0, a\<lparr>comm := c\<rparr>)" "tx_list c = tx_list (comm a) @ [?x]"
    "rx_list c = rx_list (comm a)"
    using comm_send_returns_iff[OF assms(2,3)] by blast
  have "(create_message (le_bytes SIZEOF_ROUND ?r) 8 MSG_TYPE_SYNC (ts_ns ?x) :: (node, message) res) = Inr ?x"
    by (simp add: create_message_def MAX_MSG_SIZE_def SIZEOF_ROUND_def)
  then have "send_sync a = Inr (a\<lparr>comm := c\<rparr>)"
    using c(1) f by (simp add: send_sync_def get_current_virtual_for_sync_message_def
        get_universal_virtual_time_def pdes_engine_send_def Let_def)
  moreover have "sync_round_of ?x = ?r" by (simp add: sync_round_of_def SIZEOF_ROUND_def)
  ultimately show ?thesis using c(2,3) by (intro exI[of _ c] exI[of _ ?x]) simp
qed

lemma quanta_rest_returns:
  assumes p: "pair_ok q k a b ra rb sa sb" and j: "calm j pf a" "j < 8191"
    and t: "sync_check_timer (wwt a) = No_Timer"
  shows "\<exists>a' x. quanta_rest a = Inr a' \<and> sync_check_timer (wwt a') = Armed (realtime a' + 1) \<and>
    last (tx_list (comm a')) = x \<and> mtype x = MSG_TYPE_SYNC \<and>
    sync_round_of x = current_quantum_round (wwt a') \<and> rx_list (comm a') = [] \<and> calm (Suc j) pf a'"
proof -
  obtain a1 where a1: "poll a = Inr a1" "calm j pf a1" using poll_calm[OF p j(1)] by blast
  obtain r where p1: "pair_ok q k a1 b r rb sa sb" using poll_pair(2)[OF p a1(1)] ..
  have n: "node_ok q k a1 r" "comm_wf (comm a1)" "should_sync (wwt a1)"
    using p1 by (simp_all add: pair_ok_def node_ok_def)
  have t1: "sync_check_timer (wwt a1) = No_Timer" using same_phaseD(3)[OF poll_pair(4)[OF p a1(1)] t] .
  have nn: "notify_if_needed a1 = Inr a1" using a1(2) by (simp add: calm_def no_checkpoint_def notify_if_needed_def)
  have rx: "rx_list (comm a1) = []" by (rule poll_pair(3)[OF p a1(1)])
  obtain c x where "send_sync a1 = Inr (a1\<lparr>comm := c\<rparr>)" "tx_list c = tx_list (comm a1) @ [x]"
    "rx_list c = rx_list (comm a1)" "mtype x = MSG_TYPE_SYNC" "sync_round_of x = current_quantum_round (wwt a1)"
    using send_sync_returns[OF n(1,2) calm_length[OF a1(2) j(2)]] by blast
  then show ?thesis using a1 j(2) nn n(3) t1 rx
    by (auto simp: quanta_rest_def calm_def no_checkpoint_def slots_def)
qed

lemma pause_returns:
  assumes "can_pause (platform n)" and "\<not> pause_bh (eng n)"
  shows "\<exists>n'. pdes_pause n = Inr n' \<and> comm n' = comm n \<and> platform n' = platform n \<and> pause_bh (eng n') \<and>
    end_message_sent (eng n') = end_message_sent (eng n) \<and>
    needs_to_checkpoint (eng n') = needs_to_checkpoint (eng n)"
  using assms by (auto simp: pdes_pause_def can_pause_def out_call_def Let_def split: option.splits)

section \<open>The passage of the barrier\<close>

lemma grant_returns:
  assumes n: "node_ok q k a ra" and w: "comm_wf (comm a)" and s: "slots a \<le> 8190"
  shows "\<exists>a'. grant_permission a = Inr a'"
proof (cases "master (eng a) \<and> 1 \<le> sint (ready_to_exit_neighbors (eng a)) \<and> ready_to_exit (eng a) \<and>
    \<not> permitted_to_exit (eng a)")
  case True
  let ?a = "a\<lparr>eng := (eng a)\<lparr>permitted_to_exit := True\<rparr>\<rparr>"
  have f: "first_sync_virtual_time (eng ?a) \<noteq> -1" using n by (auto simp: node_ok_def)
  have "length (tx_list (comm ?a)) < 8191" using s by (auto simp: slots_def split: if_splits)
  from send_control_succeeds[OF _ f this, of PERMISSION_TO_END_EMULATION] w obtain c x where
    c: "send_control PERMISSION_TO_END_EMULATION ?a = Inr (?a\<lparr>comm := c\<rparr>)" "comm_wf c"
      "tx_list c = tx_list (comm a) @ [x]" by auto
  have "room (?a\<lparr>comm := c\<rparr>)" using s c(3) by (auto simp: room_def slots_def split: if_splits)
  with send_end_returns[of "?a\<lparr>comm := c\<rparr>"] c f True show ?thesis by (auto simp: grant_permission_def)
next
  case False
  then show ?thesis by (auto simp: grant_permission_def)
qed

lemma play_returns: "can_play (platform n) \<Longrightarrow> \<exists>n'. pdes_play n = Inr n'"
  by (auto simp: pdes_play_def can_play_def out_call_def Let_def split: option.splits)

lemma grant_keeps_platform:
  assumes "grant_permission a = Inr a'"
  shows "platform a' = platform a \<and> wwt a' = wwt a"
  using assms
  by (auto simp: grant_permission_def send_control_def send_end_if_handshake_complete_def comm_send_def
      elim!: bindE_InrE split: if_splits)

lemma pass_barrier_returns:
  assumes p: "pair_ok q k a b ra rb sa sb" and f: "finished_quantum (wwt a)" "sa = Suc (round_of a)"
    and r: "round_of a < ra" and j: "calm 8190 pf a" and pl: "can_play pf"
  shows "\<exists>a'. pass_barrier a = Inr a' \<and> round_of a' = Suc (round_of a)"
proof -
  let ?a1 = "a\<lparr>eng := (eng a)\<lparr>skip_boundry_check_after_checkpoint := False\<rparr>\<rparr>"
  let ?a2 = "?a1\<lparr>wwt := (wwt a)\<lparr>sync_check_timer := No_Timer\<rparr>\<rparr>"
  have n: "node_ok q k a ra" and w: "comm_wf (comm a)" using p by (simp_all add: pair_ok_def)
  have "quiet a ?a2" by (rule quiet_local) (simp_all add: same_barrier_def)
  then have "node_ok q k ?a2 ra" using pair_quiet[OF p] by (simp add: pair_ok_def)
  moreover have "slots ?a2 \<le> 8190" using j by (simp add: calm_def slots_def)
  ultimately obtain a3 where g: "grant_permission ?a2 = Inr a3"
    using grant_returns[of q k ?a2 ra] w by auto
  have e: "platform a3 = pf" "wwt a3 = (wwt a)\<lparr>sync_check_timer := No_Timer\<rparr>"
    using grant_keeps_platform[OF g] j by (simp_all add: calm_def)
  have "quantum_timer (wwt a) = Idle" using n f(1) by (simp add: node_ok_def)
  then have "\<exists>a'. start_next_quantum a3 = Inr a'"
    using play_returns pl e by (auto simp: start_next_quantum_def timer_mod_def Let_def)
  then obtain a' where a': "start_next_quantum a3 = Inr a'" ..
  have "\<not> needs_to_checkpoint (eng a)" using j by (simp add: calm_def no_checkpoint_def)
  then have "pass_barrier a = Inr a'"
    using g a' by (simp add: pass_barrier_def sync_checkpoint_check_def)
  moreover have "round_of a3 = round_of a" using e by (simp add: round_of_def)
  then have "round_of a' = Suc (round_of a)"
    using start_next_round[OF a'] n by (simp add: node_ok_def)
  ultimately show ?thesis by blast
qed

end
