(* ===== verification/System_Live.thy ===== *)
theory System_Live
  imports System_Runs Barrier_Live
begin

text \<open>
  What the reachable system gets done: a poll ends, a quantum that is over sends its SYNC, and a
  process whose peer has sent its SYNC enters the next round.
\<close>

section \<open>The handlers of the barrier on reachable states\<close>

lemma process_calm:
  assumes "no_checkpoint n" and "slots n \<le> j" and "j \<le> 8191"
  shows "calm j (platform n) n"
  using assms by (simp add: calm_def)

text \<open>Both halves of \<open>quanta_sync\<close>.\<close>

lemma quantum_ends:
  assumes i: "pair_ok q K n m rn rm sn sm"
    and t: "quantum_timer (wwt n) = Armed t" "sint t \<le> sint (virt n)"
    and pb: "\<not> pause_bh (eng n)" "can_pause (platform n)"
    and c: "no_checkpoint n" "slots n \<le> j" "j < 8191"
  shows "\<exists>n1 n2 x. quanta_begin (n\<lparr>wwt := (wwt n)\<lparr>quantum_timer := Idle\<rparr>\<rparr>) = Inr n1 \<and>
    quanta_rest n1 = Inr n2 \<and> sync_check_timer (wwt n2) = Armed (realtime n2 + 1) \<and>
    finished_quantum (wwt n2) \<and> round_of n1 = round_of n \<and> round_of n2 = round_of n \<and> comm n1 = comm n \<and>
    last (tx_list (comm n2)) = x \<and> mtype x = MSG_TYPE_SYNC \<and>
    sync_round_of x = current_quantum_round (wwt n2) \<and> rx_list (comm n2) = [] \<and>
    calm (Suc j) (platform n) n2"
proof -
  let ?w = "(wwt n)\<lparr>quantum_timer := Idle, finished_quantum := True\<rparr>"
  have s: "should_sync (wwt n)" and nf: "\<not> finished_quantum (wwt n)"
    using i t(1) by (auto simp: pair_ok_def node_ok_def)
  obtain n1 where p: "pdes_pause (n\<lparr>wwt := ?w\<rparr>) = Inr n1" and e: "comm n1 = comm n" "platform n1 = platform n"
    "end_message_sent (eng n1) = end_message_sent (eng n)"
    "needs_to_checkpoint (eng n1) = needs_to_checkpoint (eng n)"
    using pause_returns[of "n\<lparr>wwt := ?w\<rparr>"] pb by auto
  have b: "quanta_begin (n\<lparr>wwt := (wwt n)\<lparr>quantum_timer := Idle\<rparr>\<rparr>) = Inr n1"
    using p s by (simp add: quanta_begin_def)
  note k = quanta_begin_pair[OF i nf t b]
  have "calm j (platform n) n1"
    using c e by (simp add: calm_def no_checkpoint_def slots_def)
  from quanta_rest_returns[OF conjunct1[OF k] this c(3)] k obtain n2 x where
    r: "quanta_rest n1 = Inr n2" "sync_check_timer (wwt n2) = Armed (realtime n2 + 1)"
      "last (tx_list (comm n2)) = x" "mtype x = MSG_TYPE_SYNC"
      "sync_round_of x = current_quantum_round (wwt n2)" "rx_list (comm n2) = []" "calm (Suc j) (platform n) n2"
    by blast
  have "finished_quantum (wwt n1)" "sn = round_of n1" using k by simp_all
  from quanta_rest_pair[OF conjunct1[OF k] this r(1)] k
  have "finished_quantum (wwt n2)" "round_of n2 = round_of n" by auto
  with b r e k show ?thesis by blast
qed

text \<open>
  C10. Polling terminates: in every reachable state in which an END can still be sent (or has been
  sent), \<open>pdes_engine_poll\<close> returns with the ring empty, and no more turns than one per
  queued message and a last one are needed: every larger bound gives the same result.
\<close>

theorem poll_terminates:
  assumes "sys_reach save q K s" and "save_keeps save" and "(p, n, m) \<in> processes s" and "room n"
  shows "\<exists>n'. poll n = Inr n' \<and> rx_list (comm n') = [] \<and>
    (\<forall>f. length (rx_list (comm n)) < f \<longrightarrow> poll_loop f wwt_recivied_callback n = Inr n')"
proof -
  obtain rn rm sn sm where i: "pair_ok q K n m rn rm sn sm"
    by (rule process_inv[OF assms(1-3)])
  obtain n' where n': "poll n = Inr n'" using poll_returns[OF i assms(4)] by blast
  have "poll_loop f wwt_recivied_callback n = Inr n'" if "length (rx_list (comm n)) < f" for f
    using wwt_poll.poll_loop_fuel[OF pollingI[OF i] that] wwt_poll.engine_poll[OF pollingI[OF i]] n'
    by (simp only: poll_def)
  with n' poll_pair(3)[OF i n'] show ?thesis by blast
qed

theorem poll_terminates_witness:
  "\<exists>s n'. sys_reach demo_save 1000 5 s \<and> rx_list (comm (node_a s)) = [demo_sync] \<and>
    poll_loop 2 wwt_recivied_callback (node_a s) = Inr n' \<and> rx_list (comm n') = []"
proof -
  obtain s m where s: "sys_reach demo_save 1000 5 s" "(Main_Loop, node_a s, m) \<in> processes s"
    and f: "tx_list (comm (node_a s)) = []" "rx_list (comm (node_a s)) = [demo_sync]"
    using demo_quantum_run by blast
  have "room (node_a s)" using f by (simp add: room_def)
  from poll_terminates[OF s(1) demo_save_keeps s(2) this] obtain n' where
    "rx_list (comm n') = []"
    "\<forall>f. length (rx_list (comm (node_a s))) < f \<longrightarrow> poll_loop f wwt_recivied_callback (node_a s) = Inr n'"
    by blast
  moreover from this have "poll_loop 2 wwt_recivied_callback (node_a s) = Inr n'"
    using f(2) by simp
  ultimately show ?thesis using s(1) f(2) by blast
qed

text \<open>
  C9. A quantum that is over is brought to its end: when the quantum timer fires (no pause pending,
  no checkpoint on its way, a slot for the SYNC and one for an END), \<open>quanta_sync\<close> returns, the
  SYNC of the round is the last message queued, and the check of the barrier is armed.
\<close>

theorem quantum_end_completes:
  assumes "sys_reach save q K s" and "save_keeps save" and "(p, n, m) \<in> processes s"
    and "quantum_timer (wwt n) = Armed t" and "sint t \<le> sint (virt n)"
    and "\<not> pause_bh (eng n)" and "can_pause (platform n)"
    and "no_checkpoint n" and "slots n \<le> 8190"
  shows "\<exists>n'. quanta_sync (n\<lparr>wwt := (wwt n)\<lparr>quantum_timer := Idle\<rparr>\<rparr>) = Inr n' \<and>
    finished_quantum (wwt n') \<and> round_of n' = round_of n \<and> sync_check_timer (wwt n') \<noteq> No_Timer \<and>
    mtype (last (tx_list (comm n'))) = MSG_TYPE_SYNC \<and>
    sync_round_of (last (tx_list (comm n'))) = current_quantum_round (wwt n')"
proof -
  obtain rn rm sn sm where "pair_ok q K n m rn rm sn sm"
    by (rule process_inv[OF assms(1-3)])
  from quantum_ends[OF this assms(4-9)] show ?thesis
    by (auto simp: quanta_sync_halves)
qed

theorem quantum_end_completes_witness:
  "\<exists>n'. quanta_sync ((demo_started True)\<lparr>wwt := (wwt (demo_started True))\<lparr>quantum_timer := Idle\<rparr>\<rparr>) = Inr n' \<and>
    mtype (last (tx_list (comm n'))) = MSG_TYPE_SYNC"
  using quantum_end_completes[OF demo_reach demo_save_keeps demo_process, of 0]
  by (auto simp: can_pause_def demo_platform_def no_checkpoint_def slots_def)

text \<open>
  C5. The barrier is passed: when the check timer of a process fires and its peer has sent the SYNC
  of the round, \<open>wwt_sync_check\<close> returns without waiting, whatever the peer does meanwhile, and
  the process is in the next round with its next deadline armed (no checkpoint on its way, a
  slot for PERMISSION and one for END).
\<close>

theorem sync_check_passes:
  assumes "sys_reach save q K s" and "save_keeps save" and "(p, n, m) \<in> processes s"
    and "sync_check_timer (wwt n) = Armed t"
    and "round_of n < round_of m \<or> round_of n = round_of m \<and> sync_check_timer (wwt m) \<noteq> No_Timer"
    and "no_checkpoint n" and "slots n \<le> 8190" and "can_play (platform n)" and "Suc (round_of n) \<le> K"
  shows "\<exists>n'. wwt_sync_check peer (n\<lparr>wwt := (wwt n)\<lparr>sync_check_timer := Idle\<rparr>\<rparr>) = Inr n' \<and>
    round_of n' = Suc (round_of n) \<and> \<not> finished_quantum (wwt n') \<and> armed_for_round q n'"
proof -
  obtain rn rm sn sm pm where i: "pair_ok q K n m rn rm sn sm" and l: "place_ok p n sn"
    and lm: "place_ok pm m sm"
    by (rule process_inv[OF assms(1-3)])
  let ?n = "n\<lparr>wwt := (wwt n)\<lparr>sync_check_timer := Idle\<rparr>\<rparr>"
  note c = check_fired[OF i l assms(4) refl]
  have j: "calm 8190 (platform n) ?n"
    using assms(6,7) by (simp add: calm_def no_checkpoint_def slots_def)
  have sm: "round_of ?n < sm" using sync_sent[OF i lm assms(5)] by simp
  obtain n1 r where w: "is_waiting_for_quanta ?n = Inr (False, n1)" and pl: "poll ?n = Inr n1"
    and e: "round_of n1 = round_of n" and i1: "pair_ok q K n1 m r rm sn sm" and r: "round_of n < r"
    using barrier_look[OF c(1) calm_room[OF j] sm] by auto
  have j1: "calm 8190 (platform n) n1" using poll_calm[OF c(1) j] pl by auto
  have f1: "finished_quantum (wwt n1)" "sn = Suc (round_of n1)"
    using same_phaseD(2)[OF poll_pair(4)[OF c(1) pl]] c(3,4) e by simp_all
  obtain n' where n': "pass_barrier n1 = Inr n'" "round_of n' = Suc (round_of n1)"
    using pass_barrier_returns[OF i1 f1 _ j1 assms(8)] r e by auto
  have k: "round_of n' \<le> K" using n'(2) e assms(9) by simp
  have "round_of n1 < r" using r e by simp
  from pass_barrier_pair[OF i1 f1 this n'(1) k] n'(2) same_phaseD(1)[of n1 n']
  have "pair_ok q K n' m r rm sn sm" "\<not> finished_quantum (wwt n')" by auto
  then have "armed_for_round q n'" by (simp add: pair_ok_def node_ok_def)
  moreover have "wwt_sync_check peer ?n = Inr n'" using w n'(1) by (simp add: wwt_sync_check_def)
  ultimately show ?thesis using n'(2) e \<open>\<not> finished_quantum (wwt n')\<close> by auto
qed

section \<open>Both processes wait\<close>

text \<open>The master follows: it ends its first quantum too, and both wait at the barrier.\<close>

lemma demo_both_wait:
  "\<exists>s t u. sys_reach demo_save 1000 5 s \<and> place_a s = Main_Loop \<and>
    sync_check_timer (wwt (node_a s)) = Armed t \<and> sync_check_timer (wwt (node_b s)) = Armed u \<and>
    round_of (node_a s) = 0 \<and> round_of (node_b s) = 0 \<and>
    calm 2 demo_platform (node_a s) \<and> length (tx_list (comm (node_b s))) < 8191"
proof -
  obtain s c where s: "sys_reach demo_save 1000 5 s" "(Main_Loop, node_a s, node_b s) \<in> processes s"
    and f: "round_of (node_a s) = 0" "round_of (node_b s) = 0" "sync_check_timer (wwt (node_b s)) = Armed 1"
      "tx_list (comm (node_a s)) = []" "rx_list (comm (node_a s)) = [demo_sync]" "place_a s = Main_Loop"
    and a: "node_a s = (demo_started True)\<lparr>comm := c\<rparr>"
    using demo_quantum_run by blast
  obtain rn rm sn sm where i: "pair_ok 1000 5 (node_a s) (node_b s) rn rm sn sm"
    by (rule process_inv[OF s(1) demo_save_keeps s(2)])
  have t: "quantum_timer (wwt (node_a s)) = Armed 0" "sint (0 :: i64) \<le> sint (virt (node_a s))"
    by (simp_all add: a)
  have "\<not> pause_bh (eng (node_a s))" "can_pause (platform (node_a s))" "no_checkpoint (node_a s)"
    "slots (node_a s) \<le> 1"
    using f by (simp_all add: a can_pause_def demo_platform_def no_checkpoint_def slots_def demo_sync_def
        msg_type_defs)
  from quantum_ends[OF i t this] obtain n1 n2 where
    b: "quanta_begin ((node_a s)\<lparr>wwt := (wwt (node_a s))\<lparr>quantum_timer := Idle\<rparr>\<rparr>) = Inr n1"
    and e: "quanta_rest n1 = Inr n2" "sync_check_timer (wwt n2) = Armed (realtime n2 + 1)"
      "round_of n1 = 0" "round_of n2 = 0" "rx_list (comm n2) = []" "calm 2 demo_platform n2"
    using f by (auto simp: a numeral_2_eq_2)
  let ?s1 = "s\<lparr>place_a := Quantum_Ending, node_a := n1,
    node_b := (node_b s)\<lparr>comm := peer_view (comm n1) (comm (node_b s))\<rparr>\<rparr>"
  have s1: "sys_reach demo_save 1000 5 ?s1"
    using run_a[OF s(1), of Quantum_Ending n1] proc_step.quantum[OF t b] f e by simp
  have s2: "sys_reach demo_save 1000 5 (?s1\<lparr>place_a := Main_Loop, node_a := n2,
      node_b := (node_b ?s1)\<lparr>comm := peer_view (comm n2) (comm (node_b ?s1))\<rparr>\<rparr>)" (is "sys_reach _ _ _ ?s2")
    using run_a[OF s1, of Main_Loop n2] proc_step.quantum_rest[OF e(1)] f e by simp
  have "linked (comm (node_a ?s2)) (comm (node_b ?s2))"
    using reach_inv[OF s2 demo_save_keeps] by (simp add: sys_inv_def)
  then have "tx_list (comm (node_b ?s2)) = []" using linked_lists(1) e(5) by simp
  then show ?thesis
    using s2 e f(2,3) by (intro exI[of _ ?s2] exI[of _ "realtime n2 + 1"] exI[of _ 1]) simp
qed

theorem barrier_no_deadlock_witness:
  "\<exists>s p n m n'. sys_reach demo_save 1000 5 s \<and> sync_check_timer (wwt (node_a s)) \<noteq> No_Timer \<and>
    sync_check_timer (wwt (node_b s)) \<noteq> No_Timer \<and> (p, n, m) \<in> processes s \<and>
    is_waiting_for_quanta n = Inr (False, n')"
proof -
  obtain s t u where s: "sys_reach demo_save 1000 5 s" "sync_check_timer (wwt (node_a s)) = Armed t"
    "sync_check_timer (wwt (node_b s)) = Armed u" "calm 2 demo_platform (node_a s)"
    "length (tx_list (comm (node_b s))) < 8191"
    using demo_both_wait by blast
  have "\<exists>p n m n'. (p, n, m) \<in> processes s \<and> is_waiting_for_quanta n = Inr (False, n')"
    by (rule barrier_no_deadlock[OF s(1) demo_save_keeps])
      (use s calm_length[OF s(4)] in simp_all)
  with s show ?thesis by (metis timer.distinct(3))
qed

theorem sync_check_passes_witness:
  "\<exists>s t n'. sys_reach demo_save 1000 5 s \<and> sync_check_timer (wwt (node_a s)) = Armed t \<and>
    wwt_sync_check [] ((node_a s)\<lparr>wwt := (wwt (node_a s))\<lparr>sync_check_timer := Idle\<rparr>\<rparr>) = Inr n' \<and>
    round_of n' = 1"
proof -
  obtain s t u where s: "sys_reach demo_save 1000 5 s" "sync_check_timer (wwt (node_a s)) = Armed t"
    "sync_check_timer (wwt (node_b s)) = Armed u" "round_of (node_a s) = 0" "round_of (node_b s) = 0"
    and c: "calm 2 demo_platform (node_a s)"
    using demo_both_wait by blast
  have "(place_a s, node_a s, node_b s) \<in> processes s" by (simp add: processes_def)
  from sync_check_passes[OF s(1) demo_save_keeps this s(2), of "[]"] s c show ?thesis
    by (auto simp: calm_def can_play_def demo_platform_def)
qed

end
