(* ===== verification/System_Steps.thy ===== *)
theory System_Steps
  imports System_Runs
begin

text \<open>
  The system model lets the peer act between any two messages of a poll. Here that cut is
  justified: polling, as the code has it, is the sequence of its turns until the ring is empty.
\<close>

lemma recv_one_step:
  assumes "recv_one wwt_recivied_callback n n'" and "p \<noteq> Exited"
  shows "proc_step save (p, n) (p, n')"
  using assms proc_step.receive by (fastforce simp: recv_one_def)

lemma recv_steps:
  assumes "(recv_one wwt_recivied_callback)\<^sup>*\<^sup>* n n'" and "p \<noteq> Exited"
  shows "(proc_step save)\<^sup>*\<^sup>* (p, n) (p, n')"
  using assms(1)
proof induction
  case (step n1 n2)
  then show ?case using recv_one_step[OF step.hyps(2) assms(2)] by (meson rtranclp.rtrancl_into_rtrancl)
qed simp

text \<open>
  C23. In a reachable state \<open>pdes_engine_poll\<close> is the repetition of its turns until the ring is empty,
  and each turn is a step of the process: what is proved of runs cut between any two messages
  holds of the loop.
\<close>

theorem poll_is_receives:
  assumes "sys_reach save q K s" and "save_keeps save" and "(p, n, m) \<in> processes s"
  shows "(poll n = Inr n' \<longleftrightarrow> (recv_one wwt_recivied_callback)\<^sup>*\<^sup>* n n' \<and> rx_list (comm n') = []) \<and>
    (poll n = Inr n' \<and> p \<noteq> Exited \<longrightarrow> (proc_step save)\<^sup>*\<^sup>* (p, n) (p, n'))"
proof -
  obtain rn rm sn sm where "pair_ok q K n m rn rm sn sm"
    by (rule process_inv[OF assms])
  from wwt_poll.engine_poll_steps[OF pollingI[OF this]] show ?thesis
    unfolding poll_def using recv_steps by blast
qed

text \<open>A ring with one packet: the poll takes it and finds nothing more.\<close>

theorem poll_is_receives_witness:
  "\<exists>n n'. rx_list (comm n) = [demo_packet] \<and> poll n = Inr n' \<and> contexts n' = [demo_waiting] \<and>
    (recv_one wwt_recivied_callback)\<^sup>*\<^sup>* n n' \<and> rx_list (comm n') = [] \<and>
    (proc_step demo_save)\<^sup>*\<^sup>* (Main_Loop, n) (Main_Loop, n')"
proof -
  obtain c d where s: "sys_reach demo_save 1000 5 (demo_system\<lparr>node_a := (demo_started True)\<lparr>comm := c\<rparr>,
      node_b := (demo_started False)\<lparr>comm := d\<rparr>\<rparr>)" (is "sys_reach _ _ _ ?s")
    and d: "comm_wf d" "rx_list d = [demo_packet]"
    using demo_packet_queued by blast
  let ?n = "(demo_started False)\<lparr>comm := d\<rparr>"
  have p: "(Main_Loop, ?n, node_a ?s) \<in> processes ?s" by (simp add: processes_def demo_system_def)
  obtain e where e: "poll ?n = Inr ((demo_started False)\<lparr>comm := e, contexts := [demo_waiting]\<rparr>)"
    using poll_one[of ?n demo_packet "\<lambda>e. (demo_started False)\<lparr>comm := e, contexts := [demo_waiting]\<rparr>"]
      d demo_packet_taken by (auto simp: demo_packet_def MAX_MSG_SIZE_def)
  let ?n' = "(demo_started False)\<lparr>comm := e, contexts := [demo_waiting]\<rparr>"
  have "(recv_one wwt_recivied_callback)\<^sup>*\<^sup>* ?n ?n'" "rx_list (comm ?n') = []"
    "(proc_step demo_save)\<^sup>*\<^sup>* (Main_Loop, ?n) (Main_Loop, ?n')"
    using poll_is_receives[OF s demo_save_keeps p, of ?n'] e by blast+
  with e d show ?thesis by (intro exI[of _ ?n] exI[of _ ?n']) simp
qed

end
