(* ===== verification/Leaving.thy ===== *)
theory Leaving
  imports Quiet Polling
begin

text \<open>
  How a run can end badly: the master leaves after the warm-up snapshot without a message, and a
  node whose peer sends nothing any more never leaves the waiting loop of \<open>wwt_sync_check\<close>.
\<close>

lemma silent_handshake:
  assumes "\<not> permitted_to_exit (eng n)"
  shows "\<exists>n'. notify_neighbours_of_end n = Inr n' \<and> comm n' = comm n \<and>
    needs_to_checkpoint (eng n') = needs_to_checkpoint (eng n)"
  using assms by (simp add: notify_neighbours_of_end_def send_end_if_handshake_complete_def)

text \<open>
  C26. The master exits right after saving the warm-up snapshot. As long as it has not granted the
  permission to exit, it queues nothing behind the messages of the snapshot: in particular no
  END, the only message that would let its follower leave.
\<close>

theorem warmup_exit_is_silent:
  assumes "needs_to_checkpoint (eng n)"
    and "save (checkpoint_name (eng n)) (checkpoint_format (eng n))
      (n\<lparr>eng := (eng n)\<lparr>checkpoint_in_progress := False\<rparr>\<rparr>) = Inr n2"
    and "checkpoint_name (eng n2) = init_warmed" and "master (eng n2)"
    and "\<not> permitted_to_exit (eng n2)"
  shows "\<exists>n'. create_checkpoint_bh save exit_after n = Inl (Exit_Process 0 n') \<and> comm n' = comm n2"
proof -
  let ?n3 = "n2\<lparr>eng := (eng n2)\<lparr>needs_to_checkpoint := False, notified_neighbors := False,
      checkpoint_quantum_round := 0, boundry_checkpoint_bh := None,
      boundry_scheduled := False, skip_boundry_check_after_checkpoint := True\<rparr>\<rparr>"
  obtain n3 where n3: "notify_neighbours_of_end ?n3 = Inr n3" "comm n3 = comm n2"
    "\<not> needs_to_checkpoint (eng n3)"
    using silent_handshake[of ?n3] assms(5) by auto
  then obtain n' where "pdes_engine_destroy ?n3 = Inl (Exit_Process 0 n')" "comm n' = comm n2"
    by (auto simp: pdes_engine_destroy_def destroy_strategy_def out_call_def Let_def)
  then show ?thesis using assms by (simp add: create_checkpoint_bh_def Let_def)
qed

definition demo_snapshot :: "string \<Rightarrow> u32 \<Rightarrow> node \<Rightarrow> (node, node) res" where
  "demo_snapshot name fmt n = Inr (out_call (Save_Snapshot name fmt) n)"

theorem warmup_exit_is_silent_witness:
  "\<exists>n'. create_checkpoint_bh demo_snapshot False (set_checkpoint_values_for_master (demo_node True 5)) =
    Inl (Exit_Process 0 n') \<and> comm n' = demo_comm"
proof -
  let ?n = "set_checkpoint_values_for_master (demo_node True 5)"
  let ?n1 = "?n\<lparr>eng := (eng ?n)\<lparr>checkpoint_in_progress := False\<rparr>\<rparr>"
  have "demo_snapshot (checkpoint_name (eng ?n)) (checkpoint_format (eng ?n)) ?n1 =
      Inr (out_call (Save_Snapshot (checkpoint_name (eng ?n)) (checkpoint_format (eng ?n))) ?n1)"
    by (simp add: demo_snapshot_def)
  from warmup_exit_is_silent[where n = ?n and save = demo_snapshot, OF _ this, where exit_after = False] show ?thesis
    by (simp add: set_checkpoint_values_for_master_def demo_node_def zero_engine_def out_call_def)
qed

text \<open>
  C25. A node whose peer is gone waits for ever: with nothing in its receiving ring, no END seen and
  the SYNC of its round missing, \<open>wwt_sync_check\<close> is still in its waiting loop after any number
  of turns in which nothing arrives, in exactly the state it started from.
\<close>

theorem left_waiting_for_ever:
  assumes "comm_wf (comm n)" and "rx_list (comm n) = []" and "\<not> pair_has_finished (eng n)"
    and "should_sync (wwt n)"
    and "sint (sync_count_get (sync_counts (wwt n)) (current_quantum_round (wwt n))) < 1"
  shows "wwt_sync_check (replicate k id) n = Inl (Still_Waiting n)"
proof -
  have p: "poll n = Inr n" unfolding poll_def by (rule engine_poll_nothing[OF assms(1,2)])
  then have w: "is_waiting_for_quanta n = Inr (True, n)"
    using assms(4,5) by (simp add: is_waiting_for_quanta_def)
  have "sync_wait_loop (replicate k id) n = Inl (Still_Waiting n)"
    using p w assms(3) by (induction k) simp_all
  with w show ?thesis by (simp add: wwt_sync_check_def wait_and_pass_def)
qed

theorem left_waiting_for_ever_witness:
  "wwt_sync_check (replicate 1000 id) ((demo_node False 5)\<lparr>wwt := zero_wwt\<lparr>should_sync := True\<rparr>\<rparr>) =
    Inl (Still_Waiting ((demo_node False 5)\<lparr>wwt := zero_wwt\<lparr>should_sync := True\<rparr>\<rparr>))"
  by (rule left_waiting_for_ever)
    (simp_all add: demo_node_def zero_engine_def zero_wwt_def sync_count_get_def)

end
