(* ===== verification/Late_Checkpoint.thy ===== *)
theory Late_Checkpoint
  imports System_Live
begin

text \<open>
  When the checkpoint protocol agrees on a round, and when it does not. The master tells its
  follower the round before its SYNC of that round, so that the follower hears of it before it
  can pass the barrier; unless the master itself learns of the checkpoint only while it waits at
  the barrier, its SYNC already sent. That second case is reachable: a concrete run is built.
\<close>

section \<open>The request in time\<close>

lemma notify_if_needed_sends:
  assumes "notify_if_needed n = Inr n'" and "needs_to_checkpoint (eng n)" and "\<not> notified_neighbors (eng n)"
    and "comm_wf (comm n)" and "length (checkpoint_name (eng n)) \<le> 989"
    and "CHR 0x00 \<notin> set (checkpoint_name (eng n))"
  shows "\<exists>d c. n' = n\<lparr>eng := (eng n)\<lparr>notified_neighbors := True\<rparr>, comm := c\<rparr> \<and> comm_wf c \<and>
    tx_list c = tx_list (comm n) @ [d] \<and> rx_list c = rx_list (comm n) \<and> mtype d = DRAIN_START \<and>
    parse_drain_start d = (Inr (QPDES @ checkpoint_name (eng n), checkpoint_format (eng n),
      current_quantum_round (wwt n)) :: (node, string \<times> u32 \<times> u64) res)"
proof -
  obtain i where i: "notify_neighbors_for_drain (checkpoint_name (eng n)) (checkpoint_format (eng n)) n = Inr (i, n')"
    using assms(1-3) by (auto simp: notify_if_needed_def elim!: bindE_InrE)
  obtain d c where n': "n' = n\<lparr>eng := (eng n)\<lparr>notified_neighbors := True\<rparr>, comm := c\<rparr>" "comm_wf c"
    "tx_list c = tx_list (comm n) @ [d]" "rx_list c = rx_list (comm n)" "mtype d = DRAIN_START"
    and l: "unat (len d) = length (checkpoint_name (eng n)) + 17"
    and b: "data d = drain_payload (checkpoint_name (eng n)) (checkpoint_format (eng n))
      (current_quantum_round (wwt n)) @ replicate (MAX_MSG_SIZE - (length (checkpoint_name (eng n)) + 17)) 0"
    using notify_returns[OF i assms(4,3,5)] by blast
  from parse_drain_payload[OF assms(5,6) b l, where ?'a = node] n' show ?thesis by blast
qed

lemma notify_if_needed_succeeds:
  assumes "comm_wf (comm n)" and "length (tx_list (comm n)) < 8191"
    and "length (checkpoint_name (eng n)) \<le> 989" and "first_sync_virtual_time (eng n) \<noteq> -1"
  shows "\<exists>n'. notify_if_needed n = Inr n'"
proof (cases "needs_to_checkpoint (eng n) \<and> \<not> notified_neighbors (eng n)")
  case True
  let ?n = "n\<lparr>eng := (eng n)\<lparr>notified_neighbors := True\<rparr>\<rparr>"
  let ?b = "drain_payload (checkpoint_name (eng n)) (checkpoint_format (eng n)) (current_quantum_round (wwt n))"
  have "unat (of_nat (length ?b) :: u64) = length ?b"
    using assms(3) by (simp only: unat_of_nat length_drain_payload) simp
  then obtain m where m: "create_message ?b (of_nat (length ?b)) DRAIN_START
      (virt n - first_sync_virtual_time (eng n)) = (Inr m :: (node, message) res)"
    using assms(3) by (simp add: create_message_def MAX_MSG_SIZE_def)
  obtain c where "comm_send m ?n = Inr (0, ?n\<lparr>comm := c\<rparr>)"
    using comm_send_returns_iff[of ?n m] assms(1,2) by auto
  then show ?thesis
    using m True assms(3,4)
    by (simp add: notify_if_needed_def notify_neighbors_for_drain_def drain_payload_def SNAPSHOT_BUFFER_def
        SIZEOF_FORMAT_def SIZEOF_ROUND_def Let_def get_universal_virtual_time_def)
next
  case False
  then show ?thesis by (auto simp: notify_if_needed_def)
qed

text \<open>
  C18. A checkpoint requested before the end of a quantum reaches the follower in time: the end of
  the quantum queues the request, carrying the round that ends, immediately in front of the
  SYNC of that round.
\<close>

theorem drain_before_sync:
  assumes "poll n = Inr n1" and "quanta_rest n = Inr n'" and "comm_wf (comm n1)"
    and "needs_to_checkpoint (eng n1)" and "\<not> notified_neighbors (eng n1)"
    and "length (checkpoint_name (eng n1)) \<le> 989" and "CHR 0x00 \<notin> set (checkpoint_name (eng n1))"
    and "should_sync (wwt n1)" and "first_sync_time (eng n1) \<noteq> -1"
  shows "\<exists>d y. tx_list (comm n') = tx_list (comm n1) @ [d, y] \<and> mtype d = DRAIN_START \<and>
    parse_drain_start d = (Inr (QPDES @ checkpoint_name (eng n1), checkpoint_format (eng n1),
      current_quantum_round (wwt n1)) :: (node, string \<times> u32 \<times> u64) res) \<and>
    mtype y = MSG_TYPE_SYNC \<and> sync_round_of y = current_quantum_round (wwt n1)"
proof -
  obtain n2 n3 where n2: "notify_if_needed n1 = Inr n2"
    and n3: "(if should_sync (wwt n2) then send_sync n2 else Inr n2) = Inr n3"
    and n': "comm n' = comm n3"
    using assms(1,2) by (auto simp: quanta_rest_def elim!: bindE_InrE)
  obtain d c where e: "n2 = n1\<lparr>eng := (eng n1)\<lparr>notified_neighbors := True\<rparr>, comm := c\<rparr>" "comm_wf c"
    and d: "tx_list c = tx_list (comm n1) @ [d]" "mtype d = DRAIN_START"
      "parse_drain_start d = (Inr (QPDES @ checkpoint_name (eng n1), checkpoint_format (eng n1),
        current_quantum_round (wwt n1)) :: (node, string \<times> u32 \<times> u64) res)"
    using notify_if_needed_sends[OF n2 assms(4,5,3,6,7)] by blast
  have "send_sync n2 = Inr n3" using n3 assms(8) e(1) by simp
  then obtain t y i where
    y: "create_message (le_bytes SIZEOF_ROUND (current_quantum_round (wwt n1))) 8 MSG_TYPE_SYNC t =
      (Inr y :: (node, message) res)" and s: "pdes_engine_send y n2 = Inr (i, n3)"
    using e(1) by (auto simp: send_sync_def Let_def elim!: bindE_InrE)
  have "tx_list (comm n3) = tx_list c @ [y]"
    using engine_send_returns[OF s] e assms(9) by auto
  moreover have "mtype y = MSG_TYPE_SYNC" "sync_round_of y = current_quantum_round (wwt n1)"
    using y by (simp_all add: create_message_Inr_iff sync_round_of_def SIZEOF_ROUND_def)
  ultimately show ?thesis using d n' by auto
qed

section \<open>The request that comes too late\<close>

text \<open>The counts of a node that has received the peer's SYNC of round 0.\<close>

definition counted :: "u32 \<Rightarrow> i32 option" where
  "counted = sync_count_increment (\<lambda>_. None) 0"

lemma counted_get [simp]: "sync_count_get counted 0 = 1" "sync_count_get (\<lambda>_. None) 0 = 0"
  by (simp_all add: counted_def sync_count_get_def sync_count_increment_def)

lemma demo_sync_received:
  assumes "first_sync_virtual_time e = 5"
  shows "process_message wwt_recivied_callback demo_sync (demo_at m (\<lambda>_. None) k e d rt) =
    Inr (demo_at m counted k e d rt)"
proof -
  have "sync_round_of demo_sync = 0" by (simp add: sync_round_of_def demo_sync_def SIZEOF_ROUND_def)
  then show ?thesis
    using assms
    by (simp add: process_message_def wwt_recivied_callback_def get_universal_virtual_time_def
        receive_sync_def valid_round_def process_control_def counted_def demo_sync_def msg_type_defs)
qed

lemma demo_sync_polled:
  assumes "comm_wf c" and "rx_list c = [demo_sync]" and "first_sync_virtual_time e = 5"
  shows "\<exists>d. poll (demo_at m (\<lambda>_. None) k e c rt) = Inr (demo_at m counted k e d rt) \<and> comm_wf d \<and>
    rx_list d = [] \<and> tx_list d = tx_list c"
  using poll_one[of "demo_at m (\<lambda>_. None) k e c rt" demo_sync "\<lambda>d. demo_at m counted k e d rt"]
    demo_sync_received[OF assms(3)] assms(1,2)
  by (simp add: demo_sync_def MAX_MSG_SIZE_def)

text \<open>The system at the barrier of round 0, both in the main loop.\<close>

definition at_barrier ::
  "(u32 \<Rightarrow> i32 option) \<Rightarrow> engine \<Rightarrow> comm option \<Rightarrow> i64 \<Rightarrow> (u32 \<Rightarrow> i32 option) \<Rightarrow> engine \<Rightarrow> comm option \<Rightarrow> i64 \<Rightarrow> system" where
  "at_barrier ta ea ca ra tb eb cb rb = \<lparr>place_a = Main_Loop, node_a = demo_at True ta (Armed 1) ea ca ra,
     place_b = Main_Loop, node_b = demo_at False tb (Armed 1) eb cb rb\<rparr>"

lemma barrier_run_a:
  assumes "sys_reach demo_save 1000 5 (at_barrier ta ea ca ra tb eb cb rb)"
    and "proc_step demo_save (Main_Loop, demo_at True ta (Armed 1) ea ca ra)
      (Main_Loop, demo_at True ta' (Armed 1) ea' ca' ra')"
  shows "sys_reach demo_save 1000 5 (at_barrier ta' ea' ca' ra' tb eb (peer_view ca' cb) rb)"
  using run_a[OF assms(1), of Main_Loop "demo_at True ta' (Armed 1) ea' ca' ra'"] assms(2)
  by (simp add: at_barrier_def)

lemma barrier_run_b:
  assumes "sys_reach demo_save 1000 5 (at_barrier ta ea ca ra tb eb cb rb)"
    and "proc_step demo_save (Main_Loop, demo_at False tb (Armed 1) eb cb rb)
      (Main_Loop, demo_at False tb' (Armed 1) eb' cb' rb')"
  shows "sys_reach demo_save 1000 5 (at_barrier ta ea (peer_view cb' ca) ra tb' eb' cb' rb')"
  using run_b[OF assms(1), of Main_Loop "demo_at False tb' (Armed 1) eb' cb' rb'"] assms(2)
  by (simp add: at_barrier_def)

lemma demo_at_barrier:
  "\<exists>ca cb. sys_reach demo_save 1000 5 (at_barrier counted (ended_eng True) ca 0 (\<lambda>_. None) (ended_eng False) cb 0) \<and>
    comm_wf ca \<and> tx_list ca = [demo_sync] \<and> rx_list ca = [] \<and>
    comm_wf cb \<and> tx_list cb = [] \<and> rx_list cb = [demo_sync]"
proof -
  obtain s ca0 cb0 where s: "sys_reach demo_save 1000 5 s" "place_a s = Main_Loop" "place_b s = Main_Loop"
    and a: "node_a s = (demo_started True)\<lparr>comm := ca0\<rparr>" "comm_wf ca0"
    and b: "node_b s = demo_at False (\<lambda>_. None) (Armed 1) (ended_eng False) cb0 0"
    and l: "tx_list ca0 = []" "rx_list ca0 = [demo_sync]"
    using demo_quantum_run by auto
  let ?a1 = "demo_at True (\<lambda>_. None) No_Timer (ended_eng True) ca0 0"
  have t: "quantum_timer (wwt (node_a s)) = Armed 0" "sint (0 :: i64) \<le> sint (virt (node_a s))"
    by (simp_all add: a)
  have "quanta_begin ((node_a s)\<lparr>wwt := (wwt (node_a s))\<lparr>quantum_timer := Idle\<rparr>\<rparr>) = Inr ?a1"
    using demo_begins_at[of True ca0] by (simp add: a)
  then have "proc_step demo_save (place_a s, node_a s) (Quantum_Ending, ?a1)"
    using proc_step.quantum[OF t] s(2) by simp
  from run_a[OF s(1) this] b have s1: "sys_reach demo_save 1000 5 (s\<lparr>place_a := Quantum_Ending, node_a := ?a1,
      node_b := (node_b s)\<lparr>comm := peer_view ca0 (comm (node_b s))\<rparr>\<rparr>)" (is "sys_reach _ _ _ ?s1") by simp
  obtain d where d: "poll ?a1 = Inr (demo_at True counted No_Timer (ended_eng True) d 0)" "comm_wf d"
    "rx_list d = []" "tx_list d = []"
    using demo_sync_polled[OF a(2) l(2), of "ended_eng True" True No_Timer 0] l by auto
  from demo_rest[OF d(1,2)] d obtain f where f: "quanta_rest ?a1 =
      Inr (demo_at True counted (Armed 1) (ended_eng True) f 0)" "comm_wf f" "tx_list f = [demo_sync]" "rx_list f = []"
    by auto
  let ?a2 = "demo_at True counted (Armed 1) (ended_eng True) f 0"
  from run_a[OF s1, of Main_Loop ?a2] proc_step.quantum_rest[OF f(1)] b
  have s2: "sys_reach demo_save 1000 5 (?s1\<lparr>place_a := Main_Loop, node_a := ?a2,
      node_b := (node_b ?s1)\<lparr>comm := peer_view f (comm (node_b ?s1))\<rparr>\<rparr>)" (is "sys_reach _ _ _ ?s2") by simp
  let ?cb = "peer_view f (peer_view ca0 cb0)"
  have "linked (comm (node_a ?s2)) (comm (node_b ?s2))"
    using reach_inv[OF s2 demo_save_keeps] by (simp add: sys_inv_def)
  then have lk: "linked f ?cb" using b by simp
  have "?s2 = at_barrier counted (ended_eng True) f 0 (\<lambda>_. None) (ended_eng False) ?cb 0"
    using b s by (simp add: at_barrier_def)
  then show ?thesis using s2 f linked_lists[OF lk] by auto
qed

text \<open>Real time passes, so that the check timers are due.\<close>

lemma demo_clock: "proc_step demo_save (Main_Loop, demo_at m t k e c rt) (Main_Loop, demo_at m t k e c 1)"
proof -
  have "(demo_at m t k e c rt)\<lparr>host := 0, realtime := 1, current_cpu := Some 0\<rparr> = demo_at m t k e c 1"
    by (simp add: demo_at_def demo_started_eq demo_node_def)
  then show ?thesis
    using proc_step.clocks[where n = "demo_at m t k e c rt" and p = Main_Loop and h = 0 and t = 1 and c = "Some 0"
        and save = demo_save] by simp
qed

text \<open>The two ask for the warm-up snapshot: the master notes it, the follower tells the master.\<close>

definition ready_master :: engine where
  "ready_master = (ended_eng True)\<lparr>master_init := True\<rparr>"

lemma ready_master_fields [simp]:
  "first_sync_virtual_time ready_master = 5" "master ready_master" "master_init ready_master"
  "init_flag ready_master = 0" "\<not> notified_neighbors ready_master"
  "boundry_checkpoint_bh ready_master = None"
  by (simp_all add: ready_master_def ended_eng_def) (simp_all add: demo_started_eq zero_engine_def)

lemma master_asks: "proc_step demo_save (Main_Loop, demo_at True t k (ended_eng True) c rt)
    (Main_Loop, demo_at True t k ready_master c rt)"
proof -
  have "init_flag (ended_eng True) = 0" by (simp add: ended_eng_def demo_started_eq zero_engine_def)
  then have "finish_initiate_checkpoint (demo_at True t k (ended_eng True) c rt) =
      Inr (demo_at True t k ready_master c rt)"
    by (simp add: finish_initiate_checkpoint_def ready_master_def Let_def)
  then show ?thesis by (intro proc_step.initiate) simp_all
qed

lemma follower_announces:
  assumes "comm_wf c" and "length (tx_list c) < 8191"
  shows "\<exists>d x. proc_step demo_save (Main_Loop, demo_at False t k (ended_eng False) c rt)
      (Main_Loop, demo_at False t k (ended_eng False) d rt) \<and> comm_wf d \<and>
    tx_list d = tx_list c @ [x] \<and> rx_list d = rx_list c \<and> mtype x = CHECKPOINT_INIT_STEP \<and> len x = 0"
proof -
  let ?n = "demo_at False t k (ended_eng False) c rt"
  obtain d x where d: "send_control CHECKPOINT_INIT_STEP ?n = Inr (demo_at False t k (ended_eng False) d rt)"
    "comm_wf d" "tx_list d = tx_list c @ [x]" "rx_list d = rx_list c" "mtype x = CHECKPOINT_INIT_STEP" "len x = 0"
    using send_control_succeeds[of ?n CHECKPOINT_INIT_STEP] assms by auto
  moreover from d have "finish_initiate_checkpoint ?n = Inr (demo_at False t k (ended_eng False) d rt)"
    by (simp add: finish_initiate_checkpoint_def send_initiate_checkpoint_message_def)
  then have "proc_step demo_save (Main_Loop, ?n) (Main_Loop, demo_at False t k (ended_eng False) d rt)"
    by (intro proc_step.initiate) simp_all
  ultimately show ?thesis by blast
qed

text \<open>The follower passes the barrier of round 0.\<close>

lemma follower_passes:
  assumes "comm_wf c" and "rx_list c = [demo_sync]"
  shows "\<exists>n'. proc_step demo_save (Main_Loop, demo_at False (\<lambda>_. None) (Armed 1) (ended_eng False) c 1)
      (Main_Loop, n') \<and> comm_wf (comm n') \<and> tx_list (comm n') = tx_list c \<and> rx_list (comm n') = [] \<and>
    round_of n' = 1"
proof -
  let ?n = "demo_at False (\<lambda>_. None) Idle (ended_eng False) c 1"
  obtain d where d: "poll ?n = Inr (demo_at False counted Idle (ended_eng False) d 1)" "comm_wf d"
    "rx_list d = []" "tx_list d = tx_list c"
    using demo_sync_polled[OF assms, of "ended_eng False" False Idle 1] by auto
  let ?n1 = "demo_at False counted Idle (ended_eng False) d 1"
  have w: "is_waiting_for_quanta ?n = Inr (False, ?n1)"
    using d(1) by (simp add: is_waiting_for_quanta_def)
  let ?e = "(ended_eng False)\<lparr>skip_boundry_check_after_checkpoint := False\<rparr>"
  have "pass_barrier ?n1 = start_next_quantum (demo_at False counted No_Timer ?e d 1)"
    by (simp add: pass_barrier_def sync_checkpoint_check_def grant_permission_def ended_eng_def)
  moreover obtain n' where n': "start_next_quantum (demo_at False counted No_Timer ?e d 1) = Inr n'" "comm n' = d"
    by (auto simp: start_next_quantum_def timer_mod_def Let_def pdes_play_def demo_platform_def
        out_call_def split: option.splits)
  ultimately have p: "pass_barrier ?n1 = Inr n'" by simp
  have r: "round_of n' = 1" using start_next_round[OF n'(1)] by simp
  have "proc_step demo_save (Main_Loop, demo_at False (\<lambda>_. None) (Armed 1) (ended_eng False) c 1) (Main_Loop, n')"
    using w p by (intro proc_step.check_pass[where t = 1 and ?n1.0 = ?n1]) simp_all
  with d n'(2) r show ?thesis by auto
qed

text \<open>
  A run that gets there: both at the barrier of round 0, the master has noted the request for the
  snapshot and has not read the announcement, the follower has passed into round 1.
\<close>

lemma follower_ahead:
  obtains c x nb where "sys_reach demo_save 1000 5 \<lparr>place_a = Main_Loop,
      node_a = demo_at True counted (Armed 1) ready_master c 1, place_b = Main_Loop, node_b = nb\<rparr>"
    and "comm_wf c" and "rx_list c = [x]" and "tx_list c = []" and "mtype x = CHECKPOINT_INIT_STEP"
    and "len x = 0" and "comm_wf (comm nb)" and "round_of nb = 1"
proof -
  obtain ca cb where s0: "sys_reach demo_save 1000 5
      (at_barrier counted (ended_eng True) ca 0 (\<lambda>_. None) (ended_eng False) cb 0)"
    and c: "comm_wf ca" "tx_list ca = [demo_sync]" "rx_list ca = []"
      "comm_wf cb" "tx_list cb = []" "rx_list cb = [demo_sync]"
    using demo_at_barrier by blast
  have nn: "ca \<noteq> None" "cb \<noteq> None" using c by (auto simp: comm_wf_def)
  note s1 = barrier_run_a[OF s0 demo_clock]
  note s2 = barrier_run_a[OF s1 master_asks]
  let ?cb = "peer_view ca (peer_view ca cb)"
  note v1 = peer_view_lists[OF c(1) nn(2)]
  note v2 = peer_view_lists[OF c(1) v1(4), unfolded c(2,3)]
  obtain d x where 3: "proc_step demo_save (Main_Loop, demo_at False (\<lambda>_. None) (Armed 1) (ended_eng False) ?cb 0)
      (Main_Loop, demo_at False (\<lambda>_. None) (Armed 1) (ended_eng False) d 0)" "comm_wf d"
    "tx_list d = [x]" "rx_list d = [demo_sync]" "mtype x = CHECKPOINT_INIT_STEP" "len x = 0"
    using follower_announces[OF v2(1), of "\<lambda>_. None" "Armed 1" 0] v2 by auto
  note s3 = barrier_run_b[OF s2 3(1)]
  note s4 = barrier_run_b[OF s3 demo_clock]
  let ?ca = "peer_view d (peer_view d ca)"
  obtain nb where 5: "proc_step demo_save (Main_Loop, demo_at False (\<lambda>_. None) (Armed 1) (ended_eng False) d 1)
      (Main_Loop, nb)" "comm_wf (comm nb)" "tx_list (comm nb) = [x]" "rx_list (comm nb) = []" "round_of nb = 1"
    using follower_passes[OF 3(2,4)] 3(3) by auto
  have s5: "sys_reach demo_save 1000 5 \<lparr>place_a = Main_Loop,
      node_a = demo_at True counted (Armed 1) ready_master (peer_view (comm nb) ?ca) 1,
      place_b = Main_Loop, node_b = nb\<rparr>"
    using run_b[OF s4, of Main_Loop nb] 5 by (simp add: at_barrier_def)
  have "?ca \<noteq> None" using peer_view_lists(4) 3(2) nn(1) by blast
  note v5 = peer_view_lists[OF 5(2) this, unfolded 5(3,4)]
  show thesis by (rule that[OF s5 v5(1,2,3) 3(5,6) 5(2,5)])
qed

text \<open>The lead of one round that \<open>System_Props\<close> allows is reached.\<close>

theorem rounds_in_step_witness:
  "\<exists>s. sys_reach demo_save 1000 5 s \<and> round_of (node_b s) = round_of (node_a s) + 1 \<and>
    finished_quantum (wwt (node_a s))"
proof -
  obtain c nb where s: "sys_reach demo_save 1000 5 \<lparr>place_a = Main_Loop,
      node_a = demo_at True counted (Armed 1) ready_master c 1, place_b = Main_Loop, node_b = nb\<rparr>"
      (is "sys_reach _ _ _ ?s") and r: "round_of nb = 1"
    by (rule follower_ahead)
  have p: "(Main_Loop, nb, node_a ?s) \<in> processes ?s" by (simp add: processes_def)
  have "round_of (node_a ?s) = 0" by simp
  with rounds_in_step[OF s demo_save_keeps p] s r show ?thesis by (intro exI[of _ ?s]) simp
qed

text \<open>Only now the master reads the announcement, and asks for a snapshot of round 0.\<close>

definition asking :: engine where
  "asking = ready_master\<lparr>init_flag := 1, notified_neighbors := False, needs_to_checkpoint := True,
     checkpoint_format := 3, checkpoint_quantum_round := 0, checkpoint_name := init_warmed\<rparr>"

lemma announcement_read:
  assumes "mtype x = CHECKPOINT_INIT_STEP"
  shows "process_message wwt_recivied_callback x (demo_at True t k ready_master d rt) =
    Inr (demo_at True t k asking d rt)"
  using assms
  by (simp add: process_message_def wwt_recivied_callback_def get_universal_virtual_time_def
      process_control_def process_init_step_def set_checkpoint_values_for_master_def asking_def
      demo_platform_def msg_type_defs Let_def)

lemma master_asks_late:
  assumes "comm_wf c" and "rx_list c = [x]" and "mtype x = CHECKPOINT_INIT_STEP" and "len x = 0"
    and "length (tx_list c) < 8191"
  shows "\<exists>n' y. proc_step demo_save (Main_Loop, demo_at True counted (Armed 1) ready_master c 1) (Main_Loop, n') \<and>
    round_of n' = 0 \<and> boundry_scheduled (eng n') \<and> checkpoint_quantum_round (eng n') = 0 \<and> comm_wf (comm n') \<and>
    tx_list (comm n') = tx_list c @ [y] \<and> mtype y = DRAIN_START \<and>
    parse_drain_start y = (Inr (QPDES @ init_warmed, 3, 0) :: (node, string \<times> u32 \<times> u64) res)"
proof -
  let ?n = "demo_at True counted Idle ready_master c 1"
  obtain d where d: "poll ?n = Inr (demo_at True counted Idle asking d 1)" "comm_wf d" "rx_list d = []"
    "tx_list d = tx_list c"
    using poll_one[of ?n x "\<lambda>d. demo_at True counted Idle asking d 1"] announcement_read[OF assms(3)] assms
    by (auto simp: MAX_MSG_SIZE_def)
  let ?n1 = "demo_at True counted Idle asking d 1"
  let ?e = "asking\<lparr>skip_boundry_check_after_checkpoint := False\<rparr>"
  let ?n2 = "demo_at True counted Idle ?e d 1"
  have w: "is_waiting_for_quanta ?n = Inr (False, ?n1)"
    using d(1) by (simp add: is_waiting_for_quanta_def)
  have e: "needs_to_checkpoint ?e" "\<not> notified_neighbors ?e" "checkpoint_name ?e = init_warmed"
    "checkpoint_format ?e = 3" "checkpoint_quantum_round ?e = 0" "boundry_checkpoint_bh ?e = None"
    "first_sync_virtual_time ?e = 5"
    by (simp_all add: asking_def)
  have l: "length init_warmed \<le> 989" "CHR 0x00 \<notin> set init_warmed" by (simp_all add: init_warmed_def)
  obtain n3 where n3: "notify_if_needed ?n2 = Inr n3"
    using notify_if_needed_succeeds[of ?n2] e l d assms(5) by auto
  obtain y f where n3': "n3 = demo_at True counted Idle (?e\<lparr>notified_neighbors := True\<rparr>) f 1" "comm_wf f"
    and y: "tx_list f = tx_list c @ [y]" "mtype y = DRAIN_START"
      "parse_drain_start y = (Inr (QPDES @ init_warmed, 3, 0) :: (node, string \<times> u32 \<times> u64) res)"
    using notify_if_needed_sends[OF n3] e l d by auto
  let ?e3 = "?e\<lparr>notified_neighbors := True, boundry_checkpoint_bh := Some False, boundry_scheduled := True\<rparr>"
  have "checkpoint_at_boundary n3 = Inr (True, demo_at True counted (Armed 10000001) ?e3 f 1)"
    unfolding n3'(1) using e(5,6) by (simp add: checkpoint_at_boundary_def timer_mod_def Let_def)
  then have "pass_barrier ?n1 = Inr (demo_at True counted (Armed 10000001) ?e3 f 1)"
    using n3 e(1) by (simp add: pass_barrier_def sync_checkpoint_check_def)
  then have "proc_step demo_save (Main_Loop, demo_at True counted (Armed 1) ready_master c 1)
      (Main_Loop, demo_at True counted (Armed 10000001) ?e3 f 1)"
    using w by (intro proc_step.check_pass[where t = 1 and ?n1.0 = ?n1]) simp_all
  then show ?thesis using n3'(2) y e(5)
    by (intro exI[of _ "demo_at True counted (Armed 10000001) ?e3 f 1"] exI[of _ y]) simp
qed

text \<open>
  C17. The agreement on the round can fail: in a reachable state the master is at the barrier of
  round 0 with a snapshot of round 0 scheduled, while its follower has already passed that
  barrier and finds the request for round 0 in its ring in round 1, where the check of the
  boundary trips the assertion on the checkpoint round.
\<close>

theorem late_checkpoint_request:
  "\<exists>s y. sys_reach demo_save 1000 5 s \<and>
    boundry_scheduled (eng (node_a s)) \<and> checkpoint_quantum_round (eng (node_a s)) = 0 \<and>
    round_of (node_a s) = 0 \<and> round_of (node_b s) = 1 \<and> y \<in> set (rx_list (comm (node_b s))) \<and>
    (\<forall>b. \<not> master (eng b) \<and> should_sync (wwt b) \<and> 1 \<le> current_quantum_round (wwt b) \<longrightarrow>
      (\<exists>b'. process_control y b = Inr b' \<and>
        checkpoint_at_boundary b' = Inl (Assert_Failed Checkpoint_Round_Passed)))"
proof -
  obtain c x nb where s5: "sys_reach demo_save 1000 5 \<lparr>place_a = Main_Loop,
      node_a = demo_at True counted (Armed 1) ready_master c 1, place_b = Main_Loop, node_b = nb\<rparr>"
    and v5: "comm_wf c" "rx_list c = [x]" "tx_list c = []" "mtype x = CHECKPOINT_INIT_STEP" "len x = 0"
    and nb: "comm_wf (comm nb)" "round_of nb = 1"
    by (rule follower_ahead)
  let ?a = "demo_at True counted (Armed 1) ready_master c 1"
  obtain na y where 6: "proc_step demo_save (Main_Loop, ?a) (Main_Loop, na)" "round_of na = 0"
    "boundry_scheduled (eng na)" "checkpoint_quantum_round (eng na) = 0" "comm_wf (comm na)"
    "tx_list (comm na) = [y]" "mtype y = DRAIN_START"
    and y: "parse_drain_start y = (Inr (QPDES @ init_warmed, 3, 0) :: (node, string \<times> u32 \<times> u64) res)"
    using master_asks_late[OF v5(1,2,4,5)] v5(3) by auto
  let ?s = "\<lparr>place_a = Main_Loop, node_a = na, place_b = Main_Loop,
    node_b = nb\<lparr>comm := peer_view (comm na) (comm nb)\<rparr>\<rparr>"
  have s6: "sys_reach demo_save 1000 5 ?s"
    using run_a[OF s5, of Main_Loop na] 6 nb(2) by simp
  have "comm nb \<noteq> None" using nb(1) by (auto simp: comm_wf_def)
  then have "rx_list (comm (node_b ?s)) = [y]" using peer_view_lists(2)[OF 6(5)] 6(6) by simp
  moreover have "\<exists>b'. process_control y b = Inr b' \<and>
      checkpoint_at_boundary b' = Inl (Assert_Failed Checkpoint_Round_Passed)"
    if b: "\<not> master (eng b) \<and> should_sync (wwt b) \<and> 1 \<le> current_quantum_round (wwt b)" for b
  proof -
    have "\<not> current_quantum_round (wwt b) < 0" "current_quantum_round (wwt b) \<noteq> 0" using b by auto
    then show ?thesis
      using b y 6(7) by (simp add: process_control_def process_drain_start_def checkpoint_at_boundary_def
          msg_type_defs Let_def)
  qed
  ultimately show ?thesis
    using s6 6 nb(2) by (intro exI[of _ ?s] exI[of _ y]) simp
qed

theorem late_checkpoint_request_witness:
  "\<exists>s y b'. sys_reach demo_save 1000 5 s \<and> y \<in> set (rx_list (comm (node_b s))) \<and>
    process_control y ((demo_node False 5)\<lparr>wwt := zero_wwt\<lparr>should_sync := True, current_quantum_round := 1\<rparr>\<rparr>) =
      Inr b' \<and>
    checkpoint_at_boundary b' = Inl (Assert_Failed Checkpoint_Round_Passed)"
proof -
  let ?b = "(demo_node False 5)\<lparr>wwt := zero_wwt\<lparr>should_sync := True, current_quantum_round := 1\<rparr>\<rparr>"
  obtain s y where s: "sys_reach demo_save 1000 5 s" "y \<in> set (rx_list (comm (node_b s)))"
    and f: "\<forall>b. \<not> master (eng b) \<and> should_sync (wwt b) \<and> 1 \<le> current_quantum_round (wwt b) \<longrightarrow>
      (\<exists>b'. process_control y b = Inr b' \<and>
        checkpoint_at_boundary b' = Inl (Assert_Failed Checkpoint_Round_Passed))"
    using late_checkpoint_request by blast
  have "\<not> master (eng ?b) \<and> should_sync (wwt ?b) \<and> 1 \<le> current_quantum_round (wwt ?b)"
    by (simp add: demo_node_def)
  then have "\<exists>b'. process_control y ?b = Inr b' \<and>
      checkpoint_at_boundary b' = Inl (Assert_Failed Checkpoint_Round_Passed)"
    using f[rule_format, of ?b] by blast
  with s show ?thesis by blast
qed

text \<open>A master of round 0 that was asked for the snapshot before the end of its quantum.\<close>

theorem drain_before_sync_witness:
  "\<exists>n' d y. quanta_rest (demo_at True (\<lambda>_. None) No_Timer asking demo_comm 0) = Inr n' \<and>
    tx_list (comm n') = [d, y] \<and> mtype d = DRAIN_START \<and> mtype y = MSG_TYPE_SYNC"
proof -
  let ?n = "demo_at True (\<lambda>_. None) No_Timer asking demo_comm 0"
  have e: "needs_to_checkpoint asking" "\<not> notified_neighbors asking" "checkpoint_name asking = init_warmed"
    "first_sync_virtual_time asking = 5" "first_sync_time asking = 5"
    by (simp_all add: asking_def) (simp add: ready_master_def)
  have l: "length init_warmed \<le> 989" "CHR 0x00 \<notin> set init_warmed" by (simp_all add: init_warmed_def)
  have p: "poll ?n = Inr ?n" by (intro poll_empty) simp_all
  obtain n2 where n2: "notify_if_needed ?n = Inr n2"
    using notify_if_needed_succeeds[of ?n] e l by auto
  obtain d c where c: "n2 = demo_at True (\<lambda>_. None) No_Timer (asking\<lparr>notified_neighbors := True\<rparr>) c 0"
    "comm_wf c" "tx_list c = [d]"
    using notify_if_needed_sends[OF n2] e l by auto
  obtain f where "send_sync n2 = Inr (demo_at True (\<lambda>_. None) No_Timer (asking\<lparr>notified_neighbors := True\<rparr>) f 0)"
    using demo_send_sync[of "asking\<lparr>notified_neighbors := True\<rparr>" c True "\<lambda>_. None" No_Timer 0] c e by auto
  then obtain n' where r: "quanta_rest ?n = Inr n'"
    using p n2 c(1) by (simp add: quanta_rest_def)
  from drain_before_sync[OF p r] e l r show ?thesis by fastforce
qed

end
