(* ===== verification/Inflight_Json.thy ===== *)
theory Inflight_Json
  imports Checkpoint
begin

text \<open>
  What comes back when the file a checkpoint wrote is read again. The searches of the reader
  skip over text without a quote, numbers survive printing and scanning, and the only thing
  that depends on the contents is the comma after an entry: behind the bytes of the last one
  there is none, so the search pointer becomes NULL and the next \<open>strstr\<close> dereferences it.
\<close>

section \<open>Numbers\<close>

lemma of_char_digit [simp]: "d < 10 \<Longrightarrow> (of_char (digit_char d) :: nat) = 48 + d"
  by (simp add: digit_char_def)

lemma is_digit_digit [simp]: "d < 10 \<Longrightarrow> is_digit (digit_char d)"
  by (simp add: is_digit_def)

lemma dec_nat_digits: "\<forall>c \<in> set (dec_nat n). is_digit c"
proof (induction n rule: dec_nat.induct)
  case (1 n)
  show ?case
  proof (cases "n < 10")
    case False
    with 1 show ?thesis by (subst dec_nat.simps) simp
  qed (simp add: dec_nat.simps)
qed

lemma dec_nat_Cons: obtains d ds where "dec_nat n = d # ds" and "is_digit d"
proof -
  have "dec_nat n \<noteq> []" by (subst dec_nat.simps) simp
  then obtain d ds where "dec_nat n = d # ds" by (cases "dec_nat n") auto
  moreover from this have "is_digit d" using dec_nat_digits[of n] by simp
  ultimately show thesis by (rule that)
qed

lemma digits_value_dec:
  "digits_value acc (dec_nat n @ r) = digits_value (acc * 10 ^ length (dec_nat n) + n) r"
proof (induction n arbitrary: r rule: dec_nat.induct)
  case (1 n)
  show ?case
  proof (cases "n < 10")
    case False
    then have e: "dec_nat n = dec_nat (n div 10) @ [digit_char (n mod 10)]"
      by (subst dec_nat.simps) simp
    show ?thesis using 1 False by (simp add: e algebra_simps)
  qed (simp add: dec_nat.simps[of n] mult.commute)
qed

lemma not_digit_chars [simp]:
  "\<not> is_digit CHR '',''" "\<not> is_digit CHR '']''" "\<not> is_digit CHR '' ''" "\<not> is_digit CHR 0x22"
  "\<not> is_digit CHR ''-''" "\<not> is_digit CHR 0x0A"
  by (simp_all add: is_digit_def)

lemma digit_not_space: "is_digit c \<Longrightarrow> \<not> is_space c"
  by (auto simp: is_digit_def is_space_def nl_def)

lemma space_blank [simp]: "is_space CHR '' ''" "\<not> is_space CHR ''-''"
  by (simp_all add: is_space_def nl_def)

lemma scan_blank [simp]: "scan_number (CHR '' '' # s) = scan_number s"
  by (simp add: scan_number_def)

lemma scan_dec:
  assumes "\<not> is_digit c"
  shows "scan_number (dec_nat n @ c # r) = Some (int n)"
    and "scan_number (CHR ''-'' # dec_nat n @ c # r) = Some (- int n)"
proof -
  have v: "digits_value 0 (dec_nat n @ c # r) = n" using assms by (simp add: digits_value_dec)
  obtain d ds where d: "dec_nat n = d # ds" "is_digit d" by (rule dec_nat_Cons)
  show "scan_number (dec_nat n @ c # r) = Some (int n)"
    using v d digit_not_space[OF d(2)] by (simp add: scan_number_def)
  show "scan_number (CHR ''-'' # dec_nat n @ c # r) = Some (- int n)"
    using v d by (simp add: scan_number_def)
qed

lemma scan_unsigned:
  assumes "\<not> is_digit c"
  shows "scan_number (print_unsigned w @ c # r) = Some (uint w)"
  using scan_dec(1)[OF assms] by (simp add: print_unsigned_def)

lemma scan_signed:
  assumes "\<not> is_digit c"
  shows "scan_number (print_signed w @ c # r) = Some (sint w)"
  using scan_dec[OF assms] by (simp add: print_signed_def)

lemma print_no_mark:
  assumes "\<not> is_digit c"
  shows "c \<notin> set (print_unsigned w)" and "c \<noteq> CHR ''-'' \<Longrightarrow> c \<notin> set (print_signed w)"
  using dec_nat_digits assms by (auto simp: print_unsigned_def print_signed_def)

section \<open>Searching\<close>

lemma strstr_skip: "c \<notin> set pre \<Longrightarrow> strstr (c # k) (pre @ r) = strstr (c # k) r"
  by (induction pre) auto

lemma strchr_skip: "c \<notin> set pre \<Longrightarrow> strchr c (pre @ r) = strchr c r"
  by (induction pre) auto

lemma starts_with_self [simp]: "starts_with k (k @ r)"
  by (induction k) auto

lemma strstr_self: "k \<noteq> [] \<Longrightarrow> strstr k (k @ r) = Some (k @ r)"
  by (cases k) auto

lemmas key_defs = key_sched_def key_ts_def key_type_def key_len_def key_data_def

text \<open>From the key just read, the next search finds the next key of the entry.\<close>

definition gap :: "string \<Rightarrow> string" where
  "gap num = '' '' @ num @ '','' @ nl @ ''      ''"

lemma gap_skip:
  assumes "CHR 0x22 \<notin> set num"
  shows "CHR 0x22 \<notin> set (gap num)"
  using assms by (auto simp: gap_def nl_def)

lemma strstr_quote:
  assumes "CHR 0x22 \<notin> set num" and "k = CHR 0x22 # k'"
  shows "strstr k (gap num @ k @ r) = Some (k @ r)"
  using strstr_skip[OF gap_skip[OF assms(1)], of k' "k @ r"] strstr_self[of k r] assms(2) by simp

lemma find_next_key:
  assumes "CHR 0x22 \<notin> set num"
  shows "strstr key_ts (key_sched @ gap num @ key_ts @ r) = Some (key_ts @ r)"
    and "strstr key_type (key_ts @ gap num @ key_type @ r) = Some (key_type @ r)"
    and "strstr key_len (key_type @ gap num @ key_len @ r) = Some (key_len @ r)"
    and "strstr key_data (key_len @ gap num @ key_data @ r) = Some (key_data @ r)"
  using strstr_quote[OF assms, of key_ts _ r] strstr_quote[OF assms, of key_type _ r]
    strstr_quote[OF assms, of key_len _ r] strstr_quote[OF assms, of key_data _ r]
  by (simp_all add: key_defs gap_def)

lemma scan_gap:
  assumes "\<And>r. scan_number (num @ CHR '','' # r) = Some v"
  shows "scan_field k (k @ gap num @ r) = Some v"
  using assms by (simp add: scan_field_def gap_def)

section \<open>The bytes\<close>

lemma print_bytes_Cons:
  "print_bytes (b # bs) = print_unsigned b @ (if bs = [] then [] else '', '' @ print_bytes bs)"
  by (cases bs) simp_all

lemma load_bytes_text:
  assumes "bs \<noteq> []" and "length acc + length bs \<le> MAX_MSG_SIZE" and "sp = [] \<or> sp = '' ''"
  shows "load_bytes (length bs) (Some (sp @ print_bytes bs @ '']'' @ t)) acc =
    (Inr (acc @ bs, map_option tl (strchr CHR '','' t)) :: ('n, u8 list \<times> string option) res)"
  using assms
proof (induction bs arbitrary: acc sp)
  case (Cons b bs)
  let ?c = "if bs = [] then CHR '']'' else CHR '',''"
  let ?r = "if bs = [] then t else '' '' @ print_bytes bs @ '']'' @ t"
  have e: "print_bytes (b # bs) @ '']'' @ t = print_unsigned b @ ?c # ?r"
    by (simp add: print_bytes_Cons)
  have sc: "scan_number (sp @ print_unsigned b @ ?c # ?r) = Some (uint b)"
    using Cons.prems(3) scan_unsigned[of ?c b ?r] by auto
  have "CHR '','' \<notin> set (sp @ print_unsigned b)"
    using print_no_mark(1)[of "CHR '',''" b] Cons.prems(3) by auto
  from strchr_skip[OF this, of "?c # ?r"]
  have ch: "strchr CHR '','' (sp @ print_unsigned b @ ?c # ?r) =
      (if bs = [] then strchr CHR '','' t else Some (?c # ?r))" by simp
  have l: "\<not> MAX_MSG_SIZE \<le> length acc" using Cons.prems(2) by simp
  show ?case
  proof (cases "bs = []")
    case True
    then show ?thesis using e sc ch l by simp
  next
    case False
    have "load_bytes (length bs) (Some ('' '' @ print_bytes bs @ '']'' @ t)) (acc @ [b]) =
        (Inr ((acc @ [b]) @ bs, map_option tl (strchr CHR '','' t)) :: ('n, u8 list \<times> string option) res)"
      by (rule Cons.IH) (use False Cons.prems(2) in simp_all)
    then show ?thesis using e sc ch l False by simp
  qed
qed simp

section \<open>One entry\<close>

text \<open>
  What the reader makes of an entry in slot \<open>i\<close>: the bytes behind the payload are those of the
  slot, zero in the first sixteen and whatever the memory held in the others.
\<close>

definition slot_data :: "(nat \<Rightarrow> nat \<Rightarrow> u8) \<Rightarrow> nat \<Rightarrow> u8 list" where
  "slot_data fresh i = (if i < 16 then replicate MAX_MSG_SIZE 0 else fresh_data fresh i)"

definition stored :: "u8 list \<Rightarrow> message \<times> i64 \<Rightarrow> message \<times> i64" where
  "stored old e = ((fst e)\<lparr>data := payload (fst e) @ drop (unat (len (fst e))) old\<rparr>, snd e)"

fun stored_from :: "(nat \<Rightarrow> nat \<Rightarrow> u8) \<Rightarrow> nat \<Rightarrow> (message \<times> i64) list \<Rightarrow> (message \<times> i64) list" where
  "stored_from fresh i [] = []"
| "stored_from fresh i (e # es) = stored (slot_data fresh i) e # stored_from fresh (Suc i) es"

lemma length_stored_from [simp]: "length (stored_from fresh i es) = length es"
  by (induction es arbitrary: i) simp_all

lemma stored_from_nth: "j < length es \<Longrightarrow> stored_from fresh i es ! j = stored (slot_data fresh (i + j)) (es ! j)"
  by (induction es arbitrary: i j) (auto simp: nth_Cons split: nat.splits)

lemma stored_times [simp]: "map snd (stored_from fresh i es) = map snd es"
  by (induction es arbitrary: i) (simp_all add: stored_def)

text \<open>The slots allocated so far.\<close>

definition slots_ok :: "(nat \<Rightarrow> nat \<Rightarrow> u8) \<Rightarrow> u8 list list \<Rightarrow> bool" where
  "slots_ok fresh mem \<longleftrightarrow> 16 \<le> length mem \<and> (\<forall>i < length mem. mem ! i = slot_data fresh i)"

lemma slots_start: "slots_ok fresh (replicate 16 (replicate MAX_MSG_SIZE 0))"
  by (simp add: slots_ok_def slot_data_def)

lemma slots_grow:
  assumes "slots_ok fresh mem" and "used \<le> length mem"
  shows "slots_ok fresh (grow fresh used mem)" and "used < length (grow fresh used mem)"
    and "grow fresh used mem ! used = slot_data fresh used"
proof -
  let ?n = "length mem"
  have n: "16 \<le> ?n" using assms(1) by (simp add: slots_ok_def)
  have "(mem @ map (fresh_data fresh) [?n..<2 * ?n]) ! i = slot_data fresh i" if "i < 2 * ?n" for i
    using assms(1) that n by (cases "i < ?n") (simp_all add: slots_ok_def nth_append slot_data_def)
  with assms(1) n show s: "slots_ok fresh (grow fresh used mem)" by (simp add: grow_def slots_ok_def)
  from assms n show l: "used < length (grow fresh used mem)" by (simp add: grow_def)
  from s l show "grow fresh used mem ! used = slot_data fresh used" by (simp add: slots_ok_def)
qed

definition entry_end :: "bool \<Rightarrow> string" where
  "entry_end comma = nl @ ''    }'' @ (if comma then '','' else []) @ nl"

definition entry_rest :: "message \<times> i64 \<Rightarrow> bool \<Rightarrow> string" where
  "entry_rest e comma = key_sched @ gap (print_signed (snd e)) @ key_ts @ gap (print_unsigned (ts_ns (fst e))) @
     key_type @ gap (print_unsigned (mtype (fst e))) @ key_len @ gap (print_unsigned (len (fst e))) @
     key_data @ print_bytes (payload (fst e)) @ '']'' @ entry_end comma"

lemma print_entry_rest:
  "print_entry e comma = (''    {'' @ nl @ ''      '') @ entry_rest e comma"
  by (simp add: print_entry_def entry_rest_def gap_def entry_end_def)

text \<open>Where the search pointer stands behind an entry.\<close>

definition pointer_after :: "message \<times> i64 \<Rightarrow> bool \<Rightarrow> string \<Rightarrow> string option" where
  "pointer_after e comma t =
     (if len (fst e) = 0 then Some ('']'' @ entry_end comma @ t)
      else if comma then Some (nl @ t) else map_option tl (strchr CHR '','' t))"

lemma load_entry_text:
  assumes "message_wf (fst e)"
  shows "load_entry old (entry_rest e comma @ t) =
    (Inr (stored old e, pointer_after e comma t) :: ('n, (message \<times> i64) \<times> string option) res)"
proof -
  obtain m s where e: "e = (m, s)" by (cases e)
  let ?p = "payload m"
  have l: "length ?p = unat (len m)" "unat (len m) \<le> MAX_MSG_SIZE"
    using assms by (simp_all add: message_wf_def payload_def e)
  note q = print_no_mark[of "CHR 0x22"]
  note sc = scan_unsigned[of "CHR '',''", simplified] scan_signed[of "CHR '',''", simplified]
  have b: "load_bytes (unat (len m)) (Some (print_bytes ?p @ '']'' @ entry_end comma @ t)) [] =
      (Inr (?p, pointer_after e comma t) :: ('n, u8 list \<times> string option) res)"
  proof (cases "len m = 0")
    case True
    then show ?thesis using l by (simp add: pointer_after_def e)
  next
    case False
    then have "?p \<noteq> []" using l(1) by (metis list.size(3) unat_eq_zero)
    then have "load_bytes (length ?p) (Some ([] @ print_bytes ?p @ '']'' @ entry_end comma @ t)) [] =
        (Inr ([] @ ?p, map_option tl (strchr CHR '','' (entry_end comma @ t))) :: ('n, u8 list \<times> string option) res)"
      by (intro load_bytes_text) (use l in simp_all)
    then show ?thesis using False l(1) by (simp add: pointer_after_def e entry_end_def nl_def)
  qed
  have "load_entry old (entry_rest e comma @ t) =
    (Inr ((\<lparr>ts_ns = word_of_int (uint (ts_ns m)), len = word_of_int (uint (len m)),
      data = ?p @ drop (length ?p) old,
      mtype = ucast (word_of_int (uint (mtype m)) :: u32)\<rparr>, word_of_int (sint s)), pointer_after e comma t)
      :: ('n, (message \<times> i64) \<times> string option) res)"
    using b by (simp add: load_entry_def entry_rest_def e next_field_def find_next_key q sc scan_gap)
  moreover have "(ucast (word_of_int (uint (mtype m)) :: u32) :: u8) = mtype m"
    by (rule bit_word_eqI) (auto simp: bit_ucast_iff)
  ultimately show ?thesis using l by (simp add: stored_def e)
qed

section \<open>The list of entries\<close>

fun comma_text :: "(message \<times> i64) list \<Rightarrow> string" where
  "comma_text [] = []"
| "comma_text (e # es) = print_entry e (es \<noteq> []) @ comma_text es"

lemma print_entries_text:
  "cnt = i + int (length es) \<Longrightarrow> print_entries es i cnt = comma_text es"
  by (induction es arbitrary: i) auto

text \<open>Behind the last entry the pointer is NULL if the entry had a byte to read.\<close>

definition ends_with_data :: "(message \<times> i64) list \<Rightarrow> bool" where
  "ends_with_data es \<longleftrightarrow> es \<noteq> [] \<and> 0 < len (fst (last es))"

lemma no_comma_footer [simp]: "strchr CHR '','' json_footer = None"
  by (simp add: json_footer_def nl_def)

lemma no_quote_footer:
  "CHR 0x22 \<notin> set json_footer" "CHR 0x22 \<notin> set ('']'' @ entry_end comma)" "CHR 0x22 \<notin> set nl"
  by (simp_all add: json_footer_def entry_end_def nl_def)

lemma strstr_sched_skip: "CHR 0x22 \<notin> set pre \<Longrightarrow> strstr key_sched (pre @ r) = strstr key_sched r"
  using strstr_skip by (simp add: key_sched_def)

lemma sched_in_footer [simp]: "strstr key_sched json_footer = None"
  by (simp add: json_footer_def nl_def key_sched_def)

lemma find_entry: "strstr key_sched (print_entry e comma @ t) = Some (entry_rest e comma @ t)"
proof -
  have "CHR 0x22 \<notin> set (''    {'' @ nl @ ''      '')" by (simp add: nl_def)
  then have "strstr key_sched (print_entry e comma @ t) = strstr key_sched (entry_rest e comma @ t)"
    unfolding print_entry_rest append_assoc by (metis append_assoc strstr_sched_skip)
  also have "\<dots> = Some (entry_rest e comma @ t)"
    using strstr_self[of key_sched] by (simp add: entry_rest_def key_sched_def)
  finally show ?thesis .
qed

lemma load_entries_text:
  assumes "\<forall>e \<in> set es. message_wf (fst e)" and "CHR 0x22 \<notin> set pre" and "length es < f"
    and "slots_ok fresh mem" and "length acc \<le> length mem"
  shows "load_entries fresh f (Some (pre @ comma_text es @ json_footer)) mem acc =
    (if ends_with_data es then Inl Null_Deref else Inr (acc @ stored_from fresh (length acc) es)
      :: ('n, (message \<times> i64) list) res)"
  using assms
proof (induction es arbitrary: f pre mem acc)
  case Nil
  then obtain k where "f = Suc k" by (cases f) auto
  then show ?case using Nil.prems(2) strstr_sched_skip[of pre] by (simp add: ends_with_data_def)
next
  case (Cons e es)
  then obtain k where k: "f = Suc k" "length es < k" by (cases f) auto
  let ?t = "comma_text es @ json_footer"
  let ?mem = "grow fresh (length acc) mem"
  let ?e = "stored (slot_data fresh (length acc)) e"
  have m: "message_wf (fst e)" "\<forall>e \<in> set es. message_wf (fst e)" using Cons.prems(1) by simp_all
  note g = slots_grow[OF Cons.prems(4,5)]
  have "load_entry (?mem ! length acc) (entry_rest e (es \<noteq> []) @ ?t) =
      (Inr (?e, pointer_after e (es \<noteq> []) ?t) :: ('n, (message \<times> i64) \<times> string option) res)"
    unfolding g(3) by (rule load_entry_text[OF m(1)])
  then have "load_entries fresh f (Some (pre @ comma_text (e # es) @ json_footer)) mem acc =
      (load_entries fresh k (pointer_after e (es \<noteq> []) ?t) ?mem (acc @ [?e])
        :: ('n, (message \<times> i64) list) res)"
    by (simp add: k strstr_sched_skip[OF Cons.prems(2)] find_entry Let_def)
  moreover have "load_entries fresh k (pointer_after e (es \<noteq> []) ?t) ?mem (acc @ [?e]) =
      (if ends_with_data (e # es) then Inl Null_Deref
       else Inr (acc @ stored_from fresh (length acc) (e # es)) :: ('n, (message \<times> i64) list) res)"
  proof -
    have go: "load_entries fresh k (Some (p @ ?t)) ?mem (acc @ [?e]) =
        (if ends_with_data es then Inl Null_Deref
         else Inr ((acc @ [?e]) @ stored_from fresh (length (acc @ [?e])) es)
          :: ('n, (message \<times> i64) list) res)" if "CHR 0x22 \<notin> set p" for p
      by (rule Cons.IH[OF m(2) that k(2) g(1)]) (use g(2) in simp)
    show ?thesis
    proof (cases "es = []")
      case False
      then have "ends_with_data (e # es) = ends_with_data es" by (simp add: ends_with_data_def)
      then show ?thesis
        using go[OF no_quote_footer(2)[of True]] go[OF no_quote_footer(3)] False
        by (auto simp: pointer_after_def)
    next
      case True
      obtain j where j: "k = Suc j" using k(2) by (cases k) auto
      show ?thesis
      proof (cases "len (fst e) = 0")
        case z: True
        then show ?thesis using go[OF no_quote_footer(2)[of False]] True
          by (simp add: pointer_after_def ends_with_data_def)
      next
        case False
        then have "0 < len (fst e)" by (simp add: word_gt_0)
        then show ?thesis using True j False by (simp add: pointer_after_def ends_with_data_def)
      qed
    qed
  qed
  ultimately show ?case by simp
qed

lemma comma_text_length: "length es \<le> length (comma_text es)"
proof (induction es)
  case (Cons e es)
  have "1 \<le> length (print_entry e c)" for c by (simp add: print_entry_def nl_def)
  then have "1 \<le> length (print_entry e (es \<noteq> []))" .
  with Cons show ?case by simp
qed simp

lemma strstr_header: "strstr key_sched (json_header @ r) = strstr key_sched r"
  by (simp add: json_header_def key_sched_def nl_def)

lemma parse_print:
  assumes "inflight_wf s" and "\<forall>e \<in> set (pending_messages s). message_wf (fst e)"
  shows "(parse_json fresh (print_json s) :: ('n, (message \<times> i64) list) res) =
    (if ends_with_data (pending_messages s) then Inl Null_Deref
     else Inr (stored_from fresh 0 (pending_messages s)))"
proof -
  let ?es = "pending_messages s"
  let ?t = "comma_text ?es @ json_footer"
  let ?mem = "replicate 16 (replicate MAX_MSG_SIZE (0 :: u8))"
  have t: "print_json s = json_header @ ?t"
    using assms(1) by (simp add: print_json_def print_entries_text inflight_wf_def)
  have l: "length ?es < Suc (length (json_header @ ?t))" using comma_text_length[of ?es] by simp
  have "parse_json fresh (print_json s) =
      (load_entries fresh (Suc (length (json_header @ ?t))) (Some (json_header @ ?t)) ?mem []
        :: ('n, (message \<times> i64) list) res)"
    by (simp only: parse_json_def t Suc_eq_plus1)
  also have "\<dots> = load_entries fresh (Suc (length (json_header @ ?t))) (Some ([] @ ?t)) ?mem []"
    by (simp only: load_entries.simps option.case strstr_header append_Nil)
  also have "\<dots> = (if ends_with_data ?es then Inl Null_Deref else Inr ([] @ stored_from fresh (length ([] :: (message \<times> i64) list)) ?es))"
    by (rule load_entries_text[OF assms(2) _ l slots_start]) simp_all
  finally show ?thesis by simp
qed

section \<open>Saving and loading\<close>

text \<open>Two messages with the same header and the same payload; the rest of the array does not count.\<close>

definition same_content :: "message \<Rightarrow> message \<Rightarrow> bool" where
  "same_content m m' \<longleftrightarrow> ts_ns m = ts_ns m' \<and> len m = len m' \<and> mtype m = mtype m' \<and> payload m = payload m'"

text \<open>\<open>create_message\<close> builds messages whose array is zero behind the payload.\<close>

definition zero_padded :: "message \<Rightarrow> bool" where
  "zero_padded m \<longleftrightarrow> message_wf m \<and>
     data m = payload m @ replicate (MAX_MSG_SIZE - unat (len m)) 0"

lemma create_message_padded:
  assumes "create_message src n ty ts = (Inr m :: ('n, message) res)"
  shows "zero_padded m"
proof -
  from assms have l: "unat n \<le> MAX_MSG_SIZE" "unat n \<le> length src"
    and m: "m = \<lparr>ts_ns = ts, len = ucast n,
      data = take (unat n) src @ replicate (MAX_MSG_SIZE - unat n) 0, mtype = ty\<rparr>"
    by (simp_all add: create_message_Inr_iff)
  then show ?thesis
    using unat_ucast_u32[OF l(1)] by (simp add: zero_padded_def message_wf_def payload_def)
qed

lemma stored_content:
  assumes "message_wf (fst e)"
  shows "same_content (fst (stored old e)) (fst e)"
proof -
  have "length (payload (fst e)) = unat (len (fst e))" using assms by (simp add: message_wf_def payload_def)
  then show ?thesis by (simp add: same_content_def stored_def payload_def)
qed

lemma stored_padded:
  assumes "zero_padded (fst e)" and "i < 16"
  shows "stored (slot_data fresh i) e = e"
  using assms by (cases e) (simp add: stored_def slot_data_def zero_padded_def)

lemma stored_from_content:
  assumes "\<forall>e \<in> set es. message_wf (fst e)"
  shows "list_all2 same_content (map fst (stored_from fresh i es)) (map fst es)"
  using assms by (auto simp: list_all2_conv_all_nth stored_from_nth stored_content)

lemma load_saved:
  assumes "inflight_wf s" and "\<forall>e \<in> set (pending_messages s). message_wf (fst e)"
    and "fs (get_json_file_name name) = Some (print_json s)"
  shows "(pdes_inflight_load_json fresh True (get_json_file_name name) fs :: ('n, inflight_array option) res) =
    (if ends_with_data (pending_messages s) then Inl Null_Deref
     else Inr (Some \<lparr>arr_messages = Some (map fst (stored_from fresh 0 (pending_messages s))),
       arr_scheduled_times = Some (map snd (pending_messages s)), arr_count = pending_count s\<rparr>))"
  using parse_print[OF assms(1,2), where ?'n = 'n] assms(1,3)
  by (simp add: pdes_inflight_load_json_def inflight_wf_def)

text \<open>
  C14. Loading the file a checkpoint saved gives back the in-flight messages in order, with their
  times, stamps, types, lengths and payloads, whenever the reader gets through it: for a list
  that is empty or whose last entry carries no byte. Of the first sixteen the whole arrays come
  back too, if they were zero behind the payload; behind the payloads of the others is whatever
  the memory held.
\<close>

theorem inflight_json_roundtrip:
  assumes "inflight_wf s" and "\<forall>e \<in> set (pending_messages s). message_wf (fst e)"
    and "pending_messages s = [] \<or> len (fst (last (pending_messages s))) = 0"
  shows "\<exists>ms. (pdes_inflight_load_json fresh True (get_json_file_name name)
      (snd (pdes_inflight_save_json True name s fs)) :: ('n, inflight_array option) res) =
        Inr (Some \<lparr>arr_messages = Some ms, arr_scheduled_times = Some (map snd (pending_messages s)),
          arr_count = pdes_inflight_count s\<rparr>) \<and>
    list_all2 same_content ms (map fst (pending_messages s)) \<and>
    (\<forall>i < length ms. i < 16 \<and> zero_padded (fst (pending_messages s ! i)) \<longrightarrow>
      ms ! i = fst (pending_messages s ! i))"
proof -
  let ?es = "pending_messages s" and ?ms = "map fst (stored_from fresh 0 (pending_messages s))"
  have "\<not> ends_with_data ?es" using assms(3) by (auto simp: ends_with_data_def)
  then have "(pdes_inflight_load_json fresh True (get_json_file_name name)
      (snd (pdes_inflight_save_json True name s fs)) :: ('n, inflight_array option) res) =
        Inr (Some \<lparr>arr_messages = Some ?ms, arr_scheduled_times = Some (map snd ?es),
          arr_count = pdes_inflight_count s\<rparr>)"
    using load_saved[OF assms(1,2), of "snd (pdes_inflight_save_json True name s fs)" name fresh, where ?'n = 'n]
    by (simp add: pdes_inflight_save_json_def pdes_inflight_count_def)
  moreover have "\<forall>i < length ?ms. i < 16 \<and> zero_padded (fst (?es ! i)) \<longrightarrow> ?ms ! i = fst (?es ! i)"
    by (auto simp: stored_from_nth stored_padded)
  ultimately show ?thesis using stored_from_content[OF assms(2), of fresh 0] by blast
qed

text \<open>Two packets of which the later one to be printed is empty.\<close>

definition demo_readable :: inflight where
  "demo_readable = pdes_inflight_add (zero_message\<lparr>ts_ns := 3, len := 2\<rparr>) 9
     (pdes_inflight_add zero_message 7 no_inflight)"

lemma demo_readable_ok:
  "inflight_wf demo_readable" "\<forall>e \<in> set (pending_messages demo_readable). message_wf (fst e)"
  "len (fst (last (pending_messages demo_readable))) = 0" "pdes_inflight_count demo_readable = 2"
  "map snd (pending_messages demo_readable) = [9, 7]"
  by (simp_all add: demo_readable_def pdes_inflight_add_def no_inflight_def inflight_wf_def zero_message_def
      message_wf_def MAX_MSG_SIZE_def pdes_inflight_count_def)

theorem inflight_json_roundtrip_witness:
  "\<exists>ms. (pdes_inflight_load_json (\<lambda>_ _. 255) True (get_json_file_name ''s'')
      (snd (pdes_inflight_save_json True ''s'' demo_readable (\<lambda>_. None))) :: (unit, inflight_array option) res) =
    Inr (Some \<lparr>arr_messages = Some ms, arr_scheduled_times = Some [9, 7], arr_count = 2\<rparr>) \<and>
    list_all2 same_content ms (map fst (pending_messages demo_readable))"
  using inflight_json_roundtrip[OF demo_readable_ok(1,2), of "\<lambda>_ _. 255" "''s''" "\<lambda>_. None", where ?'n = unit]
    demo_readable_ok(3-5) by auto

text \<open>
  C15. A checkpoint with packets cannot be restored: when the last packet saved has any payload
  the reader passes its last byte, finds no comma behind it and hands a NULL pointer to
  \<open>strstr\<close>, in whatever node the file is loaded.
\<close>

theorem restore_with_payload_crashes:
  assumes "inflight_wf s" and "\<forall>e \<in> set (pending_messages s). message_wf (fst e)"
    and "pending_messages s \<noteq> []" and "0 < len (fst (last (pending_messages s)))"
    and "files n = snd (pdes_inflight_save_json True name s fs)" and "fopen_ok (platform n)"
  shows "pdes_inflight_restore_and_schedule fresh name cb n = Inl Null_Deref"
proof -
  have "ends_with_data (pending_messages s)" using assms(3,4) by (simp add: ends_with_data_def)
  moreover have "files n (get_json_file_name name) = Some (print_json s)"
    using assms(5) by (simp add: pdes_inflight_save_json_def)
  ultimately show ?thesis
    using load_saved[OF assms(1,2), of "files n" name fresh, where ?'n = node] assms(6)
    by (simp add: pdes_inflight_restore_and_schedule_def)
qed

definition demo_pending :: inflight where
  "demo_pending = pdes_inflight_add (zero_message\<lparr>len := 2\<rparr>) 7 no_inflight"

theorem restore_with_payload_crashes_witness:
  "pdes_inflight_restore_and_schedule (\<lambda>_ _. 0) ''s'' True
     ((demo_node True 0)\<lparr>files := snd (pdes_inflight_save_json True ''s'' demo_pending (\<lambda>_. None))\<rparr>) =
   Inl Null_Deref"
  by (rule restore_with_payload_crashes[of demo_pending])
    (simp_all add: demo_pending_def pdes_inflight_add_def no_inflight_def inflight_wf_def zero_message_def
      message_wf_def MAX_MSG_SIZE_def demo_node_def demo_platform_def)

lemma restore_fold:
  "fold (restore_one cb) es n = n\<lparr>
     contexts := contexts n @ map (\<lambda>e. \<lparr>has_recv_cb = cb, ctx_msg = fst e,
       one_time_poll_timer = Armed (snd e), timestamp_ns = snd e\<rparr>) es,
     inflight := \<lparr>pending_messages = rev es @ pending_messages (inflight n),
       pending_count = pending_count (inflight n) + int (length es)\<rparr>\<rparr>"
proof (induction es arbitrary: n)
  case (Cons e es)
  then show ?case by (simp add: restore_one_def pdes_inflight_add_def add.commute)
qed simp

text \<open>
  C27. When the file can be read, which is so for a list that is empty or ends with an empty
  message, restoring arms one delivery timer per saved message at the saved time, for a message
  of the same stamp, type and payload, enters each again in the in-flight list (in reverse
  order), and returns their number.
\<close>

theorem restore_schedules_saved:
  assumes "inflight_wf s" and "\<forall>e \<in> set (pending_messages s). message_wf (fst e)"
    and "pending_messages s = [] \<or> len (fst (last (pending_messages s))) = 0"
    and "files n = snd (pdes_inflight_save_json True name s fs)" and "fopen_ok (platform n)"
  shows "\<exists>es. map snd es = map snd (pending_messages s) \<and>
    list_all2 same_content (map fst es) (map fst (pending_messages s)) \<and>
    pdes_inflight_restore_and_schedule fresh name cb n = Inr (pdes_inflight_count s, n\<lparr>
      contexts := contexts n @ map (\<lambda>(m, t). \<lparr>has_recv_cb = cb, ctx_msg = m,
        one_time_poll_timer = Armed t, timestamp_ns = t\<rparr>) es,
      inflight := \<lparr>pending_messages = rev es @ pending_messages (inflight n),
        pending_count = pending_count (inflight n) + pdes_inflight_count s\<rparr>\<rparr>)"
proof -
  let ?es = "stored_from fresh 0 (pending_messages s)"
  have "\<not> ends_with_data (pending_messages s)" using assms(3) by (auto simp: ends_with_data_def)
  moreover have "files n (get_json_file_name name) = Some (print_json s)"
    using assms(4) by (simp add: pdes_inflight_save_json_def)
  ultimately have l: "pdes_inflight_load_json fresh True (get_json_file_name name) (files n) =
      (Inr (Some \<lparr>arr_messages = Some (map fst ?es), arr_scheduled_times = Some (map snd ?es),
        arr_count = pending_count s\<rparr>) :: (node, inflight_array option) res)"
    using load_saved[where fs = "files n", OF assms(1,2), of name fresh, where ?'n = node] by simp
  have z: "zip (map fst ?es) (map snd ?es) = ?es" by (rule zip_map_fst_snd)
  show ?thesis
    using stored_from_content[OF assms(2), of fresh 0] assms(1,5)
    by (intro exI[of _ ?es])
      (simp add: pdes_inflight_restore_and_schedule_def l z[unfolded stored_times] restore_fold
        pdes_inflight_count_def case_prod_beta inflight_wf_def)
qed

theorem restore_schedules_saved_witness:
  "\<exists>n. pdes_inflight_restore_and_schedule (\<lambda>_ _. 255) ''s'' True ((demo_node True 0)\<lparr>files :=
      snd (pdes_inflight_save_json True ''s'' demo_readable (\<lambda>_. None))\<rparr>) = Inr (2, n) \<and>
    map one_time_poll_timer (contexts n) = [Armed 9, Armed 7]"
proof -
  let ?n = "(demo_node True 0)\<lparr>files := snd (pdes_inflight_save_json True ''s'' demo_readable (\<lambda>_. None))\<rparr>"
  have f: "files ?n = snd (pdes_inflight_save_json True ''s'' demo_readable (\<lambda>_. None))" "fopen_ok (platform ?n)"
    by (simp_all add: demo_node_def demo_platform_def)
  obtain es where "map snd es = map snd (pending_messages demo_readable)"
    and r: "pdes_inflight_restore_and_schedule (\<lambda>_ _. 255) ''s'' True ?n = Inr (pdes_inflight_count demo_readable,
      ?n\<lparr>contexts := contexts ?n @ map (\<lambda>(m, t). \<lparr>has_recv_cb = True, ctx_msg = m,
        one_time_poll_timer = Armed t, timestamp_ns = t\<rparr>) es,
      inflight := \<lparr>pending_messages = rev es @ pending_messages (inflight ?n),
        pending_count = pending_count (inflight ?n) + pdes_inflight_count demo_readable\<rparr>\<rparr>)"
    using restore_schedules_saved[OF demo_readable_ok(1,2) disjI2[OF demo_readable_ok(3)] f] by blast
  then have es: "map snd es = [9, 7]" by (simp only: demo_readable_ok(5))
  from r obtain n where n: "pdes_inflight_restore_and_schedule (\<lambda>_ _. 255) ''s'' True ?n = Inr (2, n)"
      "contexts n = map (\<lambda>(m, t). \<lparr>has_recv_cb = True, ctx_msg = m, one_time_poll_timer = Armed t,
        timestamp_ns = t\<rparr>) es"
    by (simp add: demo_readable_ok(4) demo_node_def)
  have "map one_time_poll_timer (contexts n) = map (Armed \<circ> snd) es"
    using n(2) by (simp add: case_prod_beta comp_def)
  also have "\<dots> = map Armed (map snd es)" by simp
  finally show ?thesis using n(1) es by auto
qed

end
