(* ===== verification/Lost_Packets.thy ===== *)
theory Lost_Packets
  imports System_Runs Inflight_Json
begin

text \<open>
  A snapshot is meant to hold the packets that wait for their virtual time: \<open>pdes_drain\<close> writes
  the in-flight list to a file, and a restore schedules what the file holds. No handler enters a
  packet in that list, though: the call in \<open>wwt_recivied_callback\<close> is commented out. So the list
  of a running process stays what it was at the start.
\<close>

section \<open>Handlers and the in-flight list\<close>

named_theorems list_frame \<open>handlers leave the in-flight list alone\<close>

lemma list_send [list_frame]:
  "comm_send m n = Inr (i, n') \<Longrightarrow> inflight n' = inflight n"
  "pdes_engine_send m n = Inr (i, n') \<Longrightarrow> inflight n' = inflight n"
  "send_control ty n = Inr n' \<Longrightarrow> inflight n' = inflight n"
  "send_sync n = Inr n' \<Longrightarrow> inflight n' = inflight n"
  "wwt_send buf k n = Inr (i, n') \<Longrightarrow> inflight n' = inflight n"
  "pdes_net_receive buf k n = Inr (i, n') \<Longrightarrow> inflight n' = inflight n"
proof -
  have c: "inflight n' = inflight n" if "comm_send m n = Inr (i, n')" for m n i n'
    using that by (auto simp: comm_send_def elim!: bindE_InrE)
  then show "comm_send m n = Inr (i, n') \<Longrightarrow> inflight n' = inflight n" .
  have e: "inflight n' = inflight n" if "pdes_engine_send m n = Inr (i, n')" for m n i n'
    using that by (auto simp: pdes_engine_send_def dest: c elim!: bindE_InrE split: if_splits)
  then show "pdes_engine_send m n = Inr (i, n') \<Longrightarrow> inflight n' = inflight n" .
  show "send_control ty n = Inr n' \<Longrightarrow> inflight n' = inflight n"
    by (auto simp: send_control_def dest: c elim!: bindE_InrE)
  show "send_sync n = Inr n' \<Longrightarrow> inflight n' = inflight n"
    by (auto simp: send_sync_def Let_def dest: e elim!: bindE_InrE)
  have w: "inflight n' = inflight n" if "wwt_send buf k n = Inr (i, n')" for i n'
    using that by (auto simp: wwt_send_def Let_def dest: e elim!: bindE_InrE)
  then show "wwt_send buf k n = Inr (i, n') \<Longrightarrow> inflight n' = inflight n" .
  show "pdes_net_receive buf k n = Inr (i, n') \<Longrightarrow> inflight n' = inflight n"
    by (auto simp: pdes_net_receive_def dest: w elim!: bindE_InrE)
qed

lemma list_end [list_frame]:
  "send_end_if_handshake_complete n = Inr n' \<Longrightarrow> inflight n' = inflight n"
  by (auto simp: send_end_if_handshake_complete_def dest: list_frame split: if_splits)

lemma list_notify_end [list_frame]:
  "notify_neighbours_of_end n = Inr n' \<Longrightarrow> inflight n' = inflight n"
  by (auto simp: notify_neighbours_of_end_def dest: list_frame split: if_splits)

lemma list_can_stop [list_frame]: "can_stop n = Inr (b, n') \<Longrightarrow> inflight n' = inflight n"
  by (auto simp: can_stop_def Let_def dest!: list_frame elim!: bindE_InrE split: if_splits)

lemma list_set_checkpoint [simp]: "inflight (set_checkpoint_values_for_master n) = inflight n"
  by (simp add: set_checkpoint_values_for_master_def)

lemma list_finish_initiate [list_frame]:
  "finish_initiate_checkpoint n = Inr n' \<Longrightarrow> inflight n' = inflight n"
  by (auto simp: finish_initiate_checkpoint_def send_initiate_checkpoint_message_def Let_def
      dest!: list_frame elim!: bindE_InrE split: if_splits)

lemma list_control [list_frame]:
  assumes "process_control m n = Inr n'"
  shows "inflight n' = inflight n"
proof -
  have l: "inflight (process_intent n) = inflight n" "inflight (process_drain_end n) = inflight n"
    "inflight (process_init_step n) = inflight n" for n
    by (simp_all add: process_intent_def process_drain_end_def process_init_step_def Let_def)
  have f: "process_permission n = Inr n' \<Longrightarrow> inflight n' = inflight n"
    "process_end n = Inr n' \<Longrightarrow> inflight n' = inflight n"
    "process_drain_start m n = Inr n' \<Longrightarrow> inflight n' = inflight n" for n n'
    by (auto simp: process_permission_def process_end_def process_drain_start_def Let_def
        dest: list_frame elim!: bindE_InrE split: if_splits)
  from assms show ?thesis
    unfolding process_control_def
    by (auto simp: l dest!: f elim!: bindE_InrE split: if_splits)
qed

lemma list_message [list_frame]:
  assumes "process_message wwt_recivied_callback m n = Inr n'"
  shows "inflight n' = inflight n"
proof -
  have "inflight n1 = inflight n" if "wwt_recivied_callback m n = Inr n1" for n1
    using that
    by (auto simp: wwt_recivied_callback_def receive_sync_def receive_normal_def Let_def
        elim!: bindE_InrE split: if_splits)
  with assms show ?thesis by (auto simp: process_message_def dest!: list_control elim!: bindE_InrE)
qed

lemma list_poll_loop:
  "poll_loop k wwt_recivied_callback n = Inr n' \<Longrightarrow> inflight n' = inflight n"
proof (induction k arbitrary: n)
  case (Suc k)
  then obtain i m c where r: "(pdes_comm_recv (comm n) True :: (node, int \<times> message option \<times> comm option) res) =
      Inr (i, m, c)"
    by (auto elim!: bindE_InrE)
  show ?case
  proof (cases "i = NO_MESSAGE \<or> i < 0 \<or> m = None")
    case True
    with Suc.prems r show ?thesis by (auto simp: Let_def split: if_splits)
  next
    case False
    then obtain x where "m = Some x" by auto
    with Suc.prems r False obtain n1 where
      "process_message wwt_recivied_callback x (n\<lparr>comm := c\<rparr>) = Inr n1"
      "poll_loop k wwt_recivied_callback n1 = Inr n'"
      by (auto simp: Let_def elim!: bindE_InrE)
    then show ?thesis using Suc.IH list_message by fastforce
  qed
qed simp

lemma list_poll [list_frame]: "poll n = Inr n' \<Longrightarrow> inflight n' = inflight n"
  unfolding poll_def pdes_engine_poll_def by (rule list_poll_loop)

lemma list_waiting [list_frame]:
  "is_waiting_for_quanta n = Inr (b, n') \<Longrightarrow> inflight n' = inflight n"
  by (auto simp: is_waiting_for_quanta_def Let_def dest: list_poll elim!: bindE_InrE)

lemma list_notify [list_frame]: "notify_if_needed n = Inr n' \<Longrightarrow> inflight n' = inflight n"
  by (auto simp: notify_if_needed_def notify_neighbors_for_drain_def Let_def
      dest!: list_frame elim!: bindE_InrE split: if_splits)

lemma list_pause [list_frame]: "pdes_pause n = Inr n' \<Longrightarrow> inflight n' = inflight n"
  by (auto simp: pdes_pause_def Let_def out_call_def elim!: bindE_InrE split: if_splits option.splits)

lemma list_play [list_frame]: "pdes_play n = Inr n' \<Longrightarrow> inflight n' = inflight n"
  by (auto simp: pdes_play_def Let_def out_call_def elim!: bindE_InrE split: if_splits option.splits)

lemma list_begin [list_frame]: "quanta_begin n = Inr n' \<Longrightarrow> inflight n' = inflight n"
  by (auto simp: quanta_begin_def Let_def dest!: list_frame split: if_splits)

lemma list_rest [list_frame]: "quanta_rest n = Inr n' \<Longrightarrow> inflight n' = inflight n"
  by (auto simp: quanta_rest_def dest!: list_frame elim!: bindE_InrE split: if_splits)

lemma list_grant [list_frame]: "grant_permission n = Inr n' \<Longrightarrow> inflight n' = inflight n"
  by (auto simp: grant_permission_def dest!: list_frame elim!: bindE_InrE split: if_splits)

lemma list_check [list_frame]: "sync_checkpoint_check n = Inr (b, n') \<Longrightarrow> inflight n' = inflight n"
  by (auto simp: sync_checkpoint_check_def checkpoint_at_boundary_def Let_def
      dest!: list_frame elim!: bindE_InrE split: if_splits)

lemma list_start [list_frame]: "start_next_quantum n = Inr n' \<Longrightarrow> inflight n' = inflight n"
  by (auto simp: start_next_quantum_def Let_def dest!: list_frame elim!: bindE_InrE split: if_splits)

lemma list_pass [list_frame]: "pass_barrier n = Inr n' \<Longrightarrow> inflight n' = inflight n"
  by (auto simp: pass_barrier_def dest!: list_frame elim!: bindE_InrE split: if_splits)

lemma list_deliver [list_frame]:
  "process_message_at_virtual_time pdes_recv_callback c n = Inr n' \<Longrightarrow> inflight n' = inflight n"
  by (auto simp: process_message_at_virtual_time_def pdes_recv_callback_def out_call_def Let_def
      split: if_splits)

section \<open>Handlers that may exit\<close>

definition leaves_list :: "node \<Rightarrow> (node, node) res \<Rightarrow> bool" where
  "leaves_list n r \<longleftrightarrow> (\<forall>p n'. outcome r = Some (p, n') \<longrightarrow> inflight n' = inflight n)"

lemma leaves_list_simps [simp]:
  "leaves_list n (Inr n') \<longleftrightarrow> inflight n' = inflight n"
  "leaves_list n (Inl (Exit_Process i n')) \<longleftrightarrow> inflight n' = inflight n"
  "leaves_list n (Inl (Assert_Failed x))"
  by (simp_all add: leaves_list_def)

lemma leaves_list_bind:
  assumes "leaves_list n r" and "\<And>n1. r = Inr n1 \<Longrightarrow> inflight n1 = inflight n \<Longrightarrow> leaves_list n (f n1)"
  shows "leaves_list n (bindE r f)"
proof (cases r)
  case (Inl e)
  with assms(1) show ?thesis by (cases e) (simp_all add: leaves_list_def)
next
  case (Inr n1)
  with assms show ?thesis by simp
qed

lemma leaves_list_silent:
  assumes "\<And>n1. r = Inr n1 \<Longrightarrow> inflight n1 = inflight n" and "\<And>m. quiet_exit m r"
  shows "leaves_list n r"
proof (cases r)
  case (Inl e)
  have "virt n' = virt m" if "e = Exit_Process i n'" for i n' and m :: node
    using assms(2)[of m] that Inl by (simp add: quiet_def same_barrier_def)
  from this[where m = "n\<lparr>virt := 0\<rparr>"] this[where m = "n\<lparr>virt := 1\<rparr>"]
  have "e \<noteq> Exit_Process i n'" for i n' by fastforce
  with Inl show ?thesis by (cases e) (simp_all add: leaves_list_def)
qed (simp add: assms(1))

lemma leaves_list_destroy: "inflight n' = inflight n \<Longrightarrow> leaves_list n (pdes_engine_destroy n')"
  unfolding pdes_engine_destroy_def
  by (rule leaves_list_bind[OF leaves_list_silent])
    (auto simp: notify_neighbours_of_end_def destroy_strategy_def out_call_def Let_def dest: list_frame
      split: if_splits)

lemma leaves_list_finished:
  "leaves_list n (bindE (peer_has_finished n) (\<lambda>(_, n2). Inr n2))"
proof -
  have d: "leaves_list n (bindE (pdes_engine_destroy n') Inr)" if "inflight n' = inflight n" for n'
    by (rule leaves_list_bind[OF leaves_list_destroy[OF that]]) simp
  show ?thesis
    using d[of n] d[of "out_call Flexus_Stop n"]
    by (auto simp: peer_has_finished_def bindE_assoc assertE_def out_call_def)
qed

text \<open>\<open>save_snapshot\<close> has no access to the list but through its hook \<open>pdes_drain\<close>, which reads it.\<close>

definition save_reads_list :: "(string \<Rightarrow> u32 \<Rightarrow> node \<Rightarrow> (node, node) res) \<Rightarrow> bool" where
  "save_reads_list save \<longleftrightarrow> (\<forall>name fmt n. leaves_list n (save name fmt n))"

lemma leaves_list_checkpoint:
  assumes "save_reads_list save"
  shows "leaves_list n (create_checkpoint_bh save exit_after n)"
proof -
  have s: "leaves_list n (save name fmt n')" if "inflight n' = inflight n" for name fmt n'
    using assms that by (simp add: save_reads_list_def leaves_list_def)
  show ?thesis
    unfolding create_checkpoint_bh_def Let_def
    by (auto intro!: leaves_list_bind s leaves_list_destroy)
qed

section \<open>The list of a running process\<close>

lemma list_step:
  assumes "proc_step save (p, n) (p', n')" and "save_reads_list save"
  shows "inflight n' = inflight n"
  using assms(1)
proof (cases rule: proc_stepE)
  case (boundary exit_after)
  then show ?thesis
    using leaves_list_checkpoint[OF assms(2)] unfolding leaves_list_def by fastforce
next
  case destroy
  then show ?thesis using leaves_list_destroy[of n n] unfolding leaves_list_def by blast
next
  case (turn_finished n1)
  then show ?thesis
    using leaves_list_finished[of n1] list_poll[of n n1] unfolding leaves_list_def by fastforce
qed (auto simp: pdes_pause_bh_def out_call_def dest!: list_frame)

lemma list_reach:
  assumes "sys_reach save q K s" and "save_reads_list save"
  shows "inflight (node_a s) = no_inflight \<and> inflight (node_b s) = no_inflight"
  using assms(1)
proof induction
  case (init s)
  have "inflight n = no_inflight" if "node_started q K c m n" for c m n
    using that
    by (auto simp: node_started_def pdes_engine_wwt_create_def pdes_engine_create_def setup_wwt_def
        Let_def out_call_def elim!: bindE_InrE)
  with init show ?case by (auto simp: sys_init_def)
next
  case (step s t)
  from step.hyps(2) step.IH show ?case
    by cases (auto dest: list_step[OF _ assms(2)])
qed

lemma drain_writes:
  "pdes_drain name fmt n = Inr (i, n') \<Longrightarrow>
    files n' = snd (pdes_inflight_save_json (fopen_ok (platform n)) name (inflight n) (files n))"
  by (auto simp: pdes_drain_def dest!: send_control_frame elim!: bindE_InrE split: if_splits)

text \<open>
  C16. A snapshot loses the packets that wait for delivery: whatever is scheduled at a process of a
  reachable state, the file that \<open>pdes_drain\<close> writes there holds none of it, and a restore
  from that file schedules nothing, at whatever node.
\<close>

theorem pending_packets_not_saved:
  assumes "sys_reach save q K s" and "save_reads_list save" and "(p, n, m) \<in> processes s"
    and "pdes_drain name fmt n = Inr (i, n')" and "fopen_ok (platform n)"
    and "files r = files n'" and "fopen_ok (platform r)"
  shows "pdes_inflight_restore_and_schedule fresh name cb r = Inr (0, r)"
proof -
  have l: "inflight n = no_inflight"
    using list_reach[OF assms(1,2)] assms(3) by (auto simp: processes_def)
  have "files r = snd (pdes_inflight_save_json True name no_inflight (files n))"
    using drain_writes[OF assms(4)] assms(5,6) l by simp
  from restore_schedules_saved[OF _ _ _ this assms(7), of fresh cb] show ?thesis
    by (simp add: no_inflight_def inflight_wf_def pdes_inflight_count_def)
qed

theorem pending_packets_not_saved_witness:
  "\<exists>s b c n'. sys_reach demo_save 1000 5 s \<and> (Main_Loop, b, node_a s) \<in> processes s \<and> contexts b = [c] \<and>
    pdes_drain ''s'' 3 b = Inr (0, n') \<and>
    pdes_inflight_restore_and_schedule (\<lambda>_ _. 0) ''s'' True ((demo_node False 0)\<lparr>files := files n'\<rparr>) =
      Inr (0, (demo_node False 0)\<lparr>files := files n'\<rparr>)"
proof -
  obtain s b where s: "sys_reach demo_save 1000 5 s" "(Main_Loop, b, node_a s) \<in> processes s"
    and b: "\<not> master (eng b)" "platform b = demo_platform" "\<exists>c. contexts b = [c]"
    using demo_packet_run by blast
  have save: "save_reads_list demo_save"
    unfolding save_reads_list_def
  proof (intro allI leaves_list_silent)
    fix name fmt n n1
    assume "demo_save name fmt n = Inr n1"
    then show "inflight n1 = inflight n"
      by (auto simp: demo_save_def pdes_drain_def out_call_def dest!: list_frame elim!: bindE_InrE
          split: if_splits)
  next
    fix name fmt n m
    show "quiet_exit m (demo_save name fmt n)"
      unfolding demo_save_def pdes_drain_def by (intro quiet_exit_bind) (auto intro: quiet_exit_bind)
  qed
  obtain n' where d: "pdes_drain ''s'' 3 b = Inr (0, n')"
    using b by (simp add: pdes_drain_def demo_platform_def)
  let ?r = "(demo_node False 0)\<lparr>files := files n'\<rparr>"
  have "fopen_ok (platform b)" "files ?r = files n'" "fopen_ok (platform ?r)"
    using b by (simp_all add: demo_platform_def demo_node_def)
  from pending_packets_not_saved[OF s(1) save s(2) d this, of "\<lambda>_ _. 0" True] s b d show ?thesis by blast
qed

end
