(* ===== verification/Spec2Isabelle.thy ===== *)
theory Spec2Isabelle
  imports Ring_Interleave Ring_Creation System_Live System_Steps Leaving Late_Checkpoint Lost_Packets
begin

text \<open>
  A verification library for QEMU-PDES: the parallel discrete-event coupling of two QEMU processes
  in \<^verbatim>\<open>src/net/\<close> and \<^verbatim>\<open>src/include/net/\<close>.

  \<^bold>\<open>The program.\<close> Two QEMU processes, one the master, are linked by two rings in shared memory, one
  for each direction (\<^verbatim>\<open>pdes-communicator.c\<close>). Each runs a Wisconsin Wind Tunnel strategy
  (\<^verbatim>\<open>pdes-wwt.c\<close>) on a common engine (\<^verbatim>\<open>pdes-engine.c\<close>): virtual time is cut into quanta; at the end
  of a quantum a process pauses, polls its ring, sends SYNC with the number of its round and waits
  in \<open>wwt_sync_check\<close> until the SYNC of its peer for this round has been counted. A packet of
  the guest (\<^verbatim>\<open>pdes-netdev.c\<close>) is stamped with the sender's time plus one quantum and delivered by a
  timer of the receiver at exactly that time (\<^verbatim>\<open>pdes-utility.c\<close>). Two smaller protocols share the
  ring: the exit handshake INTENT, PERMISSION, END, and the agreement on a snapshot
  (CHECKPOINT_INIT_STEP, DRAIN_START, DRAIN_END; \<^verbatim>\<open>pdes-checkpoint.c\<close>), which also has a file of
  packets in flight.

  \<^bold>\<open>The model of the code.\<close>

  \<^item> \<open>Prelude\<close>: C integers as words of their width, faults (one value per way a call can fail to
    return: each \<open>assert\<close>, NULL, array bounds, a full ring, a busy loop that goes on, \<open>exit\<close>,
    undefined values), sequencing \<open>bindE\<close>, integers as bytes in memory.
  \<^item> \<open>Message\<close>: \<open>Message\<close>, the type tags, \<open>create_message\<close>.
  \<^item> \<open>Ring\<close>, \<open>Communicator\<close>: \<open>ShmRing\<close> with its 8192 slots, \<open>pdes_comm_create\<close> with all results of the
    system calls, \<open>pdes_comm_destroy\<close>, \<open>pdes_comm_send\<close>, \<open>pdes_comm_recv\<close>.
  \<^item> \<open>Ring_Interleave\<close>, \<open>Ring_Creation\<close>: the same functions split at every access to the shared
    memory and interleaved: one sender and one receiver, two senders, two processes that open one
    ring at the same time.
  \<^item> \<open>Inflight\<close>: the list \<open>pending_messages\<close>, and its JSON file printed and read back character by
    character (\<open>strstr\<close>, \<open>strchr\<close>, \<open>sscanf\<close>), with the growth of the array it is read into.
  \<^item> \<open>Node_State\<close>: \<open>PDESEngine\<close>, \<open>PDESWWT\<close> and \<open>MessageReceiveContext\<close> field by field as the records
    \<open>engine\<close>, \<open>wwt\<close>, \<open>receive_context\<close>, and the record \<open>node\<close> of a process: these, its communicator,
    clocks, timers, files and the calls it makes into QEMU and Flexus.
  \<^item> \<open>Utility\<close>, \<open>Engine\<close>, \<open>Checkpoint\<close>, \<open>Wwt\<close>, \<open>Netdev\<close>: the functions of the file of that name, one
    definition each under the name of the function, composed as the code composes them. Where the
    main thread may be overtaken by the peer a function is cut in named pieces (\<open>quanta_begin\<close>
    and \<open>quanta_rest\<close>, \<open>pass_barrier\<close>, the turns of \<open>sync_wait_loop\<close>).
  \<^item> \<open>System\<close>: the steps of one process, which are these pieces run from the main loop, a timer, a
    bottom half or the waiting loop (\<open>proc_step\<close>), and of two processes that share the rings
    (\<open>sys_step\<close>, \<open>sys_reach\<close>).

  \<^bold>\<open>The interfaces.\<close>

  \<^item> \<open>fifo\<close> (in \<open>Fifo\<close>): a bounded first-in first-out channel, interpreted on the ring as \<open>shm\<close>;
    sending and receiving are proved from its laws.
  \<^item> \<open>poll_client\<close>, \<open>poll_client_total\<close> (in \<open>Polling\<close>): what a strategy promises the polling loop of the
    engine, interpreted on the strategy as \<open>wwt_poll\<close> (every fault that can occur is known),
    \<open>wwt_poll_total\<close> and \<open>calm_poll\<close> (it returns).
  \<^item> \<open>gated\<close> (in \<open>Gate\<close>): a system refines the abstract two-party barrier, whose parties are in the
    phases \<open>Running r\<close> and \<open>Finished r\<close>; interpreted on the reachable system as \<open>qemu_gate\<close> in
    \<open>System_Refine\<close>, with \<open>gate_of\<close> as the abstraction.

  \<^bold>\<open>The groups of lemmas.\<close>

  \<^item> \<open>Drain\<close>: the checkpoint request on the wire, encoder against decoder, and its two overruns.
  \<^item> \<open>Quiet\<close>: the handlers that leave the barrier alone and send control messages only.
  \<^item> \<open>Barrier\<close>, \<open>Barrier_Steps\<close>, \<open>Barrier_Moves\<close>: the invariant \<open>pair_ok\<close> of two processes (SYNCs sent,
    queued and counted, rounds, clocks, timers, stamps of queued packets, the exit handshake) and
    its preservation, handler by handler.
  \<^item> \<open>System_Inv\<close>, \<open>System_Refine\<close>, \<open>System_Props\<close>: the invariant of all reachable states, the refinement
    of the abstract barrier, and what follows: rounds in step, packets on time, the lookahead,
    no assertion of the barrier or of the handshake violated, the barrier opens and does not
    deadlock, END once, leaving together.
  \<^item> \<open>Barrier_Live\<close>, \<open>System_Live\<close>, \<open>System_Steps\<close>: handlers return; polling ends and is the sequence of
    its turns.
  \<^item> \<open>System_Runs\<close>: runs of a concrete pair, on which the theorems are applied.
  \<^item> \<open>Inflight_Json\<close>: what is read back from the file, and that a list that ends with a packet that
    has any payload cannot be read.
  \<^item> \<open>Lost_Packets\<close>, \<open>Late_Checkpoint\<close>, \<open>Leaving\<close>: snapshots do not hold the packets in flight; when the
    two agree on the round of a snapshot and a run in which they do not; a master that leaves
    without a message, and a follower that waits for ever.

  \<^bold>\<open>Bounds and fuel.\<close> \<open>pdes_engine_poll\<close> has fuel 8192, one more than the ring can hold, and \<open>poll_terminates\<close>
  shows that more gives the same. \<open>load_entries\<close> has one more than the length of the text; every
  turn moves the pointer. \<open>sync_wait_loop\<close> is given what the peer does before each turn and ends
  in \<open>Still_Waiting\<close> when that is used up. Reachable states are those of the first \<open>K\<close> rounds with
  quantum \<open>q\<close>, where \<open>K + 1 < 2 ^ 32\<close> and all times fit in 63 bits: beyond, the keys of the SYNC counts
  repeat (\<open>sync_count_wraps\<close>) or times overflow.

  \<^bold>\<open>What is assumed of the surroundings.\<close>

  \<^item> The virtual clock stands from \<open>pdes_pause\<close> to \<open>pdes_play\<close> and during \<open>save_snapshot\<close>, and does not
    pass the deadline of an armed timer. The code itself doubts this: comments at
    \<^verbatim>\<open>pdes-wwt.c:173\<close> (an assertion on the distance of the clocks was removed), \<^verbatim>\<open>pdes-wwt.c:398\<close>
    and \<^verbatim>\<open>463\<close> (the drift check is switched off, time passes after a quantum) and at
    \<open>skip_boundry_check_after_checkpoint\<close> in \<^verbatim>\<open>pdes-engine.h\<close> (a checkpoint can move time), and the
    machine is stopped by a bottom half after the flag is set. So no theorem claims a bound on the distance
    of two real clocks; \<open>packet_lookahead\<close> is stated for arbitrary clocks and shows what a bound is
    needed for.
  \<^item> Handlers of one process do not overlap: \<open>can_stop\<close>, which Flexus calls on its own thread, is a
    step between those of the main thread. \<open>two_senders_lose_message\<close> shows what happens when its
    send overlaps another.
  \<^item> Between the processes memory is sequentially consistent. In \<open>System\<close> sends and receives are
    whole; \<open>spsc_linear\<close> justifies this for one sender and one receiver.
  \<^item> \<open>save_snapshot\<close> is an argument that keeps the barrier and sends control messages only
    (\<open>save_keeps\<close>), which its hook \<open>pdes_drain\<close> does, and leaves the in-flight list alone where that
    matters (\<open>save_reads_list\<close>). What fresh memory of \<open>g_renew\<close> holds is an argument too.
  \<^item> Time does not pass inside a handler; allocation succeeds; the counts of list entries stay below
    \<open>2 ^ 31\<close>.

  \<^bold>\<open>Not modelled.\<close> The singleton accessors (the singletons are the fields of \<open>node\<close>), \<open>printf\<close> and the test
  variable \<open>time_test\<close>, \<open>pdes_inflight_array_free\<close> and the freeing of memory in general, and the drift
  check, whose condition is the constant false. \<open>pdes_net_cleanup\<close> hands a \<open>PDESWWT\<close> to a function that
  expects a \<open>PDESEngine\<close>; the model ends in a fault there and does not say what the fields would
  read as.
\<close>

end
